(* ===== verification/Prelude.thy ===== *)
theory Prelude
  imports Main "HOL-Library.Word" "HOL-Library.Signed_Division"
begin

text \<open>
  The shared vocabulary of the development: Go's fixed-width integers as words, Go errors and
  panics as values, Go's \<^verbatim>\<open>for\<close> loop as a partial function, and the
  big-endian bit strings in which the wire formats of the transport stream are stated.
\<close>

unbundle bit_operations_syntax

section \<open>Go's integer types\<close>

type_synonym byte = "8 word"
type_synonym uint8 = "8 word"
type_synonym uint16 = "16 word"
type_synonym uint32 = "32 word"
type_synonym uint64 = "64 word"

text \<open>
  \<^verbatim>\<open>int64\<close> is kept as a 64-bit word read in two's complement: its right shift is
  the arithmetic \<^const>\<open>signed_drop_bit\<close>. Go's \<^verbatim>\<open>int\<close>, used for
  slice lengths and offsets only, is the unbounded \<^typ>\<open>int\<close>.
\<close>

type_synonym int64 = "64 word"

section \<open>Errors and panics\<close>

text \<open>
  One constructor per error value the package declares, \<open>ErrMessage\<close> for
  \<^verbatim>\<open>fmt.Errorf\<close> without a wrapped error (its text and the numbers it formats),
  \<open>ErrWrap\<close> for \<^verbatim>\<open>fmt.Errorf\<close> with \<^verbatim>\<open>%w\<close>,
  \<open>ErrAstikit\<close> for the error values that the imported package astikit makes,
  \<open>ErrEOF\<close>, \<open>ErrUnexpectedEOF\<close> and \<open>ErrIO\<close> for those of package
  \<^verbatim>\<open>io\<close> and of the caller's reader or writer. \<open>Panic\<close> is not an error value:
  it is a run-time panic, which unwinds through every caller.
\<close>

datatype error =
    ErrNoMorePackets
  | ErrPacketMustStartWithASyncByte
  | ErrPIDNotFound
  | ErrPIDAlreadyExists
  | ErrPCRPIDInvalid
  | ErrAstikit
  | ErrEOF
  | ErrUnexpectedEOF
  | ErrIO string
  | ErrContext string
  | ErrMessage string "int list"
  | ErrWrap string error
  | Panic

definition wrapError :: "string \<Rightarrow> error \<Rightarrow> error" where
  "wrapError msg e = (if e = Panic then Panic else ErrWrap msg e)"

lemma wrapError_Panic [simp]: "wrapError msg e = Panic \<longleftrightarrow> e = Panic"
  by (simp add: wrapError_def)

section \<open>Loops\<close>

text \<open>
  A Go \<^verbatim>\<open>for\<close> loop whose body either leaves the function with a result or goes
  round again. The value \<^const>\<open>None\<close> means that the loop does not end.
\<close>

datatype ('r, 's) flow = Return 'r | Continue 's

partial_function (option) goLoop :: "('s \<Rightarrow> ('r, 's) flow option) \<Rightarrow> 's \<Rightarrow> 'r option" where
  "goLoop body s = Option.bind (body s) (\<lambda>x. case x of Return r \<Rightarrow> Some r | Continue s' \<Rightarrow> goLoop body s')"

declare goLoop.simps [code]

lemma goLoop_Return: "body s = Some (Return r) \<Longrightarrow> goLoop body s = Some r"
  by (subst goLoop.simps) simp

lemma goLoop_Continue: "body s = Some (Continue s') \<Longrightarrow> goLoop body s = goLoop body s'"
  by (subst goLoop.simps) simp

text \<open>A loop returns when a natural-number measure falls at each turn.\<close>

lemma goLoop_returns:
  assumes "\<And>s. J s \<Longrightarrow>
      (\<exists>r. body s = Some (Return r)) \<or> (\<exists>s'. body s = Some (Continue s') \<and> J s' \<and> m s' < (m s :: nat))"
    and "J s"
  shows "\<exists>r. goLoop body s = Some r"
  using assms(2)
proof (induction "m s" arbitrary: s rule: less_induct)
  case less
  from assms(1)[OF less.prems] show ?case
  proof (elim disjE exE conjE)
    fix r assume "body s = Some (Return r)"
    then show ?thesis by (simp add: goLoop_Return)
  next
    fix s' assume "body s = Some (Continue s')" "J s'" "m s' < m s"
    with less.hyps[of s'] show ?thesis by (simp add: goLoop_Continue)
  qed
qed

text \<open>Induction over the turns of a loop that returned.\<close>

lemma goLoop_induct [consumes 1, case_names Return Continue]:
  assumes ret: "goLoop body s = Some r"
    and R: "\<And>s r. body s = Some (Return r) \<Longrightarrow> P s r"
    and C: "\<And>s s' r. body s = Some (Continue s') \<Longrightarrow> P s' r \<Longrightarrow> P s r"
  shows "P s r"
proof -
  have "body = body \<longrightarrow> P s r"
  proof (rule goLoop.raw_induct [where P = "\<lambda>b s r. b = body \<longrightarrow> P s r", OF _ ret], rule impI)
    fix f :: "('b \<Rightarrow> ('a, 'b) flow option) \<Rightarrow> 'b \<Rightarrow> 'a option" and b s r
    assume IH: "\<And>b s r. f b s = Some r \<Longrightarrow> b = body \<longrightarrow> P s r"
      and eq: "Option.bind (b s) (\<lambda>x. case x of Return r \<Rightarrow> Some r | Continue s' \<Rightarrow> f b s') = Some r"
      and b: "b = body"
    from eq b obtain x where x: "body s = Some x" by (cases "body s") auto
    show "P s r"
    proof (cases x)
      case (Return r')
      with eq x b R show ?thesis by simp
    next
      case (Continue s')
      with eq x b have "f body s' = Some r" by simp
      with IH have "P s' r" by blast
      with x Continue C show ?thesis by blast
    qed
  qed
  then show ?thesis by simp
qed

text \<open>A loop whose every turn goes round again from inside a set of states never returns.\<close>

lemma goLoop_diverges:
  assumes step: "\<And>s. J s \<Longrightarrow> \<exists>s'. body s = Some (Continue s') \<and> J s'"
    and start: "J s"
  shows "goLoop body s = None"
proof (rule ccontr)
  assume "goLoop body s \<noteq> None"
  then obtain r where "goLoop body s = Some r" by auto
  then have "\<not> J s"
    by (induction rule: goLoop_induct) (use step in fastforce)+
  with start show False by simp
qed

section \<open>Bit strings\<close>

text \<open>
  \<open>bits_of n w\<close> is the \<open>n\<close> low bits of \<open>w\<close>, most significant first;
  \<open>bits_to_bytes\<close> packs a bit string into bytes, eight bits each, and
  \<open>bits_rest\<close> is what is left over (fewer than eight bits).
\<close>

primrec bits_of :: "nat \<Rightarrow> 'a::len word \<Rightarrow> bool list" where
  "bits_of 0 w = []"
| "bits_of (Suc n) w = bit w n # bits_of n w"

definition byte8 ::
  "bool \<Rightarrow> bool \<Rightarrow> bool \<Rightarrow> bool \<Rightarrow> bool \<Rightarrow> bool \<Rightarrow> bool \<Rightarrow> bool \<Rightarrow> byte" where
  "byte8 a b c d e f g h = horner_sum of_bool 2 [h, g, f, e, d, c, b, a]"

fun bits_to_bytes :: "bool list \<Rightarrow> byte list" where
  "bits_to_bytes (a # b # c # d # e # f # g # h # r) = byte8 a b c d e f g h # bits_to_bytes r"
| "bits_to_bytes _ = []"

fun bits_rest :: "bool list \<Rightarrow> bool list" where
  "bits_rest (a # b # c # d # e # f # g # h # r) = bits_rest r"
| "bits_rest r = r"

definition bytes_to_bits :: "byte list \<Rightarrow> bool list" where
  "bytes_to_bits bs = concat (map (bits_of 8) bs)"

lemma bits_of_numeral [simp]:
  "bits_of (numeral k) w = bit w (pred_numeral k) # bits_of (pred_numeral k) w"
  by (simp add: numeral_eq_Suc)

lemma length_bits_of [simp]: "length (bits_of n w) = n"
  by (induction n) simp_all

lemma nth_bits_of: "i < n \<Longrightarrow> bits_of n w ! i = bit w (n - Suc i)"
  by (induction n arbitrary: i) (auto simp: nth_Cons split: nat.split)

lemma bits_of_eq: "bits_of n x = bits_of n y \<longleftrightarrow> (\<forall>i<n. bit x i = bit y i)"
  by (induction n) (auto simp: less_Suc_eq)

lemma word_eq_bits: "(x::'a::len word) = y \<longleftrightarrow> bits_of LENGTH('a) x = bits_of LENGTH('a) y"
  by (auto simp: bits_of_eq bit_eq_iff dest: bit_imp_le_length)

lemma bit_byte8: "bit (byte8 a b c d e f g h) n = (n < 8 \<and> [h, g, f, e, d, c, b, a] ! n)"
  unfolding byte8_def bit_horner_sum_bit_word_iff by (simp add: numeral_eq_Suc)

lemma bit_byte8_simps [simp]:
  "bit (byte8 a b c d e f g h) 0 = h"
  "bit (byte8 a b c d e f g h) (Suc 0) = g"
  "bit (byte8 a b c d e f g h) 1 = g"
  "bit (byte8 a b c d e f g h) 2 = f"
  "bit (byte8 a b c d e f g h) 3 = e"
  "bit (byte8 a b c d e f g h) 4 = d"
  "bit (byte8 a b c d e f g h) 5 = c"
  "bit (byte8 a b c d e f g h) 6 = b"
  "bit (byte8 a b c d e f g h) 7 = a"
  "bit (byte8 a b c d e f g h) (Suc (Suc 0)) = f"
  "bit (byte8 a b c d e f g h) (Suc (Suc (Suc 0))) = e"
  by (simp_all add: bit_byte8)

lemma bit_word_over [simp]: "LENGTH('a) \<le> n \<Longrightarrow> \<not> bit (w :: 'a::len word) n"
  by (auto dest: bit_imp_le_length)

lemma bits_of_byte8: "bits_of 8 (byte8 a b c d e f g h) = [a, b, c, d, e, f, g, h]"
  by simp

lemma byte8_bits: "byte8 (bit w 7) (bit w 6) (bit w 5) (bit w 4) (bit w 3) (bit w 2) (bit w (Suc 0)) (bit w 0) = w"
  by (simp add: word_eq_bits)

lemma bits_to_bytes_append:
  "bits_to_bytes (xs @ ys) = bits_to_bytes xs @ bits_to_bytes (bits_rest xs @ ys)"
  by (induction xs rule: bits_to_bytes.induct) simp_all

lemma bits_rest_append: "bits_rest (xs @ ys) = bits_rest (bits_rest xs @ ys)"
  by (induction xs rule: bits_to_bytes.induct) simp_all

lemma length_bits_rest [simp]: "length (bits_rest xs) = length xs mod 8"
  by (induction xs rule: bits_to_bytes.induct) simp_all

lemma length_bits_to_bytes [simp]: "length (bits_to_bytes xs) = length xs div 8"
  by (induction xs rule: bits_to_bytes.induct) simp_all

lemma bits_rest_aligned: "length xs mod 8 = 0 \<Longrightarrow> bits_rest xs = []"
  using length_bits_rest[of xs] by (metis length_0_conv)

lemma bits_rest_short: "length xs < 8 \<Longrightarrow> bits_rest xs = xs \<and> bits_to_bytes xs = []"
  by (cases xs rule: bits_to_bytes.cases) auto

lemma bits_to_bytes_aligned:
  "length xs mod 8 = 0 \<Longrightarrow> bits_to_bytes (xs @ ys) = bits_to_bytes xs @ bits_to_bytes ys"
  by (simp add: bits_to_bytes_append bits_rest_aligned)

lemma bytes_to_bits_simps [simp]:
  "bytes_to_bits [] = []"
  "bytes_to_bits (b # bs) = bits_of 8 b @ bytes_to_bits bs"
  "bytes_to_bits (bs @ cs) = bytes_to_bits bs @ bytes_to_bits cs"
  by (simp_all add: bytes_to_bits_def)

lemma length_bytes_to_bits [simp]: "length (bytes_to_bits bs) = 8 * length bs"
  by (induction bs) simp_all

lemma bits_to_bytes_bytes [simp]: "bits_to_bytes (bytes_to_bits bs) = bs"
  by (induction bs) (simp_all add: byte8_bits)

lemma bytes_bits_inv: "length xs mod 8 = 0 \<Longrightarrow> bytes_to_bits (bits_to_bytes xs) = xs"
  by (induction xs rule: bits_to_bytes.induct) simp_all

declare push_bit_Suc [simp del]

lemma xor_right_cancel [simp]: "(x XOR k = y XOR k) \<longleftrightarrow> x = (y :: 'a::len word)"
  by (metis xor.assoc xor.right_neutral xor_self_eq)

lemma xor_left_cancel [simp]: "(k XOR x = k XOR y) \<longleftrightarrow> x = (y :: 'a::len word)"
  by (simp add: xor.commute [of k])

section \<open>Reading flags and fields of a byte\<close>

text \<open>Go's \<^verbatim>\<open>b&0x40 > 0\<close> reads bit 6.\<close>

lemma flag_bit [simp]:
  fixes w :: byte
  shows "0 < w AND 0x80 \<longleftrightarrow> bit w 7" and "0 < w AND 0x40 \<longleftrightarrow> bit w 6"
    and "0 < w AND 0x20 \<longleftrightarrow> bit w 5" and "0 < w AND 0x10 \<longleftrightarrow> bit w 4"
    and "0 < w AND 0x08 \<longleftrightarrow> bit w 3" and "0 < w AND 0x04 \<longleftrightarrow> bit w 2"
    and "0 < w AND 0x02 \<longleftrightarrow> bit w 1" and "0 < w AND 0x01 \<longleftrightarrow> bit w 0"
  using and_exp_eq_0_iff_not_bit[of w 7] and_exp_eq_0_iff_not_bit[of w 6]
    and_exp_eq_0_iff_not_bit[of w 5] and_exp_eq_0_iff_not_bit[of w 4]
    and_exp_eq_0_iff_not_bit[of w 3] and_exp_eq_0_iff_not_bit[of w 2]
    and_exp_eq_0_iff_not_bit[of w 1] and_exp_eq_0_iff_not_bit[of w 0]
  by (simp_all add: word_gt_0)

text \<open>
  \<open>fits n w\<close>: \<open>w\<close> fits a field of \<open>n\<close> bits. Such a value is the one
  its \<open>n\<close> low bits spell.
\<close>

definition fits :: "nat \<Rightarrow> 'a::len word \<Rightarrow> bool" where
  "fits n w \<longleftrightarrow> w < 2 ^ n"

lemma take_bit_word_eq: "(w :: 'a::len word) < 2 ^ n \<Longrightarrow> take_bit n w = w"
  by (simp add: mod_word_less take_bit_eq_mod)

lemma take_bit_word_less: "n < LENGTH('a) \<Longrightarrow> take_bit n (w :: 'a::len word) < 2 ^ n"
  by (simp add: size_word.rep_eq unsigned_take_bit_eq word_2p_lem)

lemma bit_above_bound: "(w :: 'a::len word) < 2 ^ n \<Longrightarrow> n \<le> k \<Longrightarrow> \<not> bit w k"
  using take_bit_word_eq[of w n] by (metis bit_take_bit_iff leD)

lemma fits_bit: "fits n w \<Longrightarrow> n \<le> k \<Longrightarrow> \<not> bit w k"
  unfolding fits_def by (rule bit_above_bound)

lemma fits_take_bit: "fits n w \<Longrightarrow> take_bit n w = w"
  unfolding fits_def by (rule take_bit_word_eq)

text \<open>The comparison \<^verbatim>\<open>x >= 0x80\<close> reads the top bit.\<close>

lemma top_bit:
  fixes w :: "'a::len word"
  assumes "LENGTH('a) = Suc n"
  shows "2 ^ n \<le> w \<longleftrightarrow> bit w n"
proof
  assume "2 ^ n \<le> w"
  show "bit w n"
  proof (rule ccontr)
    assume "\<not> bit w n"
    with assms have "take_bit n w = w"
      by (intro bit_eqI) (metis bit_imp_le_length bit_take_bit_iff less_SucE)
    with take_bit_word_less[of n w] assms have "w < 2 ^ n" by simp
    with \<open>2 ^ n \<le> w\<close> show False by simp
  qed
next
  assume "bit w n"
  then show "2 ^ n \<le> w" using bit_above_bound[of w n n] by (meson leI order_refl)
qed

section \<open>Sums over lists\<close>

lemma int_sum_list: "int (\<Sum>x\<leftarrow>xs. f x) = (\<Sum>x\<leftarrow>xs. int (f x))"
  by (induction xs) simp_all

end
