(* ===== verification/Go_Time.thy ===== *)
theory Go_Time
  imports Complex_Main "HOL-Library.Log_Nat" Prelude
begin

text \<open>
  What the package uses of Go's arithmetic on \<^verbatim>\<open>float64\<close> and of the standard
  packages \<^verbatim>\<open>time\<close> and \<^verbatim>\<open>fmt\<close>: floating-point operations as
  exact rational operations followed by rounding to 53 bits, instants as nanoseconds since the zero
  time, the proleptic Gregorian calendar, and the parsing of dates in the layout
  \<^verbatim>\<open>06-01-02\<close>.
\<close>

section \<open>float64\<close>

text \<open>The exponent of a positive number: \<open>2 ^ e \<le> q < 2 ^ (e + 1)\<close>.\<close>

definition expo :: "rat \<Rightarrow> int" where
  "expo q = (if 1 \<le> q then int (floorlog 2 (nat \<lfloor>q\<rfloor>)) - 1 else - int (floorlog 2 (nat (\<lceil>1 / q\<rceil> - 1))))"

definition pow2 :: "int \<Rightarrow> rat" where
  "pow2 e = (if 0 \<le> e then 2 ^ nat e else 1 / 2 ^ nat (- e))"

definition round_even :: "rat \<Rightarrow> int" where
  "round_even x = (let n = \<lfloor>x\<rfloor>; r = x - of_int n in
     if r < 1 / 2 then n else if 1 / 2 < r then n + 1 else if even n then n else n + 1)"

text \<open>
  Rounding to the nearest \<^verbatim>\<open>float64\<close>, ties to even. The numbers of this package are
  far from overflow and from subnormal numbers, which are not modelled.
\<close>

definition fl64 :: "rat \<Rightarrow> rat" where
  "fl64 x = (if x = 0 then 0 else let u = pow2 (expo \<bar>x\<bar> - 52) in of_int (round_even (x / u)) * u)"

text \<open>\<^verbatim>\<open>int(x)\<close>: truncation towards zero.\<close>

definition trunc :: "rat \<Rightarrow> int" where
  "trunc x = (if 0 \<le> x then \<lfloor>x\<rfloor> else \<lceil>x\<rceil>)"

section \<open>Durations and instants\<close>

text \<open>A \<^verbatim>\<open>time.Duration\<close> is an \<^verbatim>\<open>int64\<close> of nanoseconds, kept here as an integer.\<close>

definition nsSecond :: int where "nsSecond = 1000000000"
definition nsMinute :: int where "nsMinute = 60 * nsSecond"
definition nsHour :: int where "nsHour = 60 * nsMinute"
definition nsDay :: int where "nsDay = 24 * nsHour"

text \<open>\<^verbatim>\<open>Duration.Hours\<close>, \<^verbatim>\<open>Minutes\<close> and \<^verbatim>\<open>Seconds\<close>, in floating point.\<close>

definition duration_in :: "int \<Rightarrow> int \<Rightarrow> rat" where
  "duration_in unit d = fl64 (of_int (d sdiv unit) + fl64 (of_int (d smod unit) / of_int unit))"

section \<open>The calendar\<close>

text \<open>
  An instant is the number of nanoseconds since the zero \<^verbatim>\<open>time.Time\<close>, January 1
  of year 1, 00:00 UTC. Days are counted from that day.
\<close>

definition leap :: "int \<Rightarrow> bool" where
  "leap y \<longleftrightarrow> 4 dvd y \<and> (\<not> 100 dvd y \<or> 400 dvd y)"

definition daysIn :: "int \<Rightarrow> int \<Rightarrow> int" where
  "daysIn m y = (if m = 2 then (if leap y then 29 else 28) else if m \<in> {4, 6, 9, 11} then 30 else 31)"

text \<open>Days before a month: the months are counted from March, as usual, so that the leap day comes last.\<close>

definition daysOf :: "int \<Rightarrow> int \<Rightarrow> int \<Rightarrow> int" where
  "daysOf y m d =
     (let y' = (if m \<le> 2 then y - 1 else y); m' = (if m \<le> 2 then m + 9 else m - 3)
      in 365 * y' + y' div 4 - y' div 100 + y' div 400 + (153 * m' + 2) div 5 + d - 307)"

text \<open>The year, month and day of a day, by the same count from March.\<close>

definition civil :: "int \<Rightarrow> int \<times> int \<times> int" where
  "civil z =
     (let z = z + 306; era = z div 146097; doe = z mod 146097;
          yoe = (doe - doe div 1460 + doe div 36524 - doe div 146096) div 365;
          doy = doe - (365 * yoe + yoe div 4 - yoe div 100);
          mp = (5 * doy + 2) div 153;
          d = doy - (153 * mp + 2) div 5 + 1;
          m = (if mp < 10 then mp + 3 else mp - 9);
          y = yoe + 400 * era
      in (if m \<le> 2 then y + 1 else y, m, d))"

section \<open>Decimal numbers and dates\<close>

definition digit_char :: "int \<Rightarrow> char" where
  "digit_char n = char_of (48 + nat (n mod 10))"

function digits :: "int \<Rightarrow> string" where
  "digits n = (if n < 10 then [digit_char n] else digits (n div 10) @ [digit_char n])"
  by auto
termination by (relation "measure nat") auto

declare digits.simps [simp del]

text \<open>\<^verbatim>\<open>fmt.Sprintf("%d", n)\<close>\<close>

definition show_int :: "int \<Rightarrow> string" where
  "show_int n = (if n < 0 then CHR ''-'' # digits (- n) else digits n)"

definition isDigit :: "char \<Rightarrow> bool" where
  "isDigit c \<longleftrightarrow> 48 \<le> (of_char c :: nat) \<and> (of_char c :: nat) \<le> 57"

definition digitVal :: "char \<Rightarrow> int" where
  "digitVal c = int (of_char c) - 48"

text \<open>Package time's \<^verbatim>\<open>atoi\<close> on two characters, the first of which may be a sign.\<close>

definition atoi2 :: "char \<Rightarrow> char \<Rightarrow> int option" where
  "atoi2 a b =
     (if \<not> isDigit b then None
      else if a = CHR ''-'' then Some (- digitVal b)
      else if a = CHR ''+'' then Some (digitVal b)
      else if isDigit a then Some (10 * digitVal a + digitVal b) else None)"

text \<open>
  \<^verbatim>\<open>time.Parse("06-01-02", value)\<close> as the day it denotes: a year of exactly two
  characters, of this century below 69, then a month and a day of exactly two digits that exist.
\<close>

definition parseYear2 :: "int \<Rightarrow> int" where
  "parseYear2 y = (if 69 \<le> y then y + 1900 else y + 2000)"

fun timeParse060102 :: "string \<Rightarrow> int option" where
  "timeParse060102 [a, b, s, c, d, t, e, f] =
     (case atoi2 a b of
        None \<Rightarrow> None
      | Some y2 \<Rightarrow>
          if s = CHR ''-'' \<and> t = CHR ''-'' \<and> isDigit c \<and> isDigit d \<and> isDigit e \<and> isDigit f
          then (let y = parseYear2 y2; m = 10 * digitVal c + digitVal d; day = 10 * digitVal e + digitVal f in
                if 1 \<le> m \<and> m \<le> 12 \<and> 1 \<le> day \<and> day \<le> daysIn m y then Some (daysOf y m day) else None)
          else None)"
| "timeParse060102 _ = None"

end
