(* ===== verification/Bytes_Iterator.thy ===== *)
theory Bytes_Iterator
  imports Prelude
begin

text \<open>
  The reading half of the imported package \<^verbatim>\<open>github.com/asticode/go-astikit\<close>,
  which is not part of the repository: the type \<^verbatim>\<open>BytesIterator\<close> is a parameter
  of every parser of the development, a record of its methods over an abstract iterator state.
  What the parsers rely on is the locale \<open>bytes_iterator\<close>. The second half of the theory
  is the monad in which the parsers are written, and a reference iterator (a byte slice and an
  offset) that meets the contract.
\<close>

section \<open>The interface\<close>

text \<open>
  A method that returns an error is modelled as a sum. Methods that move the iterator return it.
  \<open>bi_NextBytes\<close> copies and \<open>bi_NextBytesNoCopy\<close> does not; the parsers only read
  the slice, so both return a list of bytes. \<open>bi_Dump\<close> has no error to return; its sum is for a
  panic.
\<close>

record 'i BytesIterator =
  bi_New :: "byte list \<Rightarrow> 'i"
  bi_NextByte :: "'i \<Rightarrow> error + byte \<times> 'i"
  bi_NextBytes :: "int \<Rightarrow> 'i \<Rightarrow> error + byte list \<times> 'i"
  bi_NextBytesNoCopy :: "int \<Rightarrow> 'i \<Rightarrow> error + byte list \<times> 'i"
  bi_Seek :: "int \<Rightarrow> 'i \<Rightarrow> 'i"
  bi_Skip :: "int \<Rightarrow> 'i \<Rightarrow> 'i"
  bi_Offset :: "'i \<Rightarrow> int"
  bi_Len :: "'i \<Rightarrow> int"
  bi_HasBytesLeft :: "'i \<Rightarrow> bool"
  bi_Dump :: "'i \<Rightarrow> error + byte list \<times> 'i"

text \<open>The slice under an iterator, read back through the interface itself.\<close>

definition bi_slice :: "'i BytesIterator \<Rightarrow> 'i \<Rightarrow> byte list" where
  "bi_slice I i = (case bi_Dump I (bi_Seek I 0 i) of Inl _ \<Rightarrow> [] | Inr (bs, _) \<Rightarrow> bs)"

text \<open>
  The contract. Nothing is said about an iterator at a negative offset or a negative count,
  where the package makes no promise.
\<close>

locale bytes_iterator =
  fixes I :: "'i BytesIterator"
  assumes slice_New: "bi_slice I (bi_New I bs) = bs"
    and Offset_New: "bi_Offset I (bi_New I bs) = 0"
    and Len: "bi_Len I i = int (length (bi_slice I i))"
    and HasBytesLeft: "bi_HasBytesLeft I i \<longleftrightarrow> bi_Offset I i < bi_Len I i"
    and Offset_Seek: "bi_Offset I (bi_Seek I n i) = n"
    and slice_Seek: "bi_slice I (bi_Seek I n i) = bi_slice I i"
    and Offset_Skip: "bi_Offset I (bi_Skip I n i) = bi_Offset I i + n"
    and slice_Skip: "bi_slice I (bi_Skip I n i) = bi_slice I i"
    and NextByte_ok: "0 \<le> bi_Offset I i \<Longrightarrow> bi_Offset I i < bi_Len I i \<Longrightarrow>
      \<exists>i'. bi_NextByte I i = Inr (bi_slice I i ! nat (bi_Offset I i), i') \<and>
        bi_slice I i' = bi_slice I i \<and> bi_Offset I i' = bi_Offset I i + 1"
    and NextByte_err: "bi_Len I i \<le> bi_Offset I i \<Longrightarrow> bi_NextByte I i = Inl ErrAstikit"
    and NextBytes_ok: "0 \<le> bi_Offset I i \<Longrightarrow> 0 \<le> n \<Longrightarrow> bi_Offset I i + n \<le> bi_Len I i \<Longrightarrow>
      \<exists>i'. bi_NextBytes I n i = Inr (take (nat n) (drop (nat (bi_Offset I i)) (bi_slice I i)), i') \<and>
        bi_slice I i' = bi_slice I i \<and> bi_Offset I i' = bi_Offset I i + n"
    and NextBytes_err: "0 \<le> bi_Offset I i \<Longrightarrow> 0 \<le> n \<Longrightarrow> bi_Len I i < bi_Offset I i + n \<Longrightarrow>
      bi_NextBytes I n i = Inl ErrAstikit"
    and NextBytesNoCopy_ok: "0 \<le> bi_Offset I i \<Longrightarrow> 0 \<le> n \<Longrightarrow> bi_Offset I i + n \<le> bi_Len I i \<Longrightarrow>
      \<exists>i'. bi_NextBytesNoCopy I n i = Inr (take (nat n) (drop (nat (bi_Offset I i)) (bi_slice I i)), i') \<and>
        bi_slice I i' = bi_slice I i \<and> bi_Offset I i' = bi_Offset I i + n"
    and NextBytesNoCopy_err: "0 \<le> bi_Offset I i \<Longrightarrow> 0 \<le> n \<Longrightarrow> bi_Len I i < bi_Offset I i + n \<Longrightarrow>
      bi_NextBytesNoCopy I n i = Inl ErrAstikit"
    and Dump: "0 \<le> bi_Offset I i \<Longrightarrow>
      \<exists>i'. bi_Dump I i = Inr (drop (nat (bi_Offset I i)) (bi_slice I i), i') \<and>
        bi_slice I i' = bi_slice I i \<and> bi_Offset I i' = max (bi_Offset I i) (bi_Len I i)"

section \<open>Parsers\<close>

text \<open>
  A parser reads from an iterator, and returns a value or an error; \<^const>\<open>None\<close> means
  that it does not return. After an error the iterator is not used again.
\<close>

type_synonym ('i, 'a) parser = "'i \<Rightarrow> (error + 'a \<times> 'i) option"

definition preturn :: "'a \<Rightarrow> ('i, 'a) parser" where
  "preturn a = (\<lambda>i. Some (Inr (a, i)))"

definition pfail :: "error \<Rightarrow> ('i, 'a) parser" where
  "pfail e = (\<lambda>i. Some (Inl e))"

definition pbind :: "('i, 'a) parser \<Rightarrow> ('a \<Rightarrow> ('i, 'b) parser) \<Rightarrow> ('i, 'b) parser" where
  "pbind p f = (\<lambda>i. case p i of
      None \<Rightarrow> None
    | Some (Inl e) \<Rightarrow> Some (Inl e)
    | Some (Inr (a, i')) \<Rightarrow> f a i')"

text \<open>\<^verbatim>\<open>if x, err = p(); err != nil { err = fmt.Errorf(msg, err); return }\<close>\<close>

definition pwrap :: "string \<Rightarrow> ('i, 'a) parser \<Rightarrow> ('i, 'a) parser" where
  "pwrap msg p = (\<lambda>i. case p i of
      None \<Rightarrow> None
    | Some (Inl e) \<Rightarrow> Some (Inl (wrapError msg e))
    | Some (Inr r) \<Rightarrow> Some (Inr r))"

text \<open>\<^verbatim>\<open>if x, err = p(); err != nil { err = e; return }\<close>: the error is replaced.\<close>

definition pinstead :: "error \<Rightarrow> ('i, 'a) parser \<Rightarrow> ('i, 'a) parser" where
  "pinstead e p = (\<lambda>i. case p i of
      None \<Rightarrow> None
    | Some (Inl e') \<Rightarrow> Some (Inl (if e' = Panic then Panic else e))
    | Some (Inr r) \<Rightarrow> Some (Inr r))"

text \<open>A dereference of a pointer: a panic when it is nil.\<close>

definition pderef :: "'a option \<Rightarrow> ('a \<Rightarrow> ('i, 'b) parser) \<Rightarrow> ('i, 'b) parser" where
  "pderef x k = (case x of None \<Rightarrow> (\<lambda>i. Some (Inl Panic)) | Some a \<Rightarrow> k a)"

definition plift :: "('i \<Rightarrow> error + 'a \<times> 'i) \<Rightarrow> ('i, 'a) parser" where
  "plift f = (\<lambda>i. Some (f i))"

definition pget :: "('i \<Rightarrow> 'a) \<Rightarrow> ('i, 'a) parser" where
  "pget f = (\<lambda>i. Some (Inr (f i, i)))"

definition pmove :: "('i \<Rightarrow> 'i) \<Rightarrow> ('i, unit) parser" where
  "pmove f = (\<lambda>i. Some (Inr ((), f i)))"

text \<open>An optional field: parsed when its flag is set, left at its zero value otherwise.\<close>

definition pwhen :: "bool \<Rightarrow> 'a \<Rightarrow> ('i, 'a) parser \<Rightarrow> ('i, 'a) parser" where
  "pwhen c d p = (if c then p else preturn d)"

text \<open>A pointer field set to what a parser returns.\<close>

definition psome :: "('i, 'a) parser \<Rightarrow> ('i, 'a option) parser" where
  "psome p = pbind p (\<lambda>a. preturn (Some a))"

text \<open>\<^verbatim>\<open>for c { body }\<close>, with the loop's variables as an accumulator.\<close>

definition pwhile :: "('a \<Rightarrow> 'i \<Rightarrow> bool) \<Rightarrow> ('a \<Rightarrow> ('i, 'a) parser) \<Rightarrow> 'a \<Rightarrow> ('i, 'a) parser" where
  "pwhile c body a = (\<lambda>i. goLoop
     (\<lambda>(a, i). if c a i
        then map_option (\<lambda>r. case r of Inl e \<Rightarrow> Return (Inl e) | Inr s \<Rightarrow> Continue s) (body a i)
        else Some (Return (Inr (a, i))))
     (a, i))"

lemma pwhile_unfold:
  "pwhile c body a i = (if c a i then pbind (body a) (pwhile c body) i else Some (Inr (a, i)))"
  by (simp add: pwhile_def goLoop.simps pbind_def map_option_case
      split: option.split sum.split prod.split)

text \<open>A loop whose body changes nothing does not end.\<close>

lemma pwhile_stuck:
  assumes "c a i" and "body a i = Some (Inr (a, i))"
  shows "pwhile c body a i = None"
  unfolding pwhile_def
  by (rule goLoop_diverges[where J = "\<lambda>s. s = (a, i)"]) (use assms in simp_all)

lemmas parser_defs = preturn_def pfail_def pbind_def pwrap_def plift_def pget_def pmove_def pwhen_def psome_def

lemma pwrap_Inr: "p i = Some (Inr r) \<Longrightarrow> pwrap msg p i = Some (Inr r)"
  by (simp add: pwrap_def)

lemma pbind_Inr: "p i = Some (Inr (a, i')) \<Longrightarrow> pbind p f i = f a i'"
  by (simp add: pbind_def)

lemma pbind_Inl: "p i = Some (Inl e) \<Longrightarrow> pbind p f i = Some (Inl e)"
  by (simp add: pbind_def)

lemma pbind_None: "p i = None \<Longrightarrow> pbind p f i = None"
  by (simp add: pbind_def)

lemma pbind_InrE:
  assumes "pbind p f i = Some (Inr r)"
  obtains a i' where "p i = Some (Inr (a, i'))" "f a i' = Some (Inr r)"
  using assms by (auto simp: pbind_def split: option.splits sum.splits)

text \<open>The calls of the package on its iterator, with the error texts they all share.\<close>

definition fetchByte :: "'i BytesIterator \<Rightarrow> ('i, byte) parser" where
  "fetchByte I = pwrap ''astits: fetching next byte failed: '' (plift (bi_NextByte I))"

definition fetchBytes :: "'i BytesIterator \<Rightarrow> int \<Rightarrow> ('i, byte list) parser" where
  "fetchBytes I n = pwrap ''astits: fetching next bytes failed: '' (plift (bi_NextBytes I n))"

definition fetchBytesNoCopy :: "'i BytesIterator \<Rightarrow> int \<Rightarrow> ('i, byte list) parser" where
  "fetchBytesNoCopy I n = pwrap ''astits: fetching next bytes failed: '' (plift (bi_NextBytesNoCopy I n))"

definition offset :: "'i BytesIterator \<Rightarrow> ('i, int) parser" where
  "offset I = pget (bi_Offset I)"

definition seek :: "'i BytesIterator \<Rightarrow> int \<Rightarrow> ('i, unit) parser" where
  "seek I n = pmove (bi_Seek I n)"

definition skip :: "'i BytesIterator \<Rightarrow> int \<Rightarrow> ('i, unit) parser" where
  "skip I n = pmove (bi_Skip I n)"

definition dump :: "'i BytesIterator \<Rightarrow> ('i, byte list) parser" where
  "dump I = plift (bi_Dump I)"

lemma pbind_offset: "pbind (offset I) f i = f (bi_Offset I i) i"
  by (simp add: pbind_def offset_def pget_def)

text \<open>\<^verbatim>\<open>p(astikit.NewBytesIterator(bs))\<close>, as the callers run a parser.\<close>

definition parseBytes :: "'i BytesIterator \<Rightarrow> ('i, 'a) parser \<Rightarrow> byte list \<Rightarrow> (error + 'a) option" where
  "parseBytes I p bs = (case p (bi_New I bs) of
      None \<Rightarrow> None
    | Some (Inl e) \<Rightarrow> Some (Inl e)
    | Some (Inr (a, _)) \<Rightarrow> Some (Inr a))"

section \<open>The reference iterator\<close>

text \<open>A slice and an offset; outside the contract it panics.\<close>

type_synonym cursor = "byte list \<times> int"

definition refIterator :: "cursor BytesIterator" where
  "refIterator = \<lparr>
     bi_New = (\<lambda>bs. (bs, 0)),
     bi_NextByte = (\<lambda>(bs, off).
       if off < 0 then Inl Panic
       else if off < int (length bs) then Inr (bs ! nat off, (bs, off + 1)) else Inl ErrAstikit),
     bi_NextBytes = (\<lambda>n (bs, off).
       if off < 0 \<or> n < 0 then Inl Panic
       else if off + n \<le> int (length bs) then Inr (take (nat n) (drop (nat off) bs), (bs, off + n))
       else Inl ErrAstikit),
     bi_NextBytesNoCopy = (\<lambda>n (bs, off).
       if off < 0 \<or> n < 0 then Inl Panic
       else if off + n \<le> int (length bs) then Inr (take (nat n) (drop (nat off) bs), (bs, off + n))
       else Inl ErrAstikit),
     bi_Seek = (\<lambda>n (bs, off). (bs, n)),
     bi_Skip = (\<lambda>n (bs, off). (bs, off + n)),
     bi_Offset = snd,
     bi_Len = (\<lambda>(bs, off). int (length bs)),
     bi_HasBytesLeft = (\<lambda>(bs, off). off < int (length bs)),
     bi_Dump = (\<lambda>(bs, off).
       if off < 0 then Inl Panic else Inr (drop (nat off) bs, (bs, max off (int (length bs))))) \<rparr>"

lemma refIterator_simps [simp]:
  "bi_New refIterator bs = (bs, 0)"
  "bi_NextByte refIterator (bs, off) =
     (if off < 0 then Inl Panic
      else if off < int (length bs) then Inr (bs ! nat off, (bs, off + 1)) else Inl ErrAstikit)"
  "bi_NextBytes refIterator n (bs, off) =
     (if off < 0 \<or> n < 0 then Inl Panic
      else if off + n \<le> int (length bs) then Inr (take (nat n) (drop (nat off) bs), (bs, off + n))
      else Inl ErrAstikit)"
  "bi_NextBytesNoCopy refIterator n (bs, off) = bi_NextBytes refIterator n (bs, off)"
  "bi_Seek refIterator n (bs, off) = (bs, n)"
  "bi_Skip refIterator n (bs, off) = (bs, off + n)"
  "bi_Offset refIterator (bs, off) = off"
  "bi_Len refIterator (bs, off) = int (length bs)"
  "bi_HasBytesLeft refIterator (bs, off) = (off < int (length bs))"
  "bi_Dump refIterator (bs, off) =
     (if off < 0 then Inl Panic else Inr (drop (nat off) bs, (bs, max off (int (length bs)))))"
  by (simp_all add: refIterator_def)

lemma refIterator_slice [simp]: "bi_slice refIterator (bs, off) = bs"
  by (simp add: bi_slice_def)

interpretation ref_iterator: bytes_iterator refIterator
  by unfold_locales (auto simp: split_paired_all)

end
