(* ===== verification/Parser_Transfer.thy ===== *)
theory Parser_Transfer
  imports Bytes_Iterator
begin

text \<open>
  Results about a parser on the reference iterator hold for every iterator that meets the
  contract: a simulation relation with one rule per combinator, so that the transfer of a parser
  follows its definition.
\<close>

section \<open>Transfer from the reference iterator\<close>

text \<open>
  \<open>sim I p q\<close>: wherever \<open>q\<close>, run on the reference iterator, returns without
  panicking, \<open>p\<close> on the corresponding state of \<open>I\<close> returns the same and ends in the
  corresponding state; and where \<open>q\<close> does not return, \<open>p\<close> does not either.
\<close>

definition sim :: "'i BytesIterator \<Rightarrow> ('i, 'a) parser \<Rightarrow> (cursor, 'a) parser \<Rightarrow> bool" where
  "sim I p q \<longleftrightarrow>
     (\<forall>i a bs off. q (bi_slice I i, bi_Offset I i) = Some (Inr (a, bs, off)) \<longrightarrow>
        (\<exists>i'. p i = Some (Inr (a, i')) \<and> bi_slice I i' = bs \<and> bi_Offset I i' = off)) \<and>
     (\<forall>i e. q (bi_slice I i, bi_Offset I i) = Some (Inl e) \<longrightarrow> e \<noteq> Panic \<longrightarrow> p i = Some (Inl e)) \<and>
     (\<forall>i. q (bi_slice I i, bi_Offset I i) = None \<longrightarrow> p i = None)"

named_theorems sim_intros "composition rules for the simulation by the reference iterator"

lemma simE_ok:
  assumes "sim I p q" "q (bi_slice I i, bi_Offset I i) = Some (Inr (a, bs, off))"
  shows "\<exists>i'. p i = Some (Inr (a, i')) \<and> bi_slice I i' = bs \<and> bi_Offset I i' = off"
  using assms unfolding sim_def by blast

lemma simE_err:
  assumes "sim I p q" "q (bi_slice I i, bi_Offset I i) = Some (Inl e)" "e \<noteq> Panic"
  shows "p i = Some (Inl e)"
  using assms unfolding sim_def by blast

lemma simE_none: "sim I p q \<Longrightarrow> q (bi_slice I i, bi_Offset I i) = None \<Longrightarrow> p i = None"
  unfolding sim_def by blast

lemma simI:
  assumes "\<And>i a bs off. q (bi_slice I i, bi_Offset I i) = Some (Inr (a, bs, off)) \<Longrightarrow>
      \<exists>i'. p i = Some (Inr (a, i')) \<and> bi_slice I i' = bs \<and> bi_Offset I i' = off"
    and "\<And>i e. q (bi_slice I i, bi_Offset I i) = Some (Inl e) \<Longrightarrow> e \<noteq> Panic \<Longrightarrow> p i = Some (Inl e)"
    and "\<And>i. q (bi_slice I i, bi_Offset I i) = None \<Longrightarrow> p i = None"
  shows "sim I p q"
  unfolding sim_def using assms by blast

lemma sim_preturn [sim_intros]: "sim I (preturn a) (preturn a)"
  by (simp add: sim_def preturn_def)

lemma sim_pfail [sim_intros]: "sim I (pfail e) (pfail e)"
  by (simp add: sim_def pfail_def)

lemma sim_pbind [sim_intros]:
  assumes "sim I p q" and "\<And>a. sim I (f a) (g a)"
  shows "sim I (pbind p f) (pbind q g)"
proof (rule simI)
  fix i a bs off
  assume "pbind q g (bi_slice I i, bi_Offset I i) = Some (Inr (a, bs, off))"
  then obtain b cs k where q: "q (bi_slice I i, bi_Offset I i) = Some (Inr (b, cs, k))"
    and g: "g b (cs, k) = Some (Inr (a, bs, off))"
    by (auto simp: pbind_def split: option.splits sum.splits)
  from simE_ok[OF assms(1) q] obtain i' where i': "p i = Some (Inr (b, i'))"
    "bi_slice I i' = cs" "bi_Offset I i' = k" by blast
  with simE_ok[OF assms(2)[of b], of i' a bs off] g
  show "\<exists>i'. pbind p f i = Some (Inr (a, i')) \<and> bi_slice I i' = bs \<and> bi_Offset I i' = off"
    by (auto simp: pbind_def)
next
  fix i e
  assume "pbind q g (bi_slice I i, bi_Offset I i) = Some (Inl e)" and e: "e \<noteq> Panic"
  then consider "q (bi_slice I i, bi_Offset I i) = Some (Inl e)"
    | b cs k where "q (bi_slice I i, bi_Offset I i) = Some (Inr (b, cs, k))" "g b (cs, k) = Some (Inl e)"
    by (auto simp: pbind_def split: option.splits sum.splits)
  then show "pbind p f i = Some (Inl e)"
  proof cases
    case 1
    with simE_err[OF assms(1) this e] show ?thesis by (simp add: pbind_def)
  next
    case 2
    from simE_ok[OF assms(1) 2(1)] obtain i' where i': "p i = Some (Inr (b, i'))"
      "bi_slice I i' = cs" "bi_Offset I i' = k" by blast
    with simE_err[OF assms(2)[of b] _ e, of i'] 2(2) show ?thesis by (simp add: pbind_def)
  qed
next
  fix i
  assume "pbind q g (bi_slice I i, bi_Offset I i) = None"
  then consider "q (bi_slice I i, bi_Offset I i) = None"
    | b cs k where "q (bi_slice I i, bi_Offset I i) = Some (Inr (b, cs, k))" "g b (cs, k) = None"
    by (auto simp: pbind_def split: option.splits sum.splits)
  then show "pbind p f i = None"
  proof cases
    case 1
    with simE_none[OF assms(1)] show ?thesis by (simp add: pbind_def)
  next
    case 2
    from simE_ok[OF assms(1) 2(1)] obtain i' where i': "p i = Some (Inr (b, i'))"
      "bi_slice I i' = cs" "bi_Offset I i' = k" by blast
    with simE_none[OF assms(2)[of b], of i'] 2(2) show ?thesis by (simp add: pbind_def)
  qed
qed

lemma sim_pwrap [sim_intros]:
  assumes "sim I p q"
  shows "sim I (pwrap msg p) (pwrap msg q)"
proof (rule simI)
  fix i a bs off
  assume "pwrap msg q (bi_slice I i, bi_Offset I i) = Some (Inr (a, bs, off))"
  then have "q (bi_slice I i, bi_Offset I i) = Some (Inr (a, bs, off))"
    by (auto simp: pwrap_def split: option.splits sum.splits)
  from simE_ok[OF assms this] show
    "\<exists>i'. pwrap msg p i = Some (Inr (a, i')) \<and> bi_slice I i' = bs \<and> bi_Offset I i' = off"
    by (auto simp: pwrap_def)
next
  fix i e
  assume "pwrap msg q (bi_slice I i, bi_Offset I i) = Some (Inl e)" "e \<noteq> Panic"
  then obtain e' where "q (bi_slice I i, bi_Offset I i) = Some (Inl e')" "e = wrapError msg e'" "e' \<noteq> Panic"
    by (auto simp: pwrap_def split: option.splits sum.splits)
  with simE_err[OF assms this(1)] show "pwrap msg p i = Some (Inl e)" by (simp add: pwrap_def)
next
  fix i
  assume "pwrap msg q (bi_slice I i, bi_Offset I i) = None"
  then have "q (bi_slice I i, bi_Offset I i) = None" by (auto simp: pwrap_def split: option.splits sum.splits)
  from simE_none[OF assms this] show "pwrap msg p i = None" by (simp add: pwrap_def)
qed

lemma sim_pinstead [sim_intros]: "sim I p q \<Longrightarrow> sim I (pinstead e p) (pinstead e q)"
  unfolding sim_def pinstead_def by (fastforce split: option.splits sum.splits)

lemma sim_pderef [sim_intros]: "(\<And>a. sim I (k a) (k' a)) \<Longrightarrow> sim I (pderef x k) (pderef x k')"
  by (cases x) (simp_all add: pderef_def sim_def)

lemma sim_pwhen [sim_intros]: "sim I p q \<Longrightarrow> sim I (pwhen c d p) (pwhen c d q)"
  by (simp add: pwhen_def sim_preturn)

lemma sim_psome [sim_intros]: "sim I p q \<Longrightarrow> sim I (psome p) (psome q)"
  unfolding psome_def by (intro sim_pbind sim_preturn)

lemma sim_if [sim_intros]: "sim I p q \<Longrightarrow> sim I p' q' \<Longrightarrow> sim I (if c then p else p') (if c then q else q')"
  by simp

lemma sim_let [sim_intros]: "(\<And>x. sim I (p x) (q x)) \<Longrightarrow> sim I (let x = t in p x) (let x = t in q x)"
  by simp

lemma sim_case_prod [sim_intros]:
  "(\<And>x y. sim I (p x y) (q x y)) \<Longrightarrow> sim I (case t of (x, y) \<Rightarrow> p x y) (case t of (x, y) \<Rightarrow> q x y)"
  by (simp split: prod.split)

lemma sim_case_option [sim_intros]:
  "sim I p q \<Longrightarrow> (\<And>x. sim I (p' x) (q' x)) \<Longrightarrow>
    sim I (case t of None \<Rightarrow> p | Some x \<Rightarrow> p' x) (case t of None \<Rightarrow> q | Some x \<Rightarrow> q' x)"
  by (simp split: option.split)

lemma turn_eq:
  "map_option (\<lambda>r. case r of Inl e \<Rightarrow> Return (Inl e) | Inr s \<Rightarrow> Continue s) x = Some (Continue s)
     \<longleftrightarrow> x = Some (Inr s)"
  "map_option (\<lambda>r. case r of Inl e \<Rightarrow> Return (Inl e) | Inr s \<Rightarrow> Continue s) x = Some (Return r)
     \<longleftrightarrow> (\<exists>e. x = Some (Inl e) \<and> r = Inl e)"
  by (cases x; auto split: sum.splits)+

text \<open>A loop of one iterator simulates the loop of the other when guard and body do.\<close>

definition sim_result :: "'i BytesIterator \<Rightarrow> (error + 'a \<times> 'i) option \<Rightarrow> error + 'a \<times> cursor \<Rightarrow> bool" where
  "sim_result I x r \<longleftrightarrow> (case r of
      Inl e \<Rightarrow> e = Panic \<or> x = Some (Inl e)
    | Inr (a, bs, off) \<Rightarrow> \<exists>i'. x = Some (Inr (a, i')) \<and> bi_slice I i' = bs \<and> bi_Offset I i' = off)"

lemma sim_iff: "sim I p q \<longleftrightarrow>
    (\<forall>i r. q (bi_slice I i, bi_Offset I i) = Some r \<longrightarrow> sim_result I (p i) r) \<and>
    (\<forall>i. q (bi_slice I i, bi_Offset I i) = None \<longrightarrow> p i = None)"
  unfolding sim_def sim_result_def by (rule iffI) (fastforce split: sum.splits)+

lemma sim_while_aux:
  assumes body: "\<And>a. sim I (b a) (b' a)"
    and guard: "\<And>a i. c a i = c' a (bi_slice I i, bi_Offset I i)"
    and loop: "goLoop (\<lambda>(a, i). if c' a i
        then map_option (\<lambda>r. case r of Inl e \<Rightarrow> Return (Inl e) | Inr s \<Rightarrow> Continue s) (b' a i)
        else Some (Return (Inr (a, i)))) s = Some r"
  shows "\<forall>i. snd s = (bi_slice I i, bi_Offset I i) \<longrightarrow> sim_result I (pwhile c b (fst s) i) r"
  using loop
proof (induction rule: goLoop_induct)
  case (Return s r)
  show ?case
  proof (intro allI impI)
    fix i assume t: "snd s = (bi_slice I i, bi_Offset I i)"
    show "sim_result I (pwhile c b (fst s) i) r"
    proof (cases "c' (fst s) (snd s)")
      case False
      with Return t show ?thesis
        by (auto simp: pwhile_unfold[of c b] guard split_beta sim_result_def)
    next
      case True
      with Return obtain e where e: "b' (fst s) (snd s) = Some (Inl e)" "r = Inl e"
        by (auto simp: turn_eq split_beta simp del: map_option_eq_Some)
      with True t simE_err[OF body[of "fst s"], of i e] show ?thesis
        by (cases "e = Panic") (auto simp: guard pwhile_unfold[of c b] pbind_def sim_result_def)
    qed
  qed
next
  case (Continue s s' r)
  show ?case
  proof (intro allI impI)
    fix i assume t: "snd s = (bi_slice I i, bi_Offset I i)"
    from Continue(1) have g: "c' (fst s) (snd s)" and b': "b' (fst s) (snd s) = Some (Inr s')"
      by (auto simp: turn_eq split_beta simp del: map_option_eq_Some split: if_splits)
    from simE_ok[OF body[of "fst s"], of i "fst s'" "fst (snd s')" "snd (snd s')"] b' t obtain i' where
      i': "b (fst s) i = Some (Inr (fst s', i'))" "snd s' = (bi_slice I i', bi_Offset I i')" by auto
    with g t have "pwhile c b (fst s) i = pwhile c b (fst s') i'"
      by (subst pwhile_unfold) (simp add: guard pbind_def)
    with Continue(2) i' show "sim_result I (pwhile c b (fst s) i) r" by auto
  qed
qed

text \<open>Conversely, where the loop of \<open>I\<close> returns, so does the other.\<close>

lemma sim_while_none:
  assumes body: "\<And>a. sim I (b a) (b' a)"
    and guard: "\<And>a i. c a i = c' a (bi_slice I i, bi_Offset I i)"
    and loop: "goLoop (\<lambda>(a, i). if c a i
        then map_option (\<lambda>r. case r of Inl e \<Rightarrow> Return (Inl e) | Inr s \<Rightarrow> Continue s) (b a i)
        else Some (Return (Inr (a, i)))) s = Some r"
  shows "pwhile c' b' (fst s) (bi_slice I (snd s), bi_Offset I (snd s)) \<noteq> None"
  using loop
proof (induction rule: goLoop_induct)
  case (Return s r)
  show ?case
  proof (cases "c (fst s) (snd s)")
    case True
    with Return obtain e where "b (fst s) (snd s) = Some (Inl e)"
      by (auto simp: turn_eq split_beta simp del: map_option_eq_Some)
    with simE_none[OF body, of "fst s" "snd s"] simE_ok[OF body, of "fst s" "snd s"]
    obtain e' where "b' (fst s) (bi_slice I (snd s), bi_Offset I (snd s)) = Some (Inl e')"
      by (cases "b' (fst s) (bi_slice I (snd s), bi_Offset I (snd s))") (auto split: sum.splits, metis obj_sumE surj_pair)
    with True show ?thesis by (subst pwhile_unfold) (simp add: guard[symmetric] pbind_def)
  qed (subst pwhile_unfold, simp add: guard[symmetric])
next
  case (Continue s s' r)
  let ?t = "(bi_slice I (snd s), bi_Offset I (snd s))"
  from Continue(1) have g: "c (fst s) (snd s)" and b: "b (fst s) (snd s) = Some (Inr s')"
    by (auto simp: turn_eq split_beta simp del: map_option_eq_Some split: if_splits)
  from b simE_none[OF body, of "fst s" "snd s"] obtain x where x: "b' (fst s) ?t = Some x" by fastforce
  show ?case
  proof (cases x)
    case (Inl e)
    with x g show ?thesis by (subst pwhile_unfold) (simp add: guard[symmetric] pbind_def)
  next
    case (Inr y)
    obtain a bs off where y: "y = (a, bs, off)" by (cases y) auto
    from simE_ok[OF body, of "fst s" "snd s" a bs off] x Inr y b Continue(2) g show ?thesis
      by (subst pwhile_unfold) (auto simp: guard[symmetric] pbind_def)
  qed
qed

lemma sim_pwhile [sim_intros]:
  assumes "\<And>a. sim I (b a) (b' a)" and "\<And>a i. c a i = c' a (bi_slice I i, bi_Offset I i)"
  shows "sim I (pwhile c b a) (pwhile c' b' a)"
  unfolding sim_iff
proof (intro conjI allI impI)
  fix i r assume "pwhile c' b' a (bi_slice I i, bi_Offset I i) = Some r"
  then show "sim_result I (pwhile c b a i) r"
    using sim_while_aux[of I b b' c c' "(a, _)", OF assms] unfolding pwhile_def[of c'] by fastforce
next
  fix i assume "pwhile c' b' a (bi_slice I i, bi_Offset I i) = None"
  then show "pwhile c b a i = None"
    using sim_while_none[of I b b' c c' "(a, i)", OF assms] unfolding pwhile_def[of c] by fastforce
qed

context bytes_iterator
begin

lemma sim_NextByte: "sim I (plift (bi_NextByte I)) (plift (bi_NextByte refIterator))"
proof (rule simI)
  fix i a bs off
  assume "plift (bi_NextByte refIterator) (bi_slice I i, bi_Offset I i) = Some (Inr (a, bs, off))"
  then show "\<exists>i'. plift (bi_NextByte I) i = Some (Inr (a, i')) \<and> bi_slice I i' = bs \<and> bi_Offset I i' = off"
    using NextByte_ok[of i] by (auto simp: plift_def Len split: if_splits)
next
  fix i e
  assume "plift (bi_NextByte refIterator) (bi_slice I i, bi_Offset I i) = Some (Inl e)" "e \<noteq> Panic"
  then show "plift (bi_NextByte I) i = Some (Inl e)"
    using NextByte_err[of i] by (auto simp: plift_def Len split: if_splits)
qed (simp_all add: plift_def)

lemma sim_NextBytes: "sim I (plift (bi_NextBytes I n)) (plift (bi_NextBytes refIterator n))"
proof (rule simI)
  fix i a bs off
  assume "plift (bi_NextBytes refIterator n) (bi_slice I i, bi_Offset I i) = Some (Inr (a, bs, off))"
  then show "\<exists>i'. plift (bi_NextBytes I n) i = Some (Inr (a, i')) \<and> bi_slice I i' = bs \<and> bi_Offset I i' = off"
    using NextBytes_ok[of i n] by (auto simp: plift_def Len split: if_splits)
next
  fix i e
  assume "plift (bi_NextBytes refIterator n) (bi_slice I i, bi_Offset I i) = Some (Inl e)" "e \<noteq> Panic"
  then show "plift (bi_NextBytes I n) i = Some (Inl e)"
    using NextBytes_err[of i n] by (auto simp: plift_def Len split: if_splits)
qed (simp_all add: plift_def)

lemma sim_NextBytesNoCopy: "sim I (plift (bi_NextBytesNoCopy I n)) (plift (bi_NextBytesNoCopy refIterator n))"
proof (rule simI)
  fix i a bs off
  assume "plift (bi_NextBytesNoCopy refIterator n) (bi_slice I i, bi_Offset I i) = Some (Inr (a, bs, off))"
  then show "\<exists>i'. plift (bi_NextBytesNoCopy I n) i = Some (Inr (a, i')) \<and> bi_slice I i' = bs \<and> bi_Offset I i' = off"
    using NextBytesNoCopy_ok[of i n] by (auto simp: plift_def Len split: if_splits)
next
  fix i e
  assume "plift (bi_NextBytesNoCopy refIterator n) (bi_slice I i, bi_Offset I i) = Some (Inl e)" "e \<noteq> Panic"
  then show "plift (bi_NextBytesNoCopy I n) i = Some (Inl e)"
    using NextBytesNoCopy_err[of i n] by (auto simp: plift_def Len split: if_splits)
qed (simp_all add: plift_def)

lemma sim_fetchByte: "sim I (fetchByte I) (fetchByte refIterator)"
  unfolding fetchByte_def by (intro sim_pwrap sim_NextByte)

lemma sim_fetchBytes: "sim I (fetchBytes I n) (fetchBytes refIterator n)"
  unfolding fetchBytes_def by (intro sim_pwrap sim_NextBytes)

lemma sim_fetchBytesNoCopy: "sim I (fetchBytesNoCopy I n) (fetchBytesNoCopy refIterator n)"
  unfolding fetchBytesNoCopy_def by (intro sim_pwrap sim_NextBytesNoCopy)

lemma sim_offset: "sim I (offset I) (offset refIterator)"
  by (simp add: sim_def offset_def pget_def)

lemma sim_seek: "sim I (seek I n) (seek refIterator n)"
  by (simp add: sim_def seek_def pmove_def Offset_Seek slice_Seek)

lemma sim_skip: "sim I (skip I n) (skip refIterator n)"
  by (simp add: sim_def skip_def pmove_def Offset_Skip slice_Skip)

lemma sim_Len: "sim I (pget (bi_Len I)) (pget (bi_Len refIterator))"
  by (simp add: sim_def pget_def Len)

lemma sim_dump: "sim I (dump I) (dump refIterator)"
proof (rule simI)
  fix i a bs off
  assume "dump refIterator (bi_slice I i, bi_Offset I i) = Some (Inr (a, bs, off))"
  then show "\<exists>i'. dump I i = Some (Inr (a, i')) \<and> bi_slice I i' = bs \<and> bi_Offset I i' = off"
    using Dump[of i] by (auto simp: dump_def plift_def Len split: if_splits)
qed (auto simp: dump_def plift_def split: if_splits)

lemmas sim_ops = sim_NextByte sim_NextBytes sim_NextBytesNoCopy sim_fetchByte sim_fetchBytes
  sim_fetchBytesNoCopy sim_offset sim_seek sim_skip sim_Len sim_dump

text \<open>What the reference iterator computes is what any iterator of the contract computes.\<close>

lemma parseBytes_diverges:
  assumes "sim I p q" and "parseBytes refIterator q bs = None"
  shows "parseBytes I p bs = None"
  using simE_none[OF assms(1), of "bi_New I bs"] assms(2)
  by (auto simp: parseBytes_def slice_New Offset_New split: option.splits sum.splits)

lemma parseBytes_transfer:
  assumes "sim I p q" and "parseBytes refIterator q bs = Some r" and "r \<noteq> Inl Panic"
  shows "parseBytes I p bs = Some r"
proof -
  let ?i = "bi_New I bs"
  have i: "bi_slice I ?i = bs" "bi_Offset I ?i = 0" by (simp_all add: slice_New Offset_New)
  show ?thesis
  proof (cases r)
    case (Inl e)
    with assms(2) have "q (bs, 0) = Some (Inl e)"
      by (auto simp: parseBytes_def split: option.splits sum.splits)
    with simE_err[OF assms(1), of ?i e] assms(3) Inl i show ?thesis by (simp add: parseBytes_def)
  next
    case (Inr a)
    with assms(2) obtain cs k where "q (bs, 0) = Some (Inr (a, cs, k))"
      by (auto simp: parseBytes_def split: option.splits sum.splits)
    with simE_ok[OF assms(1), of ?i a cs k] Inr i show ?thesis by (auto simp: parseBytes_def)
  qed
qed

end

end
