(* ===== verification/Parser_Reads.thy ===== *)
theory Parser_Reads
  imports Bytes_Iterator
begin

text \<open>
  What a parser consumes and returns on the reference iterator, as a relation with one rule per
  combinator; and the parsers that always return: without a panic, and never moving back.
\<close>

section \<open>What a parser reads\<close>

text \<open>
  \<open>stands bs off xs\<close>: the bytes \<open>xs\<close> stand at offset \<open>off\<close> of \<open>bs\<close>.
  \<open>reads p bs off xs a\<close>: where \<open>xs\<close> stand, \<open>p\<close> consumes them and returns \<open>a\<close>.
\<close>

definition stands :: "byte list \<Rightarrow> int \<Rightarrow> byte list \<Rightarrow> bool" where
  "stands bs off xs \<longleftrightarrow> (\<exists>pre post. bs = pre @ xs @ post \<and> off = int (length pre))"

definition reads :: "(cursor, 'a) parser \<Rightarrow> byte list \<Rightarrow> int \<Rightarrow> byte list \<Rightarrow> 'a \<Rightarrow> bool" where
  "reads p bs off xs a \<longleftrightarrow> (stands bs off xs \<longrightarrow> p (bs, off) = Some (Inr (a, (bs, off + int (length xs)))))"

named_theorems reads_intros "composition rules for what a parser reads"

lemma stands_append: "stands bs off (xs @ ys) \<longleftrightarrow> stands bs off xs \<and> stands bs (off + int (length xs)) ys"
proof
  assume "stands bs off (xs @ ys)"
  then obtain pre post where "bs = pre @ xs @ ys @ post" "off = int (length pre)" by (auto simp: stands_def)
  then have "bs = (pre @ xs) @ ys @ post" "off + int (length xs) = int (length (pre @ xs))" by simp_all
  with \<open>off = int (length pre)\<close> show "stands bs off xs \<and> stands bs (off + int (length xs)) ys"
    unfolding stands_def by (metis append.assoc)
next
  assume "stands bs off xs \<and> stands bs (off + int (length xs)) ys"
  then obtain pre post pre' post' where eq: "bs = pre @ xs @ post" "bs = pre' @ ys @ post'"
    and off: "off = int (length pre)" "off + int (length xs) = int (length pre')"
    unfolding stands_def by blast
  from off have "length (pre @ xs) = length pre'" by simp
  with eq have "post = ys @ post'" by (metis append.assoc append_eq_append_conv)
  with eq off show "stands bs off (xs @ ys)" by (auto simp: stands_def)
qed

lemma stands_whole: "stands bs 0 bs"
  unfolding stands_def by (rule exI[of _ "[]"]) simp

lemma stands_prefix: "stands (xs @ ys) 0 xs"
  unfolding stands_def by (rule exI[of _ "[]"]) simp

lemma reads_preturn [reads_intros]: "reads (preturn a) bs off [] a"
  by (simp add: reads_def preturn_def)

lemma reads_pbind [reads_intros]:
  assumes "reads p bs off xs a" and "reads (f a) bs (off + int (length xs)) ys b"
  shows "reads (pbind p f) bs off (xs @ ys) b"
  using assms by (simp add: reads_def pbind_def stands_append add.assoc)

lemma reads_pwrap [reads_intros]: "reads p bs off xs a \<Longrightarrow> reads (pwrap msg p) bs off xs a"
  by (simp add: reads_def pwrap_def)

lemma reads_pwhen [reads_intros]:
  "(c \<Longrightarrow> reads p bs off xs a) \<Longrightarrow> reads (pwhen c d p) bs off (if c then xs else []) (if c then a else d)"
  by (simp add: pwhen_def reads_preturn)

lemma reads_psome [reads_intros]: "reads p bs off xs a \<Longrightarrow> reads (psome p) bs off xs (Some a)"
  by (simp add: reads_def psome_def pbind_def preturn_def)

lemma reads_NextByte [reads_intros]: "reads (plift (bi_NextByte refIterator)) bs off [b] b"
  by (auto simp: reads_def plift_def stands_def nth_append)

lemma reads_NextBytes [reads_intros]:
  "n = int (length xs) \<Longrightarrow> reads (plift (bi_NextBytes refIterator n)) bs off xs xs"
  by (auto simp: reads_def plift_def stands_def)

lemma reads_NextBytesNoCopy [reads_intros]:
  "n = int (length xs) \<Longrightarrow> reads (plift (bi_NextBytesNoCopy refIterator n)) bs off xs xs"
  by (auto simp: reads_def plift_def stands_def)

lemma reads_fetchByte [reads_intros]: "reads (fetchByte refIterator) bs off [b] b"
  unfolding fetchByte_def by (intro reads_intros)

lemma reads_fetchBytes [reads_intros]:
  "n = int (length xs) \<Longrightarrow> reads (fetchBytes refIterator n) bs off xs xs"
  unfolding fetchBytes_def by (intro reads_intros)

lemma reads_fetchBytesNoCopy [reads_intros]:
  "n = int (length xs) \<Longrightarrow> reads (fetchBytesNoCopy refIterator n) bs off xs xs"
  unfolding fetchBytesNoCopy_def by (intro reads_intros)

lemma reads_offset [reads_intros]: "reads (offset refIterator) bs off [] off"
  by (simp add: reads_def offset_def pget_def)

lemma reads_offset_bind: "reads (f off) bs off xs a \<Longrightarrow> reads (pbind (offset refIterator) f) bs off xs a"
  by (simp add: reads_def pbind_def offset_def pget_def)

lemma reads_seek: "n = off \<Longrightarrow> reads (seek refIterator n) bs off [] ()"
  by (simp add: reads_def seek_def pmove_def)

lemma reads_Len [reads_intros]: "reads (pget (bi_Len refIterator)) bs off [] (int (length bs))"
  by (simp add: reads_def pget_def)

lemma reads_conv: "reads p bs off xs a \<Longrightarrow> xs = ys \<Longrightarrow> a = b \<Longrightarrow> reads p bs off ys b"
  by simp

text \<open>A fixed number of bytes, decoded.\<close>

lemma reads_fetch_return:
  assumes "int (length xs) = n" and "y = f xs"
  shows "reads (pbind (fetchBytesNoCopy refIterator n) (\<lambda>x. preturn (f x))) bs off xs y"
  using reads_fetchBytesNoCopy[of n xs bs off] assms by (auto simp: reads_def pbind_def preturn_def)

text \<open>\<^verbatim>\<open>for i.Offset() < end { \<dots> }\<close> over a run of items that ends at \<open>end\<close>.\<close>

lemma reads_pwhile:
  assumes item: "\<And>x off a. x \<in> set xs \<Longrightarrow> reads (body a) bs off (enc x) (acc x a)"
    and progress: "\<And>x. x \<in> set xs \<Longrightarrow> enc x \<noteq> []"
    and stop: "off + int (length (concat (map enc xs))) = stop"
  shows "reads (pwhile (\<lambda>_ i. bi_Offset refIterator i < stop) body a) bs off (concat (map enc xs)) (fold acc xs a)"
  using item progress stop
proof (induction xs arbitrary: off a)
  case Nil
  then show ?case by (simp add: reads_def pwhile_unfold)
next
  case (Cons x xs)
  let ?while = "pwhile (\<lambda>_ i. bi_Offset refIterator i < stop) body"
  have body: "reads (body a) bs off (enc x) (acc x a)" by (rule Cons.prems) simp
  have rest: "reads (?while (acc x a)) bs (off + int (length (enc x))) (concat (map enc xs)) (fold acc xs (acc x a))"
    using Cons.prems by (intro Cons.IH) (auto simp: add.assoc)
  have "off < stop" using Cons.prems(2)[of x] Cons.prems(3) by simp (metis add_pos_nonneg of_nat_0_le_iff of_nat_0_less_iff length_greater_0_conv less_add_same_cancel1)
  then have "?while a (bs, off) = pbind (body a) ?while (bs, off)"
    by (subst pwhile_unfold) simp
  with reads_pbind[of "body a" bs off "enc x" "acc x a" ?while, OF body rest] show ?case
    by (simp add: reads_def)
qed

lemma parseBytes_reads:
  assumes "reads p bs 0 bs a"
  shows "parseBytes refIterator p bs = Some (Inr a)"
  using assms by (simp add: reads_def stands_whole parseBytes_def)

text \<open>A parser that only reads a prefix: the trailing bytes are left alone.\<close>

lemma parseBytes_reads_prefix:
  assumes "reads p (xs @ ys) 0 xs a"
  shows "parseBytes refIterator p (xs @ ys) = Some (Inr a)"
  using assms by (simp add: reads_def stands_prefix parseBytes_def)

section \<open>Parsers that always return\<close>

text \<open>
  \<open>advances k p\<close>: from every offset of every slice \<open>p\<close> returns, it does not panic,
  and if it succeeds it has moved at least \<open>k\<close> bytes ahead.
\<close>

definition advances :: "int \<Rightarrow> (cursor, 'a) parser \<Rightarrow> bool" where
  "advances k p \<longleftrightarrow> (\<forall>bs off. 0 \<le> off \<longrightarrow>
     (\<exists>r. p (bs, off) = Some r \<and> r \<noteq> Inl Panic \<and> (\<forall>a cs off'. r = Inr (a, cs, off') \<longrightarrow> cs = bs \<and> off + k \<le> off')))"

named_theorems advances_intros "composition rules for parsers that always return"

lemma advancesE:
  assumes "advances k p" "0 \<le> off"
  obtains (Err) e where "p (bs, off) = Some (Inl e)" "e \<noteq> Panic"
    | (Ok) a off' where "p (bs, off) = Some (Inr (a, bs, off'))" "off + k \<le> off'"
proof -
  from assms obtain r where r: "p (bs, off) = Some r" "r \<noteq> Inl Panic"
    "\<And>a cs off'. r = Inr (a, cs, off') \<Longrightarrow> cs = bs \<and> off + k \<le> off'"
    unfolding advances_def by blast
  show ?thesis
  proof (cases r)
    case (Inl e)
    with r that(1) show ?thesis by auto
  next
    case (Inr x)
    with r that(2) show ?thesis by (cases x) auto
  qed
qed

lemma advancesI:
  assumes "\<And>bs off. 0 \<le> off \<Longrightarrow> (\<exists>e. p (bs, off) = Some (Inl e) \<and> e \<noteq> Panic) \<or>
    (\<exists>a off'. p (bs, off) = Some (Inr (a, bs, off')) \<and> off + k \<le> off')"
  shows "advances k p"
  unfolding advances_def
proof (intro allI impI)
  fix bs and off :: int assume "0 \<le> off"
  from assms[OF this, of bs] show "\<exists>r. p (bs, off) = Some r \<and> r \<noteq> Inl Panic \<and>
      (\<forall>a cs off'. r = Inr (a, cs, off') \<longrightarrow> cs = bs \<and> off + k \<le> off')"
    by (elim disjE exE conjE) auto
qed

lemma advances_mono: "advances k p \<Longrightarrow> j \<le> k \<Longrightarrow> advances j p"
  unfolding advances_def by (meson add_left_mono order_trans)

lemma advances_preturn [advances_intros]: "advances 0 (preturn a)"
  by (simp add: advances_def preturn_def)

lemma advances_pfail [advances_intros]: "e \<noteq> Panic \<Longrightarrow> advances k (pfail e)"
  by (simp add: advances_def pfail_def)

lemma advances_pbind:
  assumes "advances j p" "\<And>a. advances k (f a)" "0 \<le> j"
  shows "advances (j + k) (pbind p f)"
proof (rule advancesI)
  fix bs and off :: int assume "0 \<le> off"
  with assms(1) show "(\<exists>e. pbind p f (bs, off) = Some (Inl e) \<and> e \<noteq> Panic) \<or>
    (\<exists>a off'. pbind p f (bs, off) = Some (Inr (a, bs, off')) \<and> off + (j + k) \<le> off')"
  proof (cases rule: advancesE[where bs = bs])
    case Err
    then show ?thesis by (simp add: pbind_def)
  next
    case (Ok a off')
    with \<open>0 \<le> off\<close> assms(3) have "0 \<le> off'" by simp
    from assms(2)[of a] this show ?thesis
      by (cases rule: advancesE[where bs = bs]) (use Ok in \<open>auto simp: pbind_def\<close>)
  qed
qed

text \<open>The two rules for a sequence: nothing is known of its progress, or its first step makes some.\<close>

lemma advances_seq [advances_intros]:
  "advances 0 p \<Longrightarrow> (\<And>a. advances 0 (f a)) \<Longrightarrow> advances 0 (pbind p f)"
  using advances_pbind[of 0 p 0 f] by simp

lemma advances_first: "advances k p \<Longrightarrow> 0 \<le> k \<Longrightarrow> (\<And>a. advances 0 (f a)) \<Longrightarrow> advances k (pbind p f)"
  using advances_pbind[of k p 0 f] by simp

lemma advances_pwrap [advances_intros]:
  assumes "advances k p"
  shows "advances k (pwrap msg p)"
proof (rule advancesI)
  fix bs and off :: int assume "0 \<le> off"
  with assms show "(\<exists>e. pwrap msg p (bs, off) = Some (Inl e) \<and> e \<noteq> Panic) \<or>
    (\<exists>a off'. pwrap msg p (bs, off) = Some (Inr (a, bs, off')) \<and> off + k \<le> off')"
    by (cases rule: advancesE[where bs = bs]) (auto simp: pwrap_def)
qed

lemma advances_pwhen [advances_intros]: "(c \<Longrightarrow> advances 0 p) \<Longrightarrow> advances 0 (pwhen c d p)"
  by (simp add: pwhen_def advances_preturn)

lemma advances_psome [advances_intros]: "advances 0 p \<Longrightarrow> advances 0 (psome p)"
  unfolding psome_def by (intro advances_seq advances_preturn)

lemma advances_if [advances_intros]:
  "(c \<Longrightarrow> advances k p) \<Longrightarrow> (\<not> c \<Longrightarrow> advances k q) \<Longrightarrow> advances k (if c then p else q)"
  by simp

lemma advances_let [advances_intros]: "(\<And>x. x = t \<Longrightarrow> advances k (p x)) \<Longrightarrow> advances k (let x = t in p x)"
  by simp

lemma advances_case_prod [advances_intros]:
  "(\<And>x y. advances k (p x y)) \<Longrightarrow> advances k (case t of (x, y) \<Rightarrow> p x y)"
  by (simp split: prod.split)

lemma advances_NextByte1: "advances 1 (plift (bi_NextByte refIterator))"
  by (simp add: advances_def plift_def)

lemma advances_NextBytes: "0 \<le> n \<Longrightarrow> advances n (plift (bi_NextBytes refIterator n))"
  by (simp add: advances_def plift_def)

lemma advances_NextBytesNoCopy: "0 \<le> n \<Longrightarrow> advances n (plift (bi_NextBytesNoCopy refIterator n))"
  by (simp add: advances_def plift_def)

lemma advances_fetchByte1: "advances 1 (fetchByte refIterator)"
  unfolding fetchByte_def by (intro advances_pwrap advances_NextByte1)

lemma advances_fetchBytesNoCopy: "0 \<le> n \<Longrightarrow> advances n (fetchBytesNoCopy refIterator n)"
  unfolding fetchBytesNoCopy_def by (intro advances_pwrap advances_NextBytesNoCopy)

lemma advances_fetchBytes: "0 \<le> n \<Longrightarrow> advances n (fetchBytes refIterator n)"
  unfolding fetchBytes_def by (intro advances_pwrap advances_NextBytes)

lemma advances_fetches [advances_intros]:
  "advances 0 (fetchByte refIterator)"
  "0 \<le> n \<Longrightarrow> advances 0 (fetchBytes refIterator n)" "0 \<le> n \<Longrightarrow> advances 0 (fetchBytesNoCopy refIterator n)"
  by (auto intro: advances_mono[OF advances_fetchByte1] advances_mono[OF advances_fetchBytes]
      advances_mono[OF advances_fetchBytesNoCopy])

lemma advances_ops [advances_intros]:
  "advances 0 (offset refIterator)" "advances 0 (pget (bi_Len refIterator))"
  "advances 0 (dump refIterator)" "0 \<le> n \<Longrightarrow> advances 0 (skip refIterator n)"
  by (auto simp: advances_def offset_def pget_def dump_def plift_def skip_def pmove_def)

text \<open>A loop up to an offset returns when each turn moves ahead.\<close>

lemma advances_pwhile:
  assumes body: "\<And>a. advances 1 (body a)"
    and guard: "\<And>a bs off. c a (bs, off) \<Longrightarrow> off < stop"
  shows "advances 0 (pwhile c body a)"
proof (rule advancesI)
  fix bs and off :: int assume "0 \<le> off"
  then show "(\<exists>e. pwhile c body a (bs, off) = Some (Inl e) \<and> e \<noteq> Panic) \<or>
    (\<exists>a' off'. pwhile c body a (bs, off) = Some (Inr (a', bs, off')) \<and> off + 0 \<le> off')"
  proof (induction "nat (stop - off)" arbitrary: a off rule: less_induct)
    case less
    show ?case
    proof (cases "c a (bs, off)")
      case False
      then show ?thesis by (subst (1 2) pwhile_unfold) simp
    next
      case True
      from body[of a] less.prems show ?thesis
      proof (cases rule: advancesE[where bs = bs])
        case Err
        with True show ?thesis by (subst (1 2) pwhile_unfold) (simp add: pbind_def)
      next
        case (Ok a' off')
        with guard[OF True] have "nat (stop - off') < nat (stop - off)" by simp
        from less.hyps[OF this, of a'] Ok less.prems True show ?thesis
          by (subst (1 2) pwhile_unfold) (auto simp: pbind_def intro: order_trans)
      qed
    qed
  qed
qed

lemma advances_parseBytes:
  assumes "advances k p"
  shows "\<exists>r. parseBytes refIterator p bs = Some r \<and> r \<noteq> Inl Panic"
  by (rule advancesE[OF assms, of 0 bs]) (auto simp: parseBytes_def)

section \<open>Parsers that return from one offset\<close>

text \<open>
  \<open>goes bs off k p\<close>: from offset \<open>off\<close> of \<open>bs\<close>, \<open>p\<close> returns, does
  not panic, and if it succeeds it has moved at least \<open>k\<close> bytes ahead.
\<close>

definition goes :: "byte list \<Rightarrow> int \<Rightarrow> int \<Rightarrow> (cursor, 'a) parser \<Rightarrow> bool" where
  "goes bs off k p \<longleftrightarrow> (\<exists>e. p (bs, off) = Some (Inl e) \<and> e \<noteq> Panic) \<or>
     (\<exists>a off'. p (bs, off) = Some (Inr (a, bs, off')) \<and> off + k \<le> off')"

lemma goes_advances: "advances k p \<Longrightarrow> 0 \<le> off \<Longrightarrow> goes bs off k p"
  by (erule advancesE[where bs = bs and off = off]) (auto simp: goes_def)

lemma advances_goes: "(\<And>bs off. 0 \<le> off \<Longrightarrow> goes bs off k p) \<Longrightarrow> advances k p"
  by (rule advancesI) (simp add: goes_def)

lemma goes_pbind:
  assumes "goes bs off j p" and "\<And>a off'. p (bs, off) = Some (Inr (a, bs, off')) \<Longrightarrow> off + j \<le> off' \<Longrightarrow> goes bs off' (off + k - off') (f a)"
  shows "goes bs off k (pbind p f)"
  using assms(1) unfolding goes_def[of _ _ _ p]
proof (elim disjE exE conjE)
  fix e assume "p (bs, off) = Some (Inl e)" "e \<noteq> Panic"
  then show ?thesis by (simp add: goes_def pbind_def)
next
  fix a off' assume p: "p (bs, off) = Some (Inr (a, bs, off'))" "off + j \<le> off'"
  from assms(2)[OF this] p show ?thesis by (auto simp: goes_def pbind_def)
qed

lemma goes_weaken: "goes bs off k p \<Longrightarrow> j \<le> k \<Longrightarrow> goes bs off j p"
  by (fastforce simp: goes_def)

lemma goes_pwrap: "goes bs off k p \<Longrightarrow> goes bs off k (pwrap msg p)"
  by (auto simp: goes_def pwrap_def)

lemma goes_offset: "goes bs off k (f off) \<Longrightarrow> goes bs off k (pbind (offset refIterator) f)"
  by (simp add: goes_def pbind_def offset_def pget_def)

lemma goes_if: "(c \<Longrightarrow> goes bs off k p) \<Longrightarrow> (\<not> c \<Longrightarrow> goes bs off k q) \<Longrightarrow> goes bs off k (if c then p else q)"
  by simp

lemma goes_pwhile:
  assumes "\<And>a off'. off \<le> off' \<Longrightarrow> goes bs off' 1 (body a)"
    and "\<And>a off. c a (bs, off) \<Longrightarrow> off < stop"
  shows "goes bs off 0 (pwhile c body a)"
  using assms(1)
proof (induction "nat (stop - off)" arbitrary: a off rule: less_induct)
  case less
  show ?case
  proof (cases "c a (bs, off)")
    case False
    then have "pwhile c body a (bs, off) = Some (Inr (a, bs, off))" by (subst pwhile_unfold) simp
    then show ?thesis by (simp add: goes_def)
  next
    case True
    have "goes bs off 0 (pbind (body a) (pwhile c body))"
    proof (rule goes_pbind[OF less.prems[OF order_refl]])
      fix a' off' assume "off + 1 \<le> off'"
      with assms(2)[OF True] have "nat (stop - off') < nat (stop - off)" by simp
      then have "goes bs off' 0 (pwhile c body a')"
        by (rule less.hyps) (rule less.prems, use \<open>off + 1 \<le> off'\<close> in linarith)
      then show "goes bs off' (off + 0 - off') (pwhile c body a')"
        by (rule goes_weaken) (use \<open>off + 1 \<le> off'\<close> in simp)
    qed
    moreover have "pwhile c body a (bs, off) = pbind (body a) (pwhile c body) (bs, off)"
      by (subst pwhile_unfold) (simp add: True)
    ultimately show ?thesis by (simp add: goes_def)
  qed
qed

lemma goes_preturn: "k \<le> 0 \<Longrightarrow> goes bs off k (preturn a)"
  by (simp add: goes_def preturn_def)

end
