(* ===== verification/Bits_Writer.thy ===== *)
theory Bits_Writer
  imports Prelude
begin

text \<open>
  The writing half of the imported package astikit: \<^verbatim>\<open>BitsWriter\<close> and
  \<^verbatim>\<open>BitsWriterBatch\<close> are a parameter of every serialiser, a record of their
  methods over an abstract writer state. What the serialisers rely on is the locale
  \<open>bits_writer\<close>: bits are appended most significant first and leave for the underlying
  \<^verbatim>\<open>io.Writer\<close> in whole bytes. \<open>emits\<close> states what a serialiser writes.
\<close>

section \<open>The interface\<close>

text \<open>The dynamic types that \<^verbatim>\<open>Write(i interface{})\<close> accepts.\<close>

datatype arg = ABool bool | AU8 uint8 | AU16 uint16 | AU32 uint32 | AU64 uint64 | ABytes "byte list"

text \<open>The three write methods: \<^verbatim>\<open>Write\<close>, \<^verbatim>\<open>WriteN\<close>, \<^verbatim>\<open>WriteBytesN\<close>.\<close>

datatype wcmd = Wr arg | WrN arg nat | WrBytesN "byte list" nat byte

text \<open>
  \<open>'w\<close> is a bits writer together with the \<^verbatim>\<open>io.Writer\<close> it was made on;
  \<open>bw_New\<close> is one on an empty \<^verbatim>\<open>bytes.Buffer\<close>.
  \<open>bw_Bytes\<close>, \<open>bw_Reset\<close> and \<open>bw_Direct\<close> act on that \<^verbatim>\<open>io.Writer\<close>:
  what it has received, \<^verbatim>\<open>Reset()\<close> of a buffer, and a direct
  \<^verbatim>\<open>Write\<close> that bypasses the bits writer.
  A batch is seen through its \<^verbatim>\<open>Err()\<close>. The write callback is a closure over one
  \<^verbatim>\<open>uint32\<close> variable: \<open>bw_SetWriteCallback\<close> takes the closure and the
  variable's value, and \<open>bw_Captured\<close> reads the variable.
\<close>

record 'w BitsWriter =
  bw_New :: 'w
  bw_Write :: "wcmd \<Rightarrow> 'w \<Rightarrow> error option \<times> 'w"
  bw_BatchWrite :: "wcmd \<Rightarrow> error option \<Rightarrow> 'w \<Rightarrow> error option \<times> 'w"
  bw_SetWriteCallback :: "((uint32 \<Rightarrow> byte list \<Rightarrow> uint32) \<times> uint32) option \<Rightarrow> 'w \<Rightarrow> 'w"
  bw_Captured :: "'w \<Rightarrow> uint32"
  bw_Bytes :: "'w \<Rightarrow> byte list"
  bw_Reset :: "'w \<Rightarrow> 'w"
  bw_Direct :: "byte list \<Rightarrow> 'w \<Rightarrow> error option \<times> 'w"

section \<open>What a write appends\<close>

fun arg_bits :: "arg \<Rightarrow> bool list" where
  "arg_bits (ABool b) = [b]"
| "arg_bits (AU8 x) = bits_of 8 x"
| "arg_bits (AU16 x) = bits_of 16 x"
| "arg_bits (AU32 x) = bits_of 32 x"
| "arg_bits (AU64 x) = bits_of 64 x"
| "arg_bits (ABytes bs) = bytes_to_bits bs"

fun arg_bitsN :: "arg \<Rightarrow> nat \<Rightarrow> bool list" where
  "arg_bitsN (ABool b) n = bits_of n (of_bool b :: uint8)"
| "arg_bitsN (AU8 x) n = bits_of n x"
| "arg_bitsN (AU16 x) n = bits_of n x"
| "arg_bitsN (AU32 x) n = bits_of n x"
| "arg_bitsN (AU64 x) n = bits_of n x"
| "arg_bitsN (ABytes bs) n = take n (bytes_to_bits bs)"

fun wcmd_bits :: "wcmd \<Rightarrow> bool list" where
  "wcmd_bits (Wr a) = arg_bits a"
| "wcmd_bits (WrN a n) = arg_bitsN a n"
| "wcmd_bits (WrBytesN bs n pad) = bytes_to_bits (take n bs @ replicate (n - length bs) pad)"

text \<open>
  The view of a writer: the bytes its \<^verbatim>\<open>io.Writer\<close> holds, the bits that wait for a
  byte to be complete, and the callback with its variable.
\<close>

record wview =
  vw_bytes :: "byte list"
  vw_pending :: "bool list"
  vw_callback :: "((uint32 \<Rightarrow> byte list \<Rightarrow> uint32) \<times> uint32) option"

definition feed :: "bool list \<Rightarrow> wview \<Rightarrow> wview" where
  "feed xs v = \<lparr>
     vw_bytes = vw_bytes v @ bits_to_bytes (vw_pending v @ xs),
     vw_pending = bits_rest (vw_pending v @ xs),
     vw_callback = map_option (\<lambda>(f, c). (f, f c (bits_to_bytes (vw_pending v @ xs)))) (vw_callback v) \<rparr>"

text \<open>
  A callback may be called with the bytes in any division into slices, so the contract is stated
  for callbacks that do not depend on it.
\<close>

definition streaming :: "(uint32 \<Rightarrow> byte list \<Rightarrow> uint32) \<Rightarrow> bool" where
  "streaming f \<longleftrightarrow> (\<forall>c. f c [] = c) \<and> (\<forall>c xs ys. f c (xs @ ys) = f (f c xs) ys)"

definition wview_ok :: "wview \<Rightarrow> bool" where
  "wview_ok v \<longleftrightarrow> length (vw_pending v) < 8 \<and> (\<forall>f c. vw_callback v = Some (f, c) \<longrightarrow> streaming f)"

text \<open>
  The contract, for an \<^verbatim>\<open>io.Writer\<close> that accepts what it is given. It is stated for all commands, and
  used for those of the sources, which write booleans and byte slices whole and only numbers with a count of bits.
\<close>

locale bits_writer =
  fixes W :: "'w BitsWriter" and view :: "'w \<Rightarrow> wview"
  assumes view_New: "view (bw_New W) = \<lparr>vw_bytes = [], vw_pending = [], vw_callback = None\<rparr>"
    and Write: "wview_ok (view w) \<Longrightarrow>
      \<exists>w'. bw_Write W c w = (None, w') \<and> view w' = feed (wcmd_bits c) (view w)"
    and BatchWrite: "wview_ok (view w) \<Longrightarrow>
      \<exists>w'. bw_BatchWrite W c None w = (None, w') \<and> view w' = feed (wcmd_bits c) (view w)"
    and SetWriteCallback: "view (bw_SetWriteCallback W cb w) = (view w)\<lparr>vw_callback := cb\<rparr>"
    and Captured: "vw_callback (view w) = Some (f, x) \<Longrightarrow> bw_Captured W w = x"
    and Bytes: "bw_Bytes W w = vw_bytes (view w)"
    and Reset: "view (bw_Reset W w) = (view w)\<lparr>vw_bytes := []\<rparr>"
    and Direct: "\<exists>w'. bw_Direct W bs w = (None, w') \<and>
      view w' = (view w)\<lparr>vw_bytes := vw_bytes (view w) @ bs\<rparr>"

section \<open>Serialisers\<close>

text \<open>A serialiser changes the writer and returns a value or an error.\<close>

type_synonym ('w, 'e, 'a) writer = "'w \<Rightarrow> ('e + 'a) \<times> 'w"

definition wreturn :: "'a \<Rightarrow> ('w, 'e, 'a) writer" where
  "wreturn a = (\<lambda>w. (Inr a, w))"

definition wfail :: "'e \<Rightarrow> ('w, 'e, 'a) writer" where
  "wfail e = (\<lambda>w. (Inl e, w))"

definition wbind :: "('w, 'e, 'a) writer \<Rightarrow> ('a \<Rightarrow> ('w, 'e, 'b) writer) \<Rightarrow> ('w, 'e, 'b) writer" where
  "wbind m k = (\<lambda>w. case m w of (Inl e, w') \<Rightarrow> (Inl e, w') | (Inr a, w') \<Rightarrow> k a w')"

text \<open>A direct call \<^verbatim>\<open>w.Write(x)\<close>, whose error is returned at once.\<close>

definition wwrite :: "'w BitsWriter \<Rightarrow> wcmd \<Rightarrow> ('w, error, unit) writer" where
  "wwrite W c = (\<lambda>w. case bw_Write W c w of (None, w') \<Rightarrow> (Inr (), w') | (Some e, w') \<Rightarrow> (Inl e, w'))"

text \<open>
  A run of calls on a batch, \<^verbatim>\<open>b.Write(x); b.WriteN(y, n); \<dots>\<close>: the batch's
  \<^verbatim>\<open>Err()\<close> before and after is a value, and no call returns early.
\<close>

primrec batch :: "'w BitsWriter \<Rightarrow> wcmd list \<Rightarrow> error option \<Rightarrow> ('w, error, error option) writer" where
  "batch W [] b = wreturn b"
| "batch W (c # cs) b = (\<lambda>w. case bw_BatchWrite W c b w of (b', w') \<Rightarrow> batch W cs b' w')"

text \<open>\<^verbatim>\<open>return n, b.Err()\<close>\<close>

definition wdone :: "'a \<Rightarrow> error option \<Rightarrow> ('w, error, 'a) writer" where
  "wdone n b = (case b of None \<Rightarrow> wreturn n | Some e \<Rightarrow> wfail e)"

definition wwhen :: "bool \<Rightarrow> 'a \<Rightarrow> ('w, 'e, 'a) writer \<Rightarrow> ('w, 'e, 'a) writer" where
  "wwhen c d m = (if c then m else wreturn d)"

text \<open>An error returned with the count of bytes written so far.\<close>

definition wcount :: "'n \<Rightarrow> ('w, error, 'a) writer \<Rightarrow> ('w, 'n \<times> error, 'a) writer" where
  "wcount n m = (\<lambda>w. case m w of (Inl e, w') \<Rightarrow> (Inl (n, e), w') | (Inr a, w') \<Rightarrow> (Inr a, w'))"

text \<open>A dereference of a pointer: a panic when it is nil.\<close>

definition wderef :: "'a option \<Rightarrow> ('a \<Rightarrow> ('w, error, 'b) writer) \<Rightarrow> ('w, error, 'b) writer" where
  "wderef p k = (case p of None \<Rightarrow> wfail Panic | Some a \<Rightarrow> k a)"

text \<open>\<^verbatim>\<open>for _, x := range xs { body }\<close>\<close>

primrec wfor :: "'x list \<Rightarrow> ('x \<Rightarrow> 'a \<Rightarrow> ('w, 'e, 'a) writer) \<Rightarrow> 'a \<Rightarrow> ('w, 'e, 'a) writer" where
  "wfor [] body a = wreturn a"
| "wfor (x # xs) body a = wbind (body x a) (wfor xs body)"

lemmas writer_defs = wreturn_def wfail_def wbind_def wwrite_def wdone_def wwhen_def wcount_def wderef_def

text \<open>A serialiser run on a writer over a fresh buffer, and the buffer's content after it.\<close>

definition writeBytes :: "'w BitsWriter \<Rightarrow> ('w, 'e, 'a) writer \<Rightarrow> ('e + 'a) \<times> byte list" where
  "writeBytes W m = (case m (bw_New W) of (r, w) \<Rightarrow> (r, bw_Bytes W w))"

section \<open>Feeding bits\<close>

lemma streaming_append: "streaming f \<Longrightarrow> f c (xs @ ys) = f (f c xs) ys"
  by (simp add: streaming_def)

lemma streaming_Nil: "streaming f \<Longrightarrow> f c [] = c"
  by (simp add: streaming_def)

lemma feed_append:
  assumes "wview_ok v"
  shows "feed (xs @ ys) v = feed ys (feed xs v)"
proof -
  let ?p = "vw_pending v"
  have eqs: "bits_to_bytes (?p @ xs @ ys) = bits_to_bytes (?p @ xs) @ bits_to_bytes (bits_rest (?p @ xs) @ ys)"
      "bits_rest (?p @ xs @ ys) = bits_rest (bits_rest (?p @ xs) @ ys)"
    using bits_to_bytes_append[of "?p @ xs" ys] bits_rest_append[of "?p @ xs" ys] by simp_all
  show ?thesis
    using assms
    by (cases "vw_callback v") (auto simp: feed_def wview_ok_def eqs streaming_append)
qed

lemma wview_ok_feed [intro]: "wview_ok v \<Longrightarrow> wview_ok (feed xs v)"
  by (auto simp: wview_ok_def feed_def)

lemma feed_Nil: "wview_ok v \<Longrightarrow> feed [] v = v"
  by (cases v; cases "vw_callback v")
    (auto simp: feed_def wview_ok_def bits_rest_short streaming_Nil)

text \<open>Whole bytes on an aligned writer pass straight through.\<close>

lemma feed_bytes:
  "vw_pending v = [] \<Longrightarrow> length xs mod 8 = 0 \<Longrightarrow>
    feed xs v = v\<lparr>vw_bytes := vw_bytes v @ bits_to_bytes xs,
      vw_callback := map_option (\<lambda>(f, c). (f, f c (bits_to_bytes xs))) (vw_callback v)\<rparr>"
  by (cases v) (simp add: feed_def bits_rest_aligned)

section \<open>What a serialiser writes\<close>

text \<open>
  \<open>emits view m xs a\<close>: from any state, \<open>m\<close> succeeds with \<open>a\<close> and appends the
  bits \<open>xs\<close>.
\<close>

definition emits :: "('w \<Rightarrow> wview) \<Rightarrow> ('w, 'e, 'a) writer \<Rightarrow> bool list \<Rightarrow> 'a \<Rightarrow> bool" where
  "emits view m xs a \<longleftrightarrow> (\<forall>w. wview_ok (view w) \<longrightarrow>
     (\<exists>w'. m w = (Inr a, w') \<and> view w' = feed xs (view w)))"

named_theorems emits_intros "composition rules for serialisers"

lemma emits_wreturn [emits_intros]: "emits view (wreturn a) [] a"
  by (auto simp: emits_def wreturn_def feed_Nil)

lemma emits_wbind [emits_intros]:
  assumes "emits view m xs a" and "emits view (k a) ys b"
  shows "emits view (wbind m k) (xs @ ys) b"
  unfolding emits_def
proof (intro allI impI)
  fix w assume ok: "wview_ok (view w)"
  with assms(1) obtain w' where w': "m w = (Inr a, w')" "view w' = feed xs (view w)"
    by (auto simp: emits_def)
  with ok have "wview_ok (view w')" by auto
  with assms(2) obtain w'' where "k a w' = (Inr b, w'')" "view w'' = feed ys (view w')"
    by (auto simp: emits_def)
  with w' ok show "\<exists>w'. wbind m k w = (Inr b, w') \<and> view w' = feed (xs @ ys) (view w)"
    by (simp add: wbind_def feed_append)
qed

lemma emits_wdone [emits_intros]: "emits view (wdone a None) [] a"
  by (simp add: wdone_def emits_wreturn)

lemma emits_wwhen [emits_intros]:
  "(c \<Longrightarrow> emits view m xs a) \<Longrightarrow> emits view (wwhen c d m) (if c then xs else []) (if c then a else d)"
  by (simp add: wwhen_def emits_wreturn)

lemma emits_wderef [emits_intros]: "emits view (k x) xs a \<Longrightarrow> emits view (wderef (Some x) k) xs a"
  by (simp add: wderef_def)

lemma emits_wcount [emits_intros]: "emits view m xs a \<Longrightarrow> emits view (wcount n m) xs a"
  unfolding emits_def by (fastforce simp: wcount_def)

lemma emits_wfor:
  assumes "\<And>x a. x \<in> set xs \<Longrightarrow> emits view (body x a) (enc x) (acc x a)"
  shows "emits view (wfor xs body a) (concat (map enc xs)) (fold acc xs a)"
  using assms
proof (induction xs arbitrary: a)
  case Nil
  then show ?case by (simp add: emits_wreturn)
next
  case (Cons x xs)
  then have "emits view (body x a) (enc x) (acc x a)"
    and "emits view (wfor xs body (acc x a)) (concat (map enc xs)) (fold acc xs (acc x a))"
    by auto
  then show ?case by (simp add: emits_wbind)
qed

lemma emits_conv: "emits view m xs a \<Longrightarrow> xs = ys \<Longrightarrow> a = b \<Longrightarrow> emits view m ys b"
  by simp

text \<open>A loop that adds up the counts of its writes.\<close>

lemma fold_plus: "fold (\<lambda>x a. a + k x) xs a = a + (\<Sum>x\<leftarrow>xs. k x :: 'a::monoid_add)"
  by (induction xs arbitrary: a) (simp_all add: add.assoc)

lemma wfor_map: "wfor (map f xs) body = wfor xs (\<lambda>x. body (f x))"
  by (induction xs) (simp, rule ext, simp)

lemma emits_wfor_count:
  assumes "\<And>x. x \<in> set xs \<Longrightarrow> emits view (m x) (enc x) (k x)"
  shows "emits view (wfor xs (\<lambda>x a. wbind (m x) (\<lambda>n. wreturn (a + n))) a) (concat (map enc xs)) (a + (\<Sum>x\<leftarrow>xs. k x))"
proof -
  have "emits view (wbind (m x) (\<lambda>n. wreturn (b + n))) (enc x) (b + k x)" if "x \<in> set xs" for x b
    by (rule emits_conv, rule emits_wbind[OF assms[OF that]], rule emits_wreturn) simp_all
  from emits_wfor[of xs view _ enc "\<lambda>x b. b + k x" a, OF this] show ?thesis by (simp add: fold_plus)
qed

text \<open>
  \<open>emits_fail view m xs e\<close>: from any state, \<open>m\<close> appends the bits \<open>xs\<close> and
  then returns the error \<open>e\<close>.
\<close>

definition emits_fail :: "('w \<Rightarrow> wview) \<Rightarrow> ('w, 'e, 'a) writer \<Rightarrow> bool list \<Rightarrow> 'e \<Rightarrow> bool" where
  "emits_fail view m xs e \<longleftrightarrow> (\<forall>w. wview_ok (view w) \<longrightarrow>
     (\<exists>w'. m w = (Inl e, w') \<and> view w' = feed xs (view w)))"

lemma emits_fail_wfail: "emits_fail view (wfail e) [] e"
  by (auto simp: emits_fail_def wfail_def feed_Nil)

lemma emits_fail_here: "emits_fail view m xs e \<Longrightarrow> emits_fail view (wbind m k) xs e"
  unfolding emits_fail_def by (fastforce simp: wbind_def)

lemma emits_fail_wcount: "emits_fail view m xs e \<Longrightarrow> emits_fail view (wcount n m) xs (n, e)"
  unfolding emits_fail_def by (fastforce simp: wcount_def)

lemma emits_fail_wbind:
  assumes "emits view m xs a" and "emits_fail view (k a) ys e"
  shows "emits_fail view (wbind m k) (xs @ ys) e"
  unfolding emits_fail_def
proof (intro allI impI)
  fix w assume ok: "wview_ok (view w)"
  with assms(1) obtain w' where w': "m w = (Inr a, w')" "view w' = feed xs (view w)"
    by (auto simp: emits_def)
  with ok have "wview_ok (view w')" by auto
  with assms(2) obtain w'' where "k a w' = (Inl e, w'')" "view w'' = feed ys (view w')"
    by (auto simp: emits_fail_def)
  with w' ok show "\<exists>w'. wbind m k w = (Inl e, w') \<and> view w' = feed (xs @ ys) (view w)"
    by (simp add: wbind_def feed_append)
qed

context bits_writer
begin

lemma emits_wwrite: "emits view (wwrite W c) (wcmd_bits c) ()"
  unfolding emits_def
proof (intro allI impI)
  fix w assume "wview_ok (view w)"
  from Write[OF this, of c] show
    "\<exists>w'. wwrite W c w = (Inr (), w') \<and> view w' = feed (wcmd_bits c) (view w)"
    by (auto simp: wwrite_def)
qed

lemma emits_batch: "emits view (batch W cs None) (concat (map wcmd_bits cs)) None"
proof (induction cs)
  case Nil
  then show ?case by (simp add: emits_wreturn)
next
  case (Cons c cs)
  show ?case unfolding emits_def
  proof (intro allI impI)
    fix w assume ok: "wview_ok (view w)"
    from BatchWrite[OF ok, of c] obtain w' where
      w': "bw_BatchWrite W c None w = (None, w')" "view w' = feed (wcmd_bits c) (view w)" by auto
    with ok have "wview_ok (view w')" by auto
    with Cons obtain w'' where "batch W cs None w' = (Inr None, w'')"
      "view w'' = feed (concat (map wcmd_bits cs)) (view w')" by (auto simp: emits_def)
    with w' ok show "\<exists>w'. batch W (c # cs) None w = (Inr None, w') \<and>
        view w' = feed (concat (map wcmd_bits (c # cs))) (view w)"
      by (simp add: feed_append)
  qed
qed

lemma wview_ok_New: "wview_ok (view (bw_New W))"
  by (simp add: view_New wview_ok_def)

lemma writeBytes_emits:
  assumes "emits view m xs a"
  shows "writeBytes W m = (Inr a, bits_to_bytes xs)"
proof -
  from assms wview_ok_New obtain w where
    "m (bw_New W) = (Inr a, w)" "view w = feed xs (view (bw_New W))" by (auto simp: emits_def)
  then show ?thesis by (simp add: writeBytes_def Bytes view_New feed_def)
qed

lemma writeBytes_emits_fail:
  assumes "emits_fail view m xs e"
  shows "writeBytes W m = (Inl e, bits_to_bytes xs)"
proof -
  from assms wview_ok_New obtain w where
    "m (bw_New W) = (Inl e, w)" "view w = feed xs (view (bw_New W))" by (auto simp: emits_fail_def)
  then show ?thesis by (simp add: writeBytes_def Bytes view_New feed_def)
qed

end

section \<open>Writing from a clean writer\<close>

text \<open>
  Some serialisers start on a byte boundary and use the callback themselves: \<open>emits_clean\<close> is
  \<open>emits\<close> for writers that are aligned and have no callback.
\<close>

definition clean :: "wview \<Rightarrow> bool" where
  "clean v \<longleftrightarrow> vw_pending v = [] \<and> vw_callback v = None"

definition emits_clean :: "('w \<Rightarrow> wview) \<Rightarrow> ('w, 'e, 'a) writer \<Rightarrow> bool list \<Rightarrow> 'a \<Rightarrow> bool" where
  "emits_clean view m xs a \<longleftrightarrow> (\<forall>w. clean (view w) \<longrightarrow>
     (\<exists>w'. m w = (Inr a, w') \<and> view w' = feed xs (view w)))"

lemma clean_ok: "clean v \<Longrightarrow> wview_ok v"
  by (simp add: clean_def wview_ok_def)

lemma clean_feed: "clean v \<Longrightarrow> length xs mod 8 = 0 \<Longrightarrow> clean (feed xs v)"
  by (simp add: clean_def feed_def bits_rest_aligned)

lemma emits_clean_emits: "emits view m xs a \<Longrightarrow> emits_clean view m xs a"
  by (auto simp: emits_def emits_clean_def clean_ok)

lemma emits_clean_wreturn: "emits_clean view (wreturn a) [] a"
  by (rule emits_clean_emits[OF emits_wreturn])

lemma emits_clean_wbind:
  assumes "emits_clean view m xs a" and "length xs mod 8 = 0" and "emits_clean view (k a) ys b"
  shows "emits_clean view (wbind m k) (xs @ ys) b"
  unfolding emits_clean_def
proof (intro allI impI)
  fix w assume c: "clean (view w)"
  with assms(1) obtain w' where w': "m w = (Inr a, w')" "view w' = feed xs (view w)"
    by (auto simp: emits_clean_def)
  with c assms(2) have "clean (view w')" by (simp add: clean_feed)
  with assms(3) obtain w'' where "k a w' = (Inr b, w'')" "view w'' = feed ys (view w')"
    by (auto simp: emits_clean_def)
  with w' c show "\<exists>w'. wbind m k w = (Inr b, w') \<and> view w' = feed (xs @ ys) (view w)"
    by (simp add: wbind_def feed_append clean_ok)
qed

lemma emits_clean_conv: "emits_clean view m xs a \<Longrightarrow> xs = ys \<Longrightarrow> a = b \<Longrightarrow> emits_clean view m ys b"
  by simp

lemma emits_clean_wfor_count:
  assumes "\<And>x. x \<in> set xs \<Longrightarrow> emits_clean view (m x) (enc x) (k x)" and "\<And>x. x \<in> set xs \<Longrightarrow> length (enc x) mod 8 = 0"
  shows "emits_clean view (wfor xs (\<lambda>x a. wbind (m x) (\<lambda>n. wreturn (a + n))) a) (concat (map enc xs)) (a + (\<Sum>x\<leftarrow>xs. k x :: int))"
  using assms
proof (induction xs arbitrary: a)
  case Nil
  then show ?case by (simp add: emits_clean_wreturn)
next
  case (Cons x xs)
  then have x: "emits_clean view (m x) (enc x) (k x)" "length (enc x) mod 8 = 0" by auto
  have "emits_clean view (wbind (m x) (\<lambda>n. wreturn (a + n))) (enc x @ []) (a + k x)"
    by (rule emits_clean_wbind[OF x]) (rule emits_clean_wreturn)
  moreover have "emits_clean view (wfor xs (\<lambda>x a. wbind (m x) (\<lambda>n. wreturn (a + n))) (a + k x))
      (concat (map enc xs)) (a + k x + (\<Sum>x\<leftarrow>xs. k x))"
    using Cons by auto
  ultimately show ?case using x(2) emits_clean_wbind by (fastforce simp: add.assoc)
qed

context bits_writer
begin

lemma clean_New: "clean (view (bw_New W))"
  by (simp add: view_New clean_def)

lemma writeBytes_emits_clean:
  assumes "emits_clean view m xs a"
  shows "writeBytes W m = (Inr a, bits_to_bytes xs)"
proof -
  from assms clean_New obtain w where
    "m (bw_New W) = (Inr a, w)" "view w = feed xs (view (bw_New W))" by (auto simp: emits_clean_def)
  then show ?thesis by (simp add: writeBytes_def Bytes view_New feed_def)
qed

end


section \<open>The reference writer\<close>

text \<open>A writer that is its own view.\<close>

definition refWriter :: "wview BitsWriter" where
  "refWriter = \<lparr>
     bw_New = \<lparr>vw_bytes = [], vw_pending = [], vw_callback = None\<rparr>,
     bw_Write = (\<lambda>c v. (None, feed (wcmd_bits c) v)),
     bw_BatchWrite = (\<lambda>c b v. case b of None \<Rightarrow> (None, feed (wcmd_bits c) v) | Some e \<Rightarrow> (Some e, v)),
     bw_SetWriteCallback = (\<lambda>cb v. v\<lparr>vw_callback := cb\<rparr>),
     bw_Captured = (\<lambda>v. case vw_callback v of None \<Rightarrow> 0 | Some (f, c) \<Rightarrow> c),
     bw_Bytes = vw_bytes,
     bw_Reset = (\<lambda>v. v\<lparr>vw_bytes := []\<rparr>),
     bw_Direct = (\<lambda>bs v. (None, v\<lparr>vw_bytes := vw_bytes v @ bs\<rparr>)) \<rparr>"

interpretation ref_writer: bits_writer refWriter "\<lambda>v. v"
  by unfold_locales (simp_all add: refWriter_def)

end
