(* ===== verification/Codec.thy ===== *)
theory Codec
  imports Parser_Transfer Parser_Reads Bits_Writer
begin

text \<open>
  The imported package as a whole: an iterator and a writer, both meeting their contracts. A
  format that is emitted and read back gives a round trip through any such pair.
\<close>

locale astikit = bytes_iterator I + bits_writer W view
  for I :: "'i BytesIterator" and W :: "'w BitsWriter" and view :: "'w \<Rightarrow> wview"
begin

lemma codec_roundtrip:
  assumes "emits view m xs n" and "sim I p q"
    and "reads q (bits_to_bytes xs) 0 (bits_to_bytes xs) a"
  shows "writeBytes W m = (Inr n, bits_to_bytes xs) \<and> parseBytes I p (bits_to_bytes xs) = Some (Inr a)"
  using writeBytes_emits[OF assms(1)] parseBytes_transfer[OF assms(2) parseBytes_reads[OF assms(3)]] by simp

end

text \<open>A parser that always returns does so on every iterator of the contract.\<close>

context bytes_iterator
begin

lemma parseBytes_returns:
  assumes "sim I p q" and "advances k q"
  shows "\<exists>r. parseBytes I p bs = Some r \<and> r \<noteq> Inl Panic"
  using advances_parseBytes[OF assms(2), of bs] parseBytes_transfer[OF assms(1)] by blast

end

interpretation ref_astikit: astikit refIterator refWriter "\<lambda>v. v"
  by unfold_locales

end
