(* ===== verification/Dvb.thy ===== *)
theory Dvb
  imports Go_Time Codec
begin

text \<open>
  \<^verbatim>\<open>dvb.go\<close>: DVB times (a modified Julian date and a time of day in binary coded
  decimals) and durations. Instants and durations are counted in nanoseconds.
\<close>

section \<open>Parsing\<close>

text \<open>\<^verbatim>\<open>uint8\<close> arithmetic, converted afterwards.\<close>

definition parseDVBDurationByte :: "byte \<Rightarrow> int" where
  "parseDVBDurationByte i = uint (drop_bit 4 i * 10 + (i AND 0xf))"

definition parseDVBDurationMinutes :: "'i BytesIterator \<Rightarrow> ('i, int) parser" where
  "parseDVBDurationMinutes I =
     pbind (fetchBytesNoCopy I 2) (\<lambda>bs.
     preturn (parseDVBDurationByte (bs ! 0) * nsHour + parseDVBDurationByte (bs ! 1) * nsMinute))"

definition parseDVBDurationSeconds :: "'i BytesIterator \<Rightarrow> ('i, int) parser" where
  "parseDVBDurationSeconds I =
     pbind (fetchBytesNoCopy I 3) (\<lambda>bs.
     preturn (parseDVBDurationByte (bs ! 0) * nsHour + parseDVBDurationByte (bs ! 1) * nsMinute
       + parseDVBDurationByte (bs ! 2) * nsSecond))"

text \<open>The date arithmetic of \<^verbatim>\<open>parseDVBTime\<close>: years since 1900, month and day.\<close>

definition mjdDate :: "uint16 \<Rightarrow> int \<times> int \<times> int" where
  "mjdDate mjd =
     (let m0 = of_int (uint mjd);
          yt = trunc (fl64 (fl64 (m0 - fl64 (150782 / 10)) / (36525 / 100)));
          yd = of_int (trunc (fl64 (of_int yt * (36525 / 100))));
          mt = trunc (fl64 (fl64 (fl64 (m0 - fl64 (149561 / 10)) - yd) / fl64 (306001 / 10000)));
          d = trunc (fl64 (fl64 (fl64 (m0 - 14956) - yd) - of_int (trunc (fl64 (of_int mt * fl64 (306001 / 10000))))));
          k = (if mt = 14 \<or> mt = 15 then 1 else 0)
      in (yt + k, mt - 1 - k * 12, d))"

text \<open>An error of \<^verbatim>\<open>time.Parse\<close> is ignored: the zero time is day 0.\<close>

definition mjdDay :: "uint16 \<Rightarrow> int" where
  "mjdDay mjd = (case mjdDate mjd of (y, m, d) \<Rightarrow>
     case timeParse060102 (show_int y @ ''-'' @ show_int m @ ''-'' @ show_int d) of None \<Rightarrow> 0 | Some n \<Rightarrow> n)"

definition parseDVBTime :: "'i BytesIterator \<Rightarrow> ('i, int) parser" where
  "parseDVBTime I =
     pbind (fetchBytesNoCopy I 2) (\<lambda>bs.
     let t = mjdDay (push_bit 8 (ucast (bs ! 0)) OR ucast (bs ! 1)) * nsDay in
     pbind (pwrap ''astits: parsing DVB duration seconds failed: '' (parseDVBDurationSeconds I)) (\<lambda>s.
     preturn (t + s)))"

section \<open>Writing\<close>

definition dvbDurationByteRepresentation :: "uint8 \<Rightarrow> uint8" where
  "dvbDurationByteRepresentation n = push_bit 4 (n div 10) OR n mod 10"

text \<open>The two-digit fields of a duration; the conversion to \<^verbatim>\<open>uint8\<close> keeps the low byte.\<close>

definition durationHours :: "int \<Rightarrow> uint8" where
  "durationHours d = word_of_int (trunc (duration_in nsHour d))"

definition durationMinutes :: "int \<Rightarrow> uint8" where
  "durationMinutes d = word_of_int (trunc (duration_in nsMinute d) smod 60)"

definition durationSeconds :: "int \<Rightarrow> uint8" where
  "durationSeconds d = word_of_int (trunc (duration_in nsSecond d) smod 60)"

definition writeDVBDurationMinutes :: "'w BitsWriter \<Rightarrow> int \<Rightarrow> ('w, error, int) writer" where
  "writeDVBDurationMinutes W d =
     wbind (batch W
       [Wr (AU8 (dvbDurationByteRepresentation (durationHours d))),
        Wr (AU8 (dvbDurationByteRepresentation (durationMinutes d)))] None) (\<lambda>b.
     wdone 2 b)"

definition writeDVBDurationSeconds :: "'w BitsWriter \<Rightarrow> int \<Rightarrow> ('w, error, int) writer" where
  "writeDVBDurationSeconds W d =
     wbind (batch W
       [Wr (AU8 (dvbDurationByteRepresentation (durationHours d))),
        Wr (AU8 (dvbDurationByteRepresentation (durationMinutes d))),
        Wr (AU8 (dvbDurationByteRepresentation (durationSeconds d)))] None) (\<lambda>b.
     wdone 3 b)"

text \<open>The modified Julian date that \<^verbatim>\<open>writeDVBTime\<close> computes, for an instant in UTC.\<close>

definition mjdOf :: "int \<Rightarrow> int" where
  "mjdOf t =
     (case civil (t div nsDay) of (y, month, day) \<Rightarrow>
      let year = y - 1900; l = (if month \<le> 2 then 1 else 0) in
      14956 + day + trunc (fl64 (of_int (year - l) * (36525 / 100)))
        + trunc (fl64 (of_int (month + 1 + l * 12) * fl64 (306001 / 10000))))"

text \<open>An error of the time of day is returned with the count 2, the date having been written.\<close>

definition writeDVBTime :: "'w BitsWriter \<Rightarrow> int \<Rightarrow> ('w, int \<times> error, int) writer" where
  "writeDVBTime W t =
     wbind (wcount 0 (batch W [Wr (AU16 (word_of_int (mjdOf t)))] None)) (\<lambda>b.
     wbind (wcount 2 (writeDVBDurationSeconds W (t mod nsDay))) (\<lambda>n.
     wcount (n + 2) (wdone (n + 2) b)))"

end
