(* ===== verification/Descriptor.thy ===== *)
theory Descriptor
  imports Dvb
begin

text \<open>
  \<^verbatim>\<open>descriptor.go\<close>, first half: the descriptors of tables, one record per type, and
  \<^verbatim>\<open>parseDescriptors\<close>. An item slice is a list of records: the parsers and the callers
  put no nil pointers into it.
\<close>

section \<open>Tags\<close>

definition DescriptorTagAC3 :: uint8 where "DescriptorTagAC3 = 0x6a"
definition DescriptorTagAVCVideo :: uint8 where "DescriptorTagAVCVideo = 0x28"
definition DescriptorTagComponent :: uint8 where "DescriptorTagComponent = 0x50"
definition DescriptorTagContent :: uint8 where "DescriptorTagContent = 0x54"
definition DescriptorTagDataStreamAlignment :: uint8 where "DescriptorTagDataStreamAlignment = 0x6"
definition DescriptorTagEnhancedAC3 :: uint8 where "DescriptorTagEnhancedAC3 = 0x7a"
definition DescriptorTagExtendedEvent :: uint8 where "DescriptorTagExtendedEvent = 0x4e"
definition DescriptorTagExtension :: uint8 where "DescriptorTagExtension = 0x7f"
definition DescriptorTagISO639LanguageAndAudioType :: uint8 where "DescriptorTagISO639LanguageAndAudioType = 0xa"
definition DescriptorTagLocalTimeOffset :: uint8 where "DescriptorTagLocalTimeOffset = 0x58"
definition DescriptorTagMaximumBitrate :: uint8 where "DescriptorTagMaximumBitrate = 0xe"
definition DescriptorTagNetworkName :: uint8 where "DescriptorTagNetworkName = 0x40"
definition DescriptorTagParentalRating :: uint8 where "DescriptorTagParentalRating = 0x55"
definition DescriptorTagPrivateDataIndicator :: uint8 where "DescriptorTagPrivateDataIndicator = 0xf"
definition DescriptorTagPrivateDataSpecifier :: uint8 where "DescriptorTagPrivateDataSpecifier = 0x5f"
definition DescriptorTagRegistration :: uint8 where "DescriptorTagRegistration = 0x5"
definition DescriptorTagService :: uint8 where "DescriptorTagService = 0x48"
definition DescriptorTagShortEvent :: uint8 where "DescriptorTagShortEvent = 0x4d"
definition DescriptorTagStreamIdentifier :: uint8 where "DescriptorTagStreamIdentifier = 0x52"
definition DescriptorTagSubtitling :: uint8 where "DescriptorTagSubtitling = 0x59"
definition DescriptorTagTeletext :: uint8 where "DescriptorTagTeletext = 0x56"
definition DescriptorTagVBIData :: uint8 where "DescriptorTagVBIData = 0x45"
definition DescriptorTagVBITeletext :: uint8 where "DescriptorTagVBITeletext = 0x46"
definition DescriptorTagExtensionSupplementaryAudio :: uint8 where "DescriptorTagExtensionSupplementaryAudio = 0x6"

text \<open>The data services whose VBI descriptors have one byte per line.\<close>

definition isVBILineService :: "uint8 \<Rightarrow> bool" where
  "isVBILineService dataServiceID \<longleftrightarrow>
     dataServiceID = 0x6 \<or> dataServiceID = 0x1 \<or> dataServiceID = 0x2 \<or>
     dataServiceID = 0x7 \<or> dataServiceID = 0x4 \<or> dataServiceID = 0x5"

section \<open>Data\<close>

record DescriptorAC3 =
  ac3_AdditionalInfo :: "byte list"
  ac3_ASVC :: uint8
  ac3_BSID :: uint8
  ac3_ComponentType :: uint8
  ac3_HasASVC :: bool
  ac3_HasBSID :: bool
  ac3_HasComponentType :: bool
  ac3_HasMainID :: bool
  ac3_MainID :: uint8

record DescriptorAVCVideo =
  avc_AVC24HourPictureFlag :: bool
  avc_AVCStillPresent :: bool
  avc_CompatibleFlags :: uint8
  avc_ConstraintSet0Flag :: bool
  avc_ConstraintSet1Flag :: bool
  avc_ConstraintSet2Flag :: bool
  avc_LevelIDC :: uint8
  avc_ProfileIDC :: uint8

record DescriptorComponent =
  cmp_ComponentTag :: uint8
  cmp_ComponentType :: uint8
  cmp_ISO639LanguageCode :: "byte list"
  cmp_StreamContent :: uint8
  cmp_StreamContentExt :: uint8
  cmp_Text :: "byte list"

record DescriptorContentItem =
  ci_ContentNibbleLevel1 :: uint8
  ci_ContentNibbleLevel2 :: uint8
  ci_UserByte :: uint8

record DescriptorEnhancedAC3 =
  eac3_AdditionalInfo :: "byte list"
  eac3_ASVC :: uint8
  eac3_BSID :: uint8
  eac3_ComponentType :: uint8
  eac3_HasASVC :: bool
  eac3_HasBSID :: bool
  eac3_HasComponentType :: bool
  eac3_HasMainID :: bool
  eac3_HasSubStream1 :: bool
  eac3_HasSubStream2 :: bool
  eac3_HasSubStream3 :: bool
  eac3_MainID :: uint8
  eac3_MixInfoExists :: bool
  eac3_SubStream1 :: uint8
  eac3_SubStream2 :: uint8
  eac3_SubStream3 :: uint8

record DescriptorExtendedEventItem =
  eei_Content :: "byte list"
  eei_Description :: "byte list"

record DescriptorExtendedEvent =
  ee_ISO639LanguageCode :: "byte list"
  ee_Items :: "DescriptorExtendedEventItem list"
  ee_LastDescriptorNumber :: uint8
  ee_Number :: uint8
  ee_Text :: "byte list"

record DescriptorExtensionSupplementaryAudio =
  sa_EditorialClassification :: uint8
  sa_HasLanguageCode :: bool
  sa_LanguageCode :: "byte list"
  sa_MixType :: bool
  sa_PrivateData :: "byte list"

record DescriptorExtension =
  ext_SupplementaryAudio :: "DescriptorExtensionSupplementaryAudio option"
  ext_Tag :: uint8
  ext_Unknown :: "byte list option"

record DescriptorISO639LanguageAndAudioType =
  iso_Language :: "byte list"
  iso_Type :: uint8

record DescriptorLocalTimeOffsetItem =
  lto_CountryCode :: "byte list"
  lto_CountryRegionID :: uint8
  lto_LocalTimeOffset :: int
  lto_LocalTimeOffsetPolarity :: bool
  lto_NextTimeOffset :: int
  lto_TimeOfChange :: int

record DescriptorParentalRatingItem =
  pr_CountryCode :: "byte list"
  pr_Rating :: uint8

record DescriptorRegistration =
  reg_AdditionalIdentificationInfo :: "byte list"
  reg_FormatIdentifier :: uint32

record DescriptorService =
  srv_Name :: "byte list"
  srv_Provider :: "byte list"
  srv_Type :: uint8

record DescriptorShortEvent =
  se_EventName :: "byte list"
  se_Language :: "byte list"
  se_Text :: "byte list"

record DescriptorSubtitlingItem =
  sub_AncillaryPageID :: uint16
  sub_CompositionPageID :: uint16
  sub_Language :: "byte list"
  sub_Type :: uint8

record DescriptorTeletextItem =
  ttx_Language :: "byte list"
  ttx_Magazine :: uint8
  ttx_Page :: uint8
  ttx_Type :: uint8

record DescriptorUnknown =
  unk_Content :: "byte list"
  unk_Tag :: uint8

record DescriptorVBIDataDescriptor =
  vbi_FieldParity :: bool
  vbi_LineOffset :: uint8

record DescriptorVBIDataService =
  vbi_DataServiceID :: uint8
  vbi_Descriptors :: "DescriptorVBIDataDescriptor list"

text \<open>
  The structs with a single field (\<^verbatim>\<open>DescriptorContent\<close>, \<^verbatim>\<open>DescriptorMaximumBitrate\<close>, \<dots>) are
  represented by that field.
\<close>

record Descriptor =
  dsc_AC3 :: "DescriptorAC3 option"
  dsc_AVCVideo :: "DescriptorAVCVideo option"
  dsc_Component :: "DescriptorComponent option"
  dsc_Content :: "DescriptorContentItem list option"
  dsc_DataStreamAlignment :: "uint8 option"
  dsc_EnhancedAC3 :: "DescriptorEnhancedAC3 option"
  dsc_ExtendedEvent :: "DescriptorExtendedEvent option"
  dsc_Extension :: "DescriptorExtension option"
  dsc_ISO639LanguageAndAudioType :: "DescriptorISO639LanguageAndAudioType option"
  dsc_Length :: uint8
  dsc_LocalTimeOffset :: "DescriptorLocalTimeOffsetItem list option"
  dsc_MaximumBitrate :: "uint32 option"
  dsc_NetworkName :: "byte list option"
  dsc_ParentalRating :: "DescriptorParentalRatingItem list option"
  dsc_PrivateDataIndicator :: "uint32 option"
  dsc_PrivateDataSpecifier :: "uint32 option"
  dsc_Registration :: "DescriptorRegistration option"
  dsc_Service :: "DescriptorService option"
  dsc_ShortEvent :: "DescriptorShortEvent option"
  dsc_StreamIdentifier :: "uint8 option"
  dsc_Subtitling :: "DescriptorSubtitlingItem list option"
  dsc_Tag :: uint8
  dsc_Teletext :: "DescriptorTeletextItem list option"
  dsc_Unknown :: "DescriptorUnknown option"
  dsc_UserDefined :: "byte list"
  dsc_VBIData :: "DescriptorVBIDataService list option"
  dsc_VBITeletext :: "DescriptorTeletextItem list option"

definition newDescriptor :: "uint8 \<Rightarrow> uint8 \<Rightarrow> Descriptor" where
  "newDescriptor tag len = \<lparr>
     dsc_AC3 = None, dsc_AVCVideo = None, dsc_Component = None, dsc_Content = None,
     dsc_DataStreamAlignment = None, dsc_EnhancedAC3 = None, dsc_ExtendedEvent = None, dsc_Extension = None,
     dsc_ISO639LanguageAndAudioType = None, dsc_Length = len, dsc_LocalTimeOffset = None,
     dsc_MaximumBitrate = None, dsc_NetworkName = None, dsc_ParentalRating = None,
     dsc_PrivateDataIndicator = None, dsc_PrivateDataSpecifier = None, dsc_Registration = None,
     dsc_Service = None, dsc_ShortEvent = None, dsc_StreamIdentifier = None, dsc_Subtitling = None,
     dsc_Tag = tag, dsc_Teletext = None, dsc_Unknown = None, dsc_UserDefined = [], dsc_VBIData = None,
     dsc_VBITeletext = None\<rparr>"

definition MinimumAge :: "DescriptorParentalRatingItem \<Rightarrow> int" where
  "MinimumAge d = (if pr_Rating d = 0 \<or> pr_Rating d > 0x10 then 0 else uint (pr_Rating d) + 3)"

section \<open>Parsing\<close>

text \<open>\<^verbatim>\<open>if i.Offset() < offsetEnd { x, err = i.NextBytes(offsetEnd - i.Offset()) }\<close>\<close>

definition fetchRest :: "'i BytesIterator \<Rightarrow> int \<Rightarrow> ('i, byte list) parser" where
  "fetchRest I offsetEnd = pbind (offset I) (\<lambda>o'. pwhen (o' < offsetEnd) [] (fetchBytes I (offsetEnd - o')))"

text \<open>\<^verbatim>\<open>i.NextBytes(offsetEnd - i.Offset())\<close>\<close>

definition fetchTo :: "'i BytesIterator \<Rightarrow> int \<Rightarrow> ('i, byte list) parser" where
  "fetchTo I offsetEnd = pbind (offset I) (\<lambda>o'. fetchBytes I (offsetEnd - o'))"

text \<open>A length byte and as many bytes.\<close>

definition fetchCounted :: "'i BytesIterator \<Rightarrow> ('i, byte list) parser" where
  "fetchCounted I = pbind (fetchByte I) (\<lambda>b. fetchBytes I (uint b))"

definition fetchUint16 :: "'i BytesIterator \<Rightarrow> ('i, uint16) parser" where
  "fetchUint16 I = pbind (fetchBytesNoCopy I 2) (\<lambda>bs. preturn (push_bit 8 (ucast (bs ! 0)) OR ucast (bs ! 1)))"

definition fetchUint32 :: "'i BytesIterator \<Rightarrow> ('i, uint32) parser" where
  "fetchUint32 I = pbind (fetchBytesNoCopy I 4) (\<lambda>bs.
     preturn (push_bit 24 (ucast (bs ! 0)) OR push_bit 16 (ucast (bs ! 1)) OR push_bit 8 (ucast (bs ! 2)) OR ucast (bs ! 3)))"

text \<open>\<^verbatim>\<open>for i.Offset() < offsetEnd { \<dots> append }\<close>\<close>

definition parseItems :: "'i BytesIterator \<Rightarrow> int \<Rightarrow> ('i, 'a) parser \<Rightarrow> ('i, 'a list) parser" where
  "parseItems I offsetEnd p =
     pwhile (\<lambda>_ i. bi_Offset I i < offsetEnd) (\<lambda>xs. pbind p (\<lambda>x. preturn (xs @ [x]))) []"

definition newDescriptorAC3 :: "'i BytesIterator \<Rightarrow> int \<Rightarrow> ('i, DescriptorAC3) parser" where
  "newDescriptorAC3 I offsetEnd =
     pbind (fetchByte I) (\<lambda>b.
     pbind (pwhen (0 < b AND 0x80) 0 (fetchByte I)) (\<lambda>componentType.
     pbind (pwhen (0 < b AND 0x40) 0 (fetchByte I)) (\<lambda>bsid.
     pbind (pwhen (0 < b AND 0x20) 0 (fetchByte I)) (\<lambda>mainID.
     pbind (pwhen (0 < b AND 0x10) 0 (fetchByte I)) (\<lambda>asvc.
     pbind (fetchRest I offsetEnd) (\<lambda>info.
     preturn \<lparr>ac3_AdditionalInfo = info, ac3_ASVC = asvc, ac3_BSID = bsid, ac3_ComponentType = componentType,
       ac3_HasASVC = 0 < b AND 0x10, ac3_HasBSID = 0 < b AND 0x40, ac3_HasComponentType = 0 < b AND 0x80,
       ac3_HasMainID = 0 < b AND 0x20, ac3_MainID = mainID\<rparr>))))))"

definition newDescriptorAVCVideo :: "'i BytesIterator \<Rightarrow> ('i, DescriptorAVCVideo) parser" where
  "newDescriptorAVCVideo I =
     pbind (fetchByte I) (\<lambda>b0.
     pbind (fetchByte I) (\<lambda>b1.
     pbind (fetchByte I) (\<lambda>b2.
     pbind (fetchByte I) (\<lambda>b3.
     preturn \<lparr>avc_AVC24HourPictureFlag = 0 < b3 AND 0x40, avc_AVCStillPresent = 0 < b3 AND 0x80,
       avc_CompatibleFlags = b1 AND 0x1f, avc_ConstraintSet0Flag = 0 < b1 AND 0x80,
       avc_ConstraintSet1Flag = 0 < b1 AND 0x40, avc_ConstraintSet2Flag = 0 < b1 AND 0x20,
       avc_LevelIDC = b2, avc_ProfileIDC = b0\<rparr>))))"

definition newDescriptorComponent :: "'i BytesIterator \<Rightarrow> int \<Rightarrow> ('i, DescriptorComponent) parser" where
  "newDescriptorComponent I offsetEnd =
     pbind (fetchByte I) (\<lambda>b.
     pbind (fetchByte I) (\<lambda>componentType.
     pbind (fetchByte I) (\<lambda>componentTag.
     pbind (fetchBytes I 3) (\<lambda>language.
     pbind (fetchRest I offsetEnd) (\<lambda>txt.
     preturn \<lparr>cmp_ComponentTag = componentTag, cmp_ComponentType = componentType,
       cmp_ISO639LanguageCode = language, cmp_StreamContent = b AND 0xf, cmp_StreamContentExt = drop_bit 4 b,
       cmp_Text = txt\<rparr>)))))"

definition newDescriptorContent :: "'i BytesIterator \<Rightarrow> int \<Rightarrow> ('i, DescriptorContentItem list) parser" where
  "newDescriptorContent I offsetEnd = parseItems I offsetEnd
     (pbind (fetchBytesNoCopy I 2) (\<lambda>bs.
      preturn \<lparr>ci_ContentNibbleLevel1 = drop_bit 4 (bs ! 0), ci_ContentNibbleLevel2 = bs ! 0 AND 0xf,
        ci_UserByte = bs ! 1\<rparr>))"

definition newDescriptorDataStreamAlignment :: "'i BytesIterator \<Rightarrow> ('i, uint8) parser" where
  "newDescriptorDataStreamAlignment I = fetchByte I"

definition newDescriptorEnhancedAC3 :: "'i BytesIterator \<Rightarrow> int \<Rightarrow> ('i, DescriptorEnhancedAC3) parser" where
  "newDescriptorEnhancedAC3 I offsetEnd =
     pbind (fetchByte I) (\<lambda>b.
     pbind (pwhen (0 < b AND 0x80) 0 (fetchByte I)) (\<lambda>componentType.
     pbind (pwhen (0 < b AND 0x40) 0 (fetchByte I)) (\<lambda>bsid.
     pbind (pwhen (0 < b AND 0x20) 0 (fetchByte I)) (\<lambda>mainID.
     pbind (pwhen (0 < b AND 0x10) 0 (fetchByte I)) (\<lambda>asvc.
     pbind (pwhen (0 < b AND 0x4) 0 (fetchByte I)) (\<lambda>sub1.
     pbind (pwhen (0 < b AND 0x2) 0 (fetchByte I)) (\<lambda>sub2.
     pbind (pwhen (0 < b AND 0x1) 0 (fetchByte I)) (\<lambda>sub3.
     pbind (fetchRest I offsetEnd) (\<lambda>info.
     preturn \<lparr>eac3_AdditionalInfo = info, eac3_ASVC = asvc, eac3_BSID = bsid, eac3_ComponentType = componentType,
       eac3_HasASVC = 0 < b AND 0x10, eac3_HasBSID = 0 < b AND 0x40, eac3_HasComponentType = 0 < b AND 0x80,
       eac3_HasMainID = 0 < b AND 0x20, eac3_HasSubStream1 = 0 < b AND 0x4, eac3_HasSubStream2 = 0 < b AND 0x2,
       eac3_HasSubStream3 = 0 < b AND 0x1, eac3_MainID = mainID, eac3_MixInfoExists = 0 < b AND 0x8,
       eac3_SubStream1 = sub1, eac3_SubStream2 = sub2, eac3_SubStream3 = sub3\<rparr>)))))))))"

definition newDescriptorExtendedEventItem :: "'i BytesIterator \<Rightarrow> ('i, DescriptorExtendedEventItem) parser" where
  "newDescriptorExtendedEventItem I =
     pbind (fetchCounted I) (\<lambda>description.
     pbind (fetchCounted I) (\<lambda>content.
     preturn \<lparr>eei_Content = content, eei_Description = description\<rparr>))"

definition newDescriptorExtendedEvent :: "'i BytesIterator \<Rightarrow> ('i, DescriptorExtendedEvent) parser" where
  "newDescriptorExtendedEvent I =
     pbind (fetchByte I) (\<lambda>b.
     pbind (fetchBytes I 3) (\<lambda>language.
     pbind (fetchByte I) (\<lambda>itemsLength.
     pbind (offset I) (\<lambda>o'.
     pbind (parseItems I (o' + uint itemsLength)
       (pwrap ''astits: creating extended event item failed: '' (newDescriptorExtendedEventItem I))) (\<lambda>items.
     pbind (fetchCounted I) (\<lambda>txt.
     preturn \<lparr>ee_ISO639LanguageCode = language, ee_Items = items, ee_LastDescriptorNumber = b AND 0xf,
       ee_Number = drop_bit 4 b, ee_Text = txt\<rparr>))))))"

definition newDescriptorExtensionSupplementaryAudio ::
    "'i BytesIterator \<Rightarrow> int \<Rightarrow> ('i, DescriptorExtensionSupplementaryAudio) parser" where
  "newDescriptorExtensionSupplementaryAudio I offsetEnd =
     pbind (fetchByte I) (\<lambda>b.
     pbind (pwhen (0 < b AND 0x1) [] (fetchBytes I 3)) (\<lambda>language.
     pbind (fetchRest I offsetEnd) (\<lambda>private.
     preturn \<lparr>sa_EditorialClassification = drop_bit 2 b AND 0x1f, sa_HasLanguageCode = 0 < b AND 0x1,
       sa_LanguageCode = language, sa_MixType = 0 < b AND 0x80, sa_PrivateData = private\<rparr>)))"

definition newDescriptorExtension :: "'i BytesIterator \<Rightarrow> int \<Rightarrow> ('i, DescriptorExtension) parser" where
  "newDescriptorExtension I offsetEnd =
     pbind (fetchByte I) (\<lambda>tag.
     if tag = DescriptorTagExtensionSupplementaryAudio
     then pbind (pwrap ''astits: parsing extension supplementary audio descriptor failed: ''
         (newDescriptorExtensionSupplementaryAudio I offsetEnd)) (\<lambda>a.
       preturn \<lparr>ext_SupplementaryAudio = Some a, ext_Tag = tag, ext_Unknown = None\<rparr>)
     else pbind (fetchTo I offsetEnd) (\<lambda>bs.
       preturn \<lparr>ext_SupplementaryAudio = None, ext_Tag = tag, ext_Unknown = Some bs\<rparr>))"

text \<open>The last byte is the type; an empty descriptor would panic.\<close>

definition newDescriptorISO639LanguageAndAudioType ::
    "'i BytesIterator \<Rightarrow> int \<Rightarrow> ('i, DescriptorISO639LanguageAndAudioType) parser" where
  "newDescriptorISO639LanguageAndAudioType I offsetEnd =
     pbind (fetchTo I offsetEnd) (\<lambda>bs.
     if bs = [] then pfail Panic else preturn \<lparr>iso_Language = butlast bs, iso_Type = last bs\<rparr>)"

definition newDescriptorLocalTimeOffset :: "'i BytesIterator \<Rightarrow> int \<Rightarrow> ('i, DescriptorLocalTimeOffsetItem list) parser" where
  "newDescriptorLocalTimeOffset I offsetEnd = parseItems I offsetEnd
     (pbind (fetchBytes I 3) (\<lambda>country.
      pbind (fetchByte I) (\<lambda>b.
      pbind (pwrap ''astits: parsing DVB durationminutes failed: '' (parseDVBDurationMinutes I)) (\<lambda>off.
      pbind (pwrap ''astits: parsing DVB time failed: '' (parseDVBTime I)) (\<lambda>t.
      pbind (pwrap ''astits: parsing DVB duration minutes failed: '' (parseDVBDurationMinutes I)) (\<lambda>nxt.
      preturn \<lparr>lto_CountryCode = country, lto_CountryRegionID = drop_bit 2 b, lto_LocalTimeOffset = off,
        lto_LocalTimeOffsetPolarity = 0 < b AND 0x1, lto_NextTimeOffset = nxt, lto_TimeOfChange = t\<rparr>))))))"

definition newDescriptorMaximumBitrate :: "'i BytesIterator \<Rightarrow> ('i, uint32) parser" where
  "newDescriptorMaximumBitrate I =
     pbind (fetchBytesNoCopy I 3) (\<lambda>bs.
     preturn ((push_bit 16 (ucast (bs ! 0 AND 0x3f)) OR push_bit 8 (ucast (bs ! 1)) OR ucast (bs ! 2)) * 50))"

definition newDescriptorNetworkName :: "'i BytesIterator \<Rightarrow> int \<Rightarrow> ('i, byte list) parser" where
  "newDescriptorNetworkName I offsetEnd = fetchTo I offsetEnd"

definition newDescriptorParentalRating :: "'i BytesIterator \<Rightarrow> int \<Rightarrow> ('i, DescriptorParentalRatingItem list) parser" where
  "newDescriptorParentalRating I offsetEnd = parseItems I offsetEnd
     (pbind (fetchBytes I 4) (\<lambda>bs. preturn \<lparr>pr_CountryCode = take 3 bs, pr_Rating = bs ! 3\<rparr>))"

definition newDescriptorPrivateDataIndicator :: "'i BytesIterator \<Rightarrow> ('i, uint32) parser" where
  "newDescriptorPrivateDataIndicator I = fetchUint32 I"

definition newDescriptorPrivateDataSpecifier :: "'i BytesIterator \<Rightarrow> ('i, uint32) parser" where
  "newDescriptorPrivateDataSpecifier I = fetchUint32 I"

definition newDescriptorRegistration :: "'i BytesIterator \<Rightarrow> int \<Rightarrow> ('i, DescriptorRegistration) parser" where
  "newDescriptorRegistration I offsetEnd =
     pbind (fetchUint32 I) (\<lambda>identifier.
     pbind (fetchRest I offsetEnd) (\<lambda>info.
     preturn \<lparr>reg_AdditionalIdentificationInfo = info, reg_FormatIdentifier = identifier\<rparr>))"

definition newDescriptorService :: "'i BytesIterator \<Rightarrow> ('i, DescriptorService) parser" where
  "newDescriptorService I =
     pbind (fetchByte I) (\<lambda>type.
     pbind (fetchCounted I) (\<lambda>provider.
     pbind (fetchCounted I) (\<lambda>name.
     preturn \<lparr>srv_Name = name, srv_Provider = provider, srv_Type = type\<rparr>)))"

definition newDescriptorShortEvent :: "'i BytesIterator \<Rightarrow> ('i, DescriptorShortEvent) parser" where
  "newDescriptorShortEvent I =
     pbind (fetchBytes I 3) (\<lambda>language.
     pbind (fetchCounted I) (\<lambda>name.
     pbind (fetchCounted I) (\<lambda>txt.
     preturn \<lparr>se_EventName = name, se_Language = language, se_Text = txt\<rparr>)))"

definition newDescriptorStreamIdentifier :: "'i BytesIterator \<Rightarrow> ('i, uint8) parser" where
  "newDescriptorStreamIdentifier I = fetchByte I"

definition newDescriptorSubtitling :: "'i BytesIterator \<Rightarrow> int \<Rightarrow> ('i, DescriptorSubtitlingItem list) parser" where
  "newDescriptorSubtitling I offsetEnd = parseItems I offsetEnd
     (pbind (fetchBytes I 3) (\<lambda>language.
      pbind (fetchByte I) (\<lambda>type.
      pbind (fetchUint16 I) (\<lambda>composition.
      pbind (fetchUint16 I) (\<lambda>ancillary.
      preturn \<lparr>sub_AncillaryPageID = ancillary, sub_CompositionPageID = composition, sub_Language = language,
        sub_Type = type\<rparr>)))))"

definition newDescriptorTeletext :: "'i BytesIterator \<Rightarrow> int \<Rightarrow> ('i, DescriptorTeletextItem list) parser" where
  "newDescriptorTeletext I offsetEnd = parseItems I offsetEnd
     (pbind (fetchBytes I 3) (\<lambda>language.
      pbind (fetchByte I) (\<lambda>b.
      pbind (fetchByte I) (\<lambda>page.
      preturn \<lparr>ttx_Language = language, ttx_Magazine = b AND 0x7, ttx_Page = drop_bit 4 page * 10 + (page AND 0xf),
        ttx_Type = drop_bit 3 b\<rparr>))))"

definition newDescriptorUnknown :: "'i BytesIterator \<Rightarrow> uint8 \<Rightarrow> uint8 \<Rightarrow> ('i, DescriptorUnknown) parser" where
  "newDescriptorUnknown I tag len =
     pbind (fetchBytes I (uint len)) (\<lambda>content.
     preturn \<lparr>unk_Content = content, unk_Tag = tag\<rparr>)"

text \<open>
  The inner loop of \<^verbatim>\<open>newDescriptorVBIData\<close>: for a data service that is not one of the
  six line services its body does nothing, and it does not move the iterator.
\<close>

definition newDescriptorVBIData :: "'i BytesIterator \<Rightarrow> int \<Rightarrow> ('i, DescriptorVBIDataService list) parser" where
  "newDescriptorVBIData I offsetEnd = parseItems I offsetEnd
     (pbind (fetchByte I) (\<lambda>dataServiceID.
      pbind (fetchByte I) (\<lambda>dataServiceDescriptorLength.
      pbind (offset I) (\<lambda>o'.
      pbind (pwhile (\<lambda>_ i. bi_Offset I i < o' + uint dataServiceDescriptorLength)
        (\<lambda>ds. pwhen (isVBILineService dataServiceID) ds
          (pbind (fetchByte I) (\<lambda>b.
           preturn (ds @ [\<lparr>vbi_FieldParity = 0 < b AND 0x20, vbi_LineOffset = b AND 0x1f\<rparr>])))) []) (\<lambda>ds.
      preturn \<lparr>vbi_DataServiceID = dataServiceID, vbi_Descriptors = ds\<rparr>)))))"

text \<open>The switch of \<^verbatim>\<open>parseDescriptors\<close> on the tag.\<close>

definition parseDescriptorData :: "'i BytesIterator \<Rightarrow> uint8 \<Rightarrow> uint8 \<Rightarrow> int \<Rightarrow> ('i, Descriptor) parser" where
  "parseDescriptorData I tag len offsetEnd =
     (let d = newDescriptor tag len
      in
      if tag = DescriptorTagAC3 then pbind (pwrap ''astits: parsing AC3 descriptor failed: '' (newDescriptorAC3 I offsetEnd))
        (\<lambda>x. preturn (d\<lparr>dsc_AC3 := Some x\<rparr>))
      else if tag = DescriptorTagAVCVideo then pbind (pwrap ''astits: parsing AVC Video descriptor failed: '' (newDescriptorAVCVideo I))
        (\<lambda>x. preturn (d\<lparr>dsc_AVCVideo := Some x\<rparr>))
      else if tag = DescriptorTagComponent then pbind (pwrap ''astits: parsing Component descriptor failed: '' (newDescriptorComponent I offsetEnd))
        (\<lambda>x. preturn (d\<lparr>dsc_Component := Some x\<rparr>))
      else if tag = DescriptorTagContent then pbind (pwrap ''astits: parsing Content descriptor failed: '' (newDescriptorContent I offsetEnd))
        (\<lambda>x. preturn (d\<lparr>dsc_Content := Some x\<rparr>))
      else if tag = DescriptorTagDataStreamAlignment then pbind (pwrap ''astits: parsing Data Stream Alignment descriptor failed: '' (newDescriptorDataStreamAlignment I))
        (\<lambda>x. preturn (d\<lparr>dsc_DataStreamAlignment := Some x\<rparr>))
      else if tag = DescriptorTagEnhancedAC3 then pbind (pwrap ''astits: parsing Enhanced AC3 descriptor failed: '' (newDescriptorEnhancedAC3 I offsetEnd))
        (\<lambda>x. preturn (d\<lparr>dsc_EnhancedAC3 := Some x\<rparr>))
      else if tag = DescriptorTagExtendedEvent then pbind (pwrap ''astits: parsing Extended event descriptor failed: '' (newDescriptorExtendedEvent I))
        (\<lambda>x. preturn (d\<lparr>dsc_ExtendedEvent := Some x\<rparr>))
      else if tag = DescriptorTagExtension then pbind (pwrap ''astits: parsing Extension descriptor failed: '' (newDescriptorExtension I offsetEnd))
        (\<lambda>x. preturn (d\<lparr>dsc_Extension := Some x\<rparr>))
      else if tag = DescriptorTagISO639LanguageAndAudioType then pbind (pwrap ''astits: parsing ISO639 Language and Audio Type descriptor failed: '' (newDescriptorISO639LanguageAndAudioType I offsetEnd))
        (\<lambda>x. preturn (d\<lparr>dsc_ISO639LanguageAndAudioType := Some x\<rparr>))
      else if tag = DescriptorTagLocalTimeOffset then pbind (pwrap ''astits: parsing Local Time Offset descriptor failed: '' (newDescriptorLocalTimeOffset I offsetEnd))
        (\<lambda>x. preturn (d\<lparr>dsc_LocalTimeOffset := Some x\<rparr>))
      else if tag = DescriptorTagMaximumBitrate then pbind (pwrap ''astits: parsing Maximum Bitrate descriptor failed: '' (newDescriptorMaximumBitrate I))
        (\<lambda>x. preturn (d\<lparr>dsc_MaximumBitrate := Some x\<rparr>))
      else if tag = DescriptorTagNetworkName then pbind (pwrap ''astits: parsing Network Name descriptor failed: '' (newDescriptorNetworkName I offsetEnd))
        (\<lambda>x. preturn (d\<lparr>dsc_NetworkName := Some x\<rparr>))
      else if tag = DescriptorTagParentalRating then pbind (pwrap ''astits: parsing Parental Rating descriptor failed: '' (newDescriptorParentalRating I offsetEnd))
        (\<lambda>x. preturn (d\<lparr>dsc_ParentalRating := Some x\<rparr>))
      else if tag = DescriptorTagPrivateDataIndicator then pbind (pwrap ''astits: parsing Private Data Indicator descriptor failed: '' (newDescriptorPrivateDataIndicator I))
        (\<lambda>x. preturn (d\<lparr>dsc_PrivateDataIndicator := Some x\<rparr>))
      else if tag = DescriptorTagPrivateDataSpecifier then pbind (pwrap ''astits: parsing Private Data Specifier descriptor failed: '' (newDescriptorPrivateDataSpecifier I))
        (\<lambda>x. preturn (d\<lparr>dsc_PrivateDataSpecifier := Some x\<rparr>))
      else if tag = DescriptorTagRegistration then pbind (pwrap ''astits: parsing Registration descriptor failed: '' (newDescriptorRegistration I offsetEnd))
        (\<lambda>x. preturn (d\<lparr>dsc_Registration := Some x\<rparr>))
      else if tag = DescriptorTagService then pbind (pwrap ''astits: parsing Service descriptor failed: '' (newDescriptorService I))
        (\<lambda>x. preturn (d\<lparr>dsc_Service := Some x\<rparr>))
      else if tag = DescriptorTagShortEvent then pbind (pwrap ''astits: parsing Short Event descriptor failed: '' (newDescriptorShortEvent I))
        (\<lambda>x. preturn (d\<lparr>dsc_ShortEvent := Some x\<rparr>))
      else if tag = DescriptorTagStreamIdentifier then pbind (pwrap ''astits: parsing Stream Identifier descriptor failed: '' (newDescriptorStreamIdentifier I))
        (\<lambda>x. preturn (d\<lparr>dsc_StreamIdentifier := Some x\<rparr>))
      else if tag = DescriptorTagSubtitling then pbind (pwrap ''astits: parsing Subtitling descriptor failed: '' (newDescriptorSubtitling I offsetEnd))
        (\<lambda>x. preturn (d\<lparr>dsc_Subtitling := Some x\<rparr>))
      else if tag = DescriptorTagTeletext then pbind (pwrap ''astits: parsing Teletext descriptor failed: '' (newDescriptorTeletext I offsetEnd))
        (\<lambda>x. preturn (d\<lparr>dsc_Teletext := Some x\<rparr>))
      else if tag = DescriptorTagVBIData then pbind (pwrap ''astits: parsing VBI Date descriptor failed: '' (newDescriptorVBIData I offsetEnd))
        (\<lambda>x. preturn (d\<lparr>dsc_VBIData := Some x\<rparr>))
      else if tag = DescriptorTagVBITeletext then pbind (pwrap ''astits: parsing VBI Teletext descriptor failed: '' (newDescriptorTeletext I offsetEnd))
        (\<lambda>x. preturn (d\<lparr>dsc_VBITeletext := Some x\<rparr>))
      else pbind (pwrap ''astits: parsing unknown descriptor failed: '' (newDescriptorUnknown I tag len))
        (\<lambda>x. preturn (d\<lparr>dsc_Unknown := Some x\<rparr>)))"

text \<open>One turn of the loop of \<^verbatim>\<open>parseDescriptors\<close>.\<close>

definition parseDescriptor :: "'i BytesIterator \<Rightarrow> ('i, Descriptor) parser" where
  "parseDescriptor I =
     pbind (fetchBytesNoCopy I 2) (\<lambda>bs.
     let tag = bs ! 0; length = bs ! 1 in
     if length > 0
     then pbind (offset I) (\<lambda>o'.
       let offsetDescriptorEnd = o' + uint length in
       pbind (if tag \<ge> 0x80 \<and> tag \<le> 0xfe
              then pbind (fetchBytes I (uint length)) (\<lambda>u. preturn ((newDescriptor tag length)\<lparr>dsc_UserDefined := u\<rparr>))
              else parseDescriptorData I tag length offsetDescriptorEnd) (\<lambda>d.
       pbind (seek I offsetDescriptorEnd) (\<lambda>_. preturn d)))
     else preturn (newDescriptor tag length))"

definition parseDescriptors :: "'i BytesIterator \<Rightarrow> ('i, Descriptor list) parser" where
  "parseDescriptors I =
     pbind (fetchBytesNoCopy I 2) (\<lambda>bs.
     let length = uint (push_bit 8 (ucast (bs ! 0 AND 0xf)) OR ucast (bs ! 1) :: uint16) in
     pwhen (length > 0) []
       (pbind (offset I) (\<lambda>o'. parseItems I (o' + length) (parseDescriptor I))))"

end
