(* ===== verification/Descriptor_Write.thy ===== *)
theory Descriptor_Write
  imports Descriptor
begin

text \<open>
  \<^verbatim>\<open>descriptor.go\<close>, second half: the lengths of descriptors and
  \<^verbatim>\<open>writeDescriptors\<close>. Lengths are computed in Go's \<^verbatim>\<open>int\<close> and cut to
  a byte. A length or a write of a nil pointer panics, unless the function does not look at it.
\<close>

section \<open>Lengths\<close>

definition calcDescriptorUserDefinedLength :: "byte list \<Rightarrow> uint8" where
  "calcDescriptorUserDefinedLength d = word_of_nat (length d)"

definition calcDescriptorAC3Length :: "DescriptorAC3 \<Rightarrow> uint8" where
  "calcDescriptorAC3Length d = word_of_nat
     (1 + (if ac3_HasComponentType d then 1 else 0) + (if ac3_HasBSID d then 1 else 0)
        + (if ac3_HasMainID d then 1 else 0) + (if ac3_HasASVC d then 1 else 0) + length (ac3_AdditionalInfo d))"

definition calcDescriptorAVCVideoLength :: uint8 where
  "calcDescriptorAVCVideoLength = 4"

definition calcDescriptorComponentLength :: "DescriptorComponent \<Rightarrow> uint8" where
  "calcDescriptorComponentLength d = word_of_nat (6 + length (cmp_Text d))"

definition calcDescriptorContentLength :: "DescriptorContentItem list \<Rightarrow> uint8" where
  "calcDescriptorContentLength items = word_of_nat (2 * length items)"

definition calcDescriptorDataStreamAlignmentLength :: uint8 where
  "calcDescriptorDataStreamAlignmentLength = 1"

definition calcDescriptorEnhancedAC3Length :: "DescriptorEnhancedAC3 \<Rightarrow> uint8" where
  "calcDescriptorEnhancedAC3Length d = word_of_nat
     (1 + (if eac3_HasComponentType d then 1 else 0) + (if eac3_HasBSID d then 1 else 0)
        + (if eac3_HasMainID d then 1 else 0) + (if eac3_HasASVC d then 1 else 0)
        + (if eac3_HasSubStream1 d then 1 else 0) + (if eac3_HasSubStream2 d then 1 else 0)
        + (if eac3_HasSubStream3 d then 1 else 0) + length (eac3_AdditionalInfo d))"

definition extendedEventItemsLength :: "DescriptorExtendedEventItem list \<Rightarrow> nat" where
  "extendedEventItemsLength items =
     sum_list (map (\<lambda>i. 1 + length (eei_Description i) + 1 + length (eei_Content i)) items)"

definition calcDescriptorExtendedEventLength :: "DescriptorExtendedEvent \<Rightarrow> uint8 \<times> uint8" where
  "calcDescriptorExtendedEventLength d =
     (let itemsRet = extendedEventItemsLength (ee_Items d)
      in (word_of_nat (1 + 3 + 1 + itemsRet + 1 + length (ee_Text d)), word_of_nat itemsRet))"

definition calcDescriptorExtensionSupplementaryAudioLength :: "DescriptorExtensionSupplementaryAudio \<Rightarrow> nat" where
  "calcDescriptorExtensionSupplementaryAudioLength d =
     1 + (if sa_HasLanguageCode d then 3 else 0) + length (sa_PrivateData d)"

definition calcDescriptorExtensionLength :: "DescriptorExtension \<Rightarrow> uint8 option" where
  "calcDescriptorExtensionLength d =
     (if ext_Tag d = DescriptorTagExtensionSupplementaryAudio
      then map_option (\<lambda>a. word_of_nat (1 + calcDescriptorExtensionSupplementaryAudioLength a)) (ext_SupplementaryAudio d)
      else Some (word_of_nat (1 + (case ext_Unknown d of None \<Rightarrow> 0 | Some u \<Rightarrow> length u))))"

definition calcDescriptorISO639LanguageAndAudioTypeLength :: uint8 where
  "calcDescriptorISO639LanguageAndAudioTypeLength = 3 + 1"

definition calcDescriptorLocalTimeOffsetLength :: "DescriptorLocalTimeOffsetItem list \<Rightarrow> uint8" where
  "calcDescriptorLocalTimeOffsetLength items = word_of_nat (13 * length items)"

definition calcDescriptorMaximumBitrateLength :: uint8 where
  "calcDescriptorMaximumBitrateLength = 3"

definition calcDescriptorNetworkNameLength :: "byte list \<Rightarrow> uint8" where
  "calcDescriptorNetworkNameLength name = word_of_nat (length name)"

definition calcDescriptorParentalRatingLength :: "DescriptorParentalRatingItem list \<Rightarrow> uint8" where
  "calcDescriptorParentalRatingLength items = word_of_nat (4 * length items)"

definition calcDescriptorPrivateDataIndicatorLength :: uint8 where
  "calcDescriptorPrivateDataIndicatorLength = 4"

definition calcDescriptorPrivateDataSpecifierLength :: uint8 where
  "calcDescriptorPrivateDataSpecifierLength = 4"

definition calcDescriptorRegistrationLength :: "DescriptorRegistration \<Rightarrow> uint8" where
  "calcDescriptorRegistrationLength d = word_of_nat (4 + length (reg_AdditionalIdentificationInfo d))"

definition calcDescriptorServiceLength :: "DescriptorService \<Rightarrow> uint8" where
  "calcDescriptorServiceLength d = word_of_nat (3 + length (srv_Name d) + length (srv_Provider d))"

definition calcDescriptorShortEventLength :: "DescriptorShortEvent \<Rightarrow> uint8" where
  "calcDescriptorShortEventLength d = word_of_nat (3 + 1 + 1 + length (se_EventName d) + length (se_Text d))"

definition calcDescriptorStreamIdentifierLength :: uint8 where
  "calcDescriptorStreamIdentifierLength = 1"

definition calcDescriptorSubtitlingLength :: "DescriptorSubtitlingItem list \<Rightarrow> uint8" where
  "calcDescriptorSubtitlingLength items = word_of_nat (8 * length items)"

definition calcDescriptorTeletextLength :: "DescriptorTeletextItem list \<Rightarrow> uint8" where
  "calcDescriptorTeletextLength items = word_of_nat (5 * length items)"

definition calcDescriptorVBIDataLength :: "DescriptorVBIDataService list \<Rightarrow> uint8" where
  "calcDescriptorVBIDataLength services = word_of_nat (3 * length services)"

definition calcDescriptorUnknownLength :: "DescriptorUnknown \<Rightarrow> uint8" where
  "calcDescriptorUnknownLength d = word_of_nat (length (unk_Content d))"

definition calcDescriptorLength :: "Descriptor \<Rightarrow> uint8 option" where
  "calcDescriptorLength d =
     (let tag = dsc_Tag d in
      if tag \<ge> 0x80 \<and> tag \<le> 0xfe then Some (calcDescriptorUserDefinedLength (dsc_UserDefined d))
      else if tag = DescriptorTagAC3 then map_option calcDescriptorAC3Length (dsc_AC3 d)
      else if tag = DescriptorTagAVCVideo then Some calcDescriptorAVCVideoLength
      else if tag = DescriptorTagComponent then map_option calcDescriptorComponentLength (dsc_Component d)
      else if tag = DescriptorTagContent then map_option calcDescriptorContentLength (dsc_Content d)
      else if tag = DescriptorTagDataStreamAlignment then Some calcDescriptorDataStreamAlignmentLength
      else if tag = DescriptorTagEnhancedAC3 then map_option calcDescriptorEnhancedAC3Length (dsc_EnhancedAC3 d)
      else if tag = DescriptorTagExtendedEvent
      then map_option (\<lambda>e. fst (calcDescriptorExtendedEventLength e)) (dsc_ExtendedEvent d)
      else if tag = DescriptorTagExtension then Option.bind (dsc_Extension d) calcDescriptorExtensionLength
      else if tag = DescriptorTagISO639LanguageAndAudioType then Some calcDescriptorISO639LanguageAndAudioTypeLength
      else if tag = DescriptorTagLocalTimeOffset then map_option calcDescriptorLocalTimeOffsetLength (dsc_LocalTimeOffset d)
      else if tag = DescriptorTagMaximumBitrate then Some calcDescriptorMaximumBitrateLength
      else if tag = DescriptorTagNetworkName then map_option calcDescriptorNetworkNameLength (dsc_NetworkName d)
      else if tag = DescriptorTagParentalRating then map_option calcDescriptorParentalRatingLength (dsc_ParentalRating d)
      else if tag = DescriptorTagPrivateDataIndicator then Some calcDescriptorPrivateDataIndicatorLength
      else if tag = DescriptorTagPrivateDataSpecifier then Some calcDescriptorPrivateDataSpecifierLength
      else if tag = DescriptorTagRegistration then map_option calcDescriptorRegistrationLength (dsc_Registration d)
      else if tag = DescriptorTagService then map_option calcDescriptorServiceLength (dsc_Service d)
      else if tag = DescriptorTagShortEvent then map_option calcDescriptorShortEventLength (dsc_ShortEvent d)
      else if tag = DescriptorTagStreamIdentifier then Some calcDescriptorStreamIdentifierLength
      else if tag = DescriptorTagSubtitling then map_option calcDescriptorSubtitlingLength (dsc_Subtitling d)
      else if tag = DescriptorTagTeletext then map_option calcDescriptorTeletextLength (dsc_Teletext d)
      else if tag = DescriptorTagVBIData then map_option calcDescriptorVBIDataLength (dsc_VBIData d)
      else if tag = DescriptorTagVBITeletext then map_option calcDescriptorTeletextLength (dsc_VBITeletext d)
      else map_option calcDescriptorUnknownLength (dsc_Unknown d))"

section \<open>Writing\<close>

text \<open>\<^verbatim>\<open>b := NewBitsWriterBatch(w); \<dots>; return b.Err()\<close>\<close>

definition writeBatch :: "'w BitsWriter \<Rightarrow> wcmd list \<Rightarrow> ('w, error, unit) writer" where
  "writeBatch W cmds = wbind (batch W cmds None) (wdone ())"

definition writeDescriptorUserDefined :: "'w BitsWriter \<Rightarrow> byte list \<Rightarrow> ('w, error, unit) writer" where
  "writeDescriptorUserDefined W d = writeBatch W [Wr (ABytes d)]"

definition writeDescriptorAC3 :: "'w BitsWriter \<Rightarrow> DescriptorAC3 \<Rightarrow> ('w, error, unit) writer" where
  "writeDescriptorAC3 W d = writeBatch W
     ([Wr (ABool (ac3_HasComponentType d)), Wr (ABool (ac3_HasBSID d)), Wr (ABool (ac3_HasMainID d)),
       Wr (ABool (ac3_HasASVC d)), WrN (AU8 0xff) 4] @
      (if ac3_HasComponentType d then [Wr (AU8 (ac3_ComponentType d))] else []) @
      (if ac3_HasBSID d then [Wr (AU8 (ac3_BSID d))] else []) @
      (if ac3_HasMainID d then [Wr (AU8 (ac3_MainID d))] else []) @
      (if ac3_HasASVC d then [Wr (AU8 (ac3_ASVC d))] else []) @
      [Wr (ABytes (ac3_AdditionalInfo d))])"

definition writeDescriptorAVCVideo :: "'w BitsWriter \<Rightarrow> DescriptorAVCVideo \<Rightarrow> ('w, error, unit) writer" where
  "writeDescriptorAVCVideo W d = writeBatch W
     [Wr (AU8 (avc_ProfileIDC d)), Wr (ABool (avc_ConstraintSet0Flag d)), Wr (ABool (avc_ConstraintSet1Flag d)),
      Wr (ABool (avc_ConstraintSet2Flag d)), WrN (AU8 (avc_CompatibleFlags d)) 5, Wr (AU8 (avc_LevelIDC d)),
      Wr (ABool (avc_AVCStillPresent d)), Wr (ABool (avc_AVC24HourPictureFlag d)), WrN (AU8 0xff) 6]"

definition writeDescriptorComponent :: "'w BitsWriter \<Rightarrow> DescriptorComponent \<Rightarrow> ('w, error, unit) writer" where
  "writeDescriptorComponent W d = writeBatch W
     [WrN (AU8 (cmp_StreamContentExt d)) 4, WrN (AU8 (cmp_StreamContent d)) 4, Wr (AU8 (cmp_ComponentType d)),
      Wr (AU8 (cmp_ComponentTag d)), WrBytesN (cmp_ISO639LanguageCode d) 3 0, Wr (ABytes (cmp_Text d))]"

definition writeDescriptorContent :: "'w BitsWriter \<Rightarrow> DescriptorContentItem list \<Rightarrow> ('w, error, unit) writer" where
  "writeDescriptorContent W items = writeBatch W (concat (map (\<lambda>i.
     [WrN (AU8 (ci_ContentNibbleLevel1 i)) 4, WrN (AU8 (ci_ContentNibbleLevel2 i)) 4, Wr (AU8 (ci_UserByte i))]) items))"

definition writeDescriptorDataStreamAlignment :: "'w BitsWriter \<Rightarrow> uint8 \<Rightarrow> ('w, error, unit) writer" where
  "writeDescriptorDataStreamAlignment W type = writeBatch W [Wr (AU8 type)]"

definition writeDescriptorEnhancedAC3 :: "'w BitsWriter \<Rightarrow> DescriptorEnhancedAC3 \<Rightarrow> ('w, error, unit) writer" where
  "writeDescriptorEnhancedAC3 W d = writeBatch W
     ([Wr (ABool (eac3_HasComponentType d)), Wr (ABool (eac3_HasBSID d)), Wr (ABool (eac3_HasMainID d)),
       Wr (ABool (eac3_HasASVC d)), Wr (ABool (eac3_MixInfoExists d)), Wr (ABool (eac3_HasSubStream1 d)),
       Wr (ABool (eac3_HasSubStream2 d)), Wr (ABool (eac3_HasSubStream3 d))] @
      (if eac3_HasComponentType d then [Wr (AU8 (eac3_ComponentType d))] else []) @
      (if eac3_HasBSID d then [Wr (AU8 (eac3_BSID d))] else []) @
      (if eac3_HasMainID d then [Wr (AU8 (eac3_MainID d))] else []) @
      (if eac3_HasASVC d then [Wr (AU8 (eac3_ASVC d))] else []) @
      (if eac3_HasSubStream1 d then [Wr (AU8 (eac3_SubStream1 d))] else []) @
      (if eac3_HasSubStream2 d then [Wr (AU8 (eac3_SubStream2 d))] else []) @
      (if eac3_HasSubStream3 d then [Wr (AU8 (eac3_SubStream3 d))] else []) @
      [Wr (ABytes (eac3_AdditionalInfo d))])"

definition writeDescriptorExtendedEvent :: "'w BitsWriter \<Rightarrow> DescriptorExtendedEvent \<Rightarrow> ('w, error, unit) writer" where
  "writeDescriptorExtendedEvent W d = writeBatch W
     ([WrN (AU8 (ee_Number d)) 4, WrN (AU8 (ee_LastDescriptorNumber d)) 4, WrBytesN (ee_ISO639LanguageCode d) 3 0,
       Wr (AU8 (snd (calcDescriptorExtendedEventLength d)))] @
      concat (map (\<lambda>i.
        [Wr (AU8 (word_of_nat (length (eei_Description i)))), Wr (ABytes (eei_Description i)),
         Wr (AU8 (word_of_nat (length (eei_Content i)))), Wr (ABytes (eei_Content i))]) (ee_Items d)) @
      [Wr (AU8 (word_of_nat (length (ee_Text d)))), Wr (ABytes (ee_Text d))])"

definition writeDescriptorExtensionSupplementaryAudio ::
    "'w BitsWriter \<Rightarrow> DescriptorExtensionSupplementaryAudio \<Rightarrow> ('w, error, unit) writer" where
  "writeDescriptorExtensionSupplementaryAudio W d = writeBatch W
     ([Wr (ABool (sa_MixType d)), WrN (AU8 (sa_EditorialClassification d)) 5, Wr (ABool True),
       Wr (ABool (sa_HasLanguageCode d))] @
      (if sa_HasLanguageCode d then [WrBytesN (sa_LanguageCode d) 3 0] else []) @
      [Wr (ABytes (sa_PrivateData d))])"

definition writeDescriptorExtension :: "'w BitsWriter \<Rightarrow> DescriptorExtension \<Rightarrow> ('w, error, unit) writer" where
  "writeDescriptorExtension W d =
     wbind (batch W [Wr (AU8 (ext_Tag d))] None) (\<lambda>b.
     if ext_Tag d = DescriptorTagExtensionSupplementaryAudio
     then wbind (wderef (ext_SupplementaryAudio d) (writeDescriptorExtensionSupplementaryAudio W)) (\<lambda>_. wdone () b)
     else wbind (batch W (case ext_Unknown d of None \<Rightarrow> [] | Some u \<Rightarrow> [Wr (ABytes u)]) b) (wdone ()))"

definition writeDescriptorISO639LanguageAndAudioType ::
    "'w BitsWriter \<Rightarrow> DescriptorISO639LanguageAndAudioType \<Rightarrow> ('w, error, unit) writer" where
  "writeDescriptorISO639LanguageAndAudioType W d = writeBatch W [WrBytesN (iso_Language d) 3 0, Wr (AU8 (iso_Type d))]"

text \<open>One batch for the descriptor; the DVB times go through the writer itself.\<close>

definition writeDescriptorLocalTimeOffset ::
    "'w BitsWriter \<Rightarrow> DescriptorLocalTimeOffsetItem list \<Rightarrow> ('w, error, unit) writer" where
  "writeDescriptorLocalTimeOffset W items =
     wbind (wfor items (\<lambda>i b.
       wbind (batch W
         [WrBytesN (lto_CountryCode i) 3 0, WrN (AU8 (lto_CountryRegionID i)) 6, WrN (AU8 0xff) 1,
          Wr (ABool (lto_LocalTimeOffsetPolarity i))] b) (\<lambda>b.
       wbind (writeDVBDurationMinutes W (lto_LocalTimeOffset i)) (\<lambda>_.
       wbind (\<lambda>w. case writeDVBTime W (lto_TimeOfChange i) w of
           (Inl (_, e), w') \<Rightarrow> (Inl e, w') | (Inr n, w') \<Rightarrow> (Inr n, w')) (\<lambda>_.
       wbind (writeDVBDurationMinutes W (lto_NextTimeOffset i)) (\<lambda>_.
       wreturn b))))) None) (wdone ())"

definition writeDescriptorMaximumBitrate :: "'w BitsWriter \<Rightarrow> uint32 \<Rightarrow> ('w, error, unit) writer" where
  "writeDescriptorMaximumBitrate W bitrate = writeBatch W [WrN (AU8 0xff) 2, WrN (AU32 (bitrate div 50)) 22]"

definition writeDescriptorNetworkName :: "'w BitsWriter \<Rightarrow> byte list \<Rightarrow> ('w, error, unit) writer" where
  "writeDescriptorNetworkName W name = writeBatch W [Wr (ABytes name)]"

definition writeDescriptorParentalRating ::
    "'w BitsWriter \<Rightarrow> DescriptorParentalRatingItem list \<Rightarrow> ('w, error, unit) writer" where
  "writeDescriptorParentalRating W items = writeBatch W
     (concat (map (\<lambda>i. [WrBytesN (pr_CountryCode i) 3 0, Wr (AU8 (pr_Rating i))]) items))"

definition writeDescriptorPrivateDataIndicator :: "'w BitsWriter \<Rightarrow> uint32 \<Rightarrow> ('w, error, unit) writer" where
  "writeDescriptorPrivateDataIndicator W x = writeBatch W [Wr (AU32 x)]"

definition writeDescriptorPrivateDataSpecifier :: "'w BitsWriter \<Rightarrow> uint32 \<Rightarrow> ('w, error, unit) writer" where
  "writeDescriptorPrivateDataSpecifier W x = writeBatch W [Wr (AU32 x)]"

definition writeDescriptorRegistration :: "'w BitsWriter \<Rightarrow> DescriptorRegistration \<Rightarrow> ('w, error, unit) writer" where
  "writeDescriptorRegistration W d = writeBatch W
     [Wr (AU32 (reg_FormatIdentifier d)), Wr (ABytes (reg_AdditionalIdentificationInfo d))]"

definition writeDescriptorService :: "'w BitsWriter \<Rightarrow> DescriptorService \<Rightarrow> ('w, error, unit) writer" where
  "writeDescriptorService W d = writeBatch W
     [Wr (AU8 (srv_Type d)), Wr (AU8 (word_of_nat (length (srv_Provider d)))), Wr (ABytes (srv_Provider d)),
      Wr (AU8 (word_of_nat (length (srv_Name d)))), Wr (ABytes (srv_Name d))]"

definition writeDescriptorShortEvent :: "'w BitsWriter \<Rightarrow> DescriptorShortEvent \<Rightarrow> ('w, error, unit) writer" where
  "writeDescriptorShortEvent W d = writeBatch W
     [WrBytesN (se_Language d) 3 0, Wr (AU8 (word_of_nat (length (se_EventName d)))), Wr (ABytes (se_EventName d)),
      Wr (AU8 (word_of_nat (length (se_Text d)))), Wr (ABytes (se_Text d))]"

definition writeDescriptorStreamIdentifier :: "'w BitsWriter \<Rightarrow> uint8 \<Rightarrow> ('w, error, unit) writer" where
  "writeDescriptorStreamIdentifier W tag = writeBatch W [Wr (AU8 tag)]"

definition writeDescriptorSubtitling :: "'w BitsWriter \<Rightarrow> DescriptorSubtitlingItem list \<Rightarrow> ('w, error, unit) writer" where
  "writeDescriptorSubtitling W items = writeBatch W (concat (map (\<lambda>i.
     [WrBytesN (sub_Language i) 3 0, Wr (AU8 (sub_Type i)), Wr (AU16 (sub_CompositionPageID i)),
      Wr (AU16 (sub_AncillaryPageID i))]) items))"

definition writeDescriptorTeletext :: "'w BitsWriter \<Rightarrow> DescriptorTeletextItem list \<Rightarrow> ('w, error, unit) writer" where
  "writeDescriptorTeletext W items = writeBatch W (concat (map (\<lambda>i.
     [WrBytesN (ttx_Language i) 3 0, WrN (AU8 (ttx_Type i)) 5, WrN (AU8 (ttx_Magazine i)) 3,
      WrN (AU8 (ttx_Page i div 10)) 4, WrN (AU8 (ttx_Page i mod 10)) 4]) items))"

definition writeDescriptorVBIData :: "'w BitsWriter \<Rightarrow> DescriptorVBIDataService list \<Rightarrow> ('w, error, unit) writer" where
  "writeDescriptorVBIData W services = writeBatch W (concat (map (\<lambda>s.
     Wr (AU8 (vbi_DataServiceID s)) #
     (if isVBILineService (vbi_DataServiceID s)
      then Wr (AU8 (word_of_nat (length (vbi_Descriptors s)))) #
        concat (map (\<lambda>d. [WrN (AU8 0xff) 2, Wr (ABool (vbi_FieldParity d)), WrN (AU8 (vbi_LineOffset d)) 5]) (vbi_Descriptors s))
      else [Wr (AU8 1), Wr (AU8 0xff)])) services))"

definition writeDescriptorUnknown :: "'w BitsWriter \<Rightarrow> DescriptorUnknown \<Rightarrow> ('w, error, unit) writer" where
  "writeDescriptorUnknown W d = writeBatch W [Wr (ABytes (unk_Content d))]"

text \<open>The switch of \<^verbatim>\<open>writeDescriptor\<close> on the tag.\<close>

definition writeDescriptorData :: "'w BitsWriter \<Rightarrow> Descriptor \<Rightarrow> ('w, error, unit) writer" where
  "writeDescriptorData W d =
     (let tag = dsc_Tag d in
      if tag \<ge> 0x80 \<and> tag \<le> 0xfe then writeDescriptorUserDefined W (dsc_UserDefined d)
      else if tag = DescriptorTagAC3 then wderef (dsc_AC3 d) (writeDescriptorAC3 W)
      else if tag = DescriptorTagAVCVideo then wderef (dsc_AVCVideo d) (writeDescriptorAVCVideo W)
      else if tag = DescriptorTagComponent then wderef (dsc_Component d) (writeDescriptorComponent W)
      else if tag = DescriptorTagContent then wderef (dsc_Content d) (writeDescriptorContent W)
      else if tag = DescriptorTagDataStreamAlignment then wderef (dsc_DataStreamAlignment d) (writeDescriptorDataStreamAlignment W)
      else if tag = DescriptorTagEnhancedAC3 then wderef (dsc_EnhancedAC3 d) (writeDescriptorEnhancedAC3 W)
      else if tag = DescriptorTagExtendedEvent then wderef (dsc_ExtendedEvent d) (writeDescriptorExtendedEvent W)
      else if tag = DescriptorTagExtension then wderef (dsc_Extension d) (writeDescriptorExtension W)
      else if tag = DescriptorTagISO639LanguageAndAudioType
      then wderef (dsc_ISO639LanguageAndAudioType d) (writeDescriptorISO639LanguageAndAudioType W)
      else if tag = DescriptorTagLocalTimeOffset then wderef (dsc_LocalTimeOffset d) (writeDescriptorLocalTimeOffset W)
      else if tag = DescriptorTagMaximumBitrate then wderef (dsc_MaximumBitrate d) (writeDescriptorMaximumBitrate W)
      else if tag = DescriptorTagNetworkName then wderef (dsc_NetworkName d) (writeDescriptorNetworkName W)
      else if tag = DescriptorTagParentalRating then wderef (dsc_ParentalRating d) (writeDescriptorParentalRating W)
      else if tag = DescriptorTagPrivateDataIndicator then wderef (dsc_PrivateDataIndicator d) (writeDescriptorPrivateDataIndicator W)
      else if tag = DescriptorTagPrivateDataSpecifier then wderef (dsc_PrivateDataSpecifier d) (writeDescriptorPrivateDataSpecifier W)
      else if tag = DescriptorTagRegistration then wderef (dsc_Registration d) (writeDescriptorRegistration W)
      else if tag = DescriptorTagService then wderef (dsc_Service d) (writeDescriptorService W)
      else if tag = DescriptorTagShortEvent then wderef (dsc_ShortEvent d) (writeDescriptorShortEvent W)
      else if tag = DescriptorTagStreamIdentifier then wderef (dsc_StreamIdentifier d) (writeDescriptorStreamIdentifier W)
      else if tag = DescriptorTagSubtitling then wderef (dsc_Subtitling d) (writeDescriptorSubtitling W)
      else if tag = DescriptorTagTeletext then wderef (dsc_Teletext d) (writeDescriptorTeletext W)
      else if tag = DescriptorTagVBIData then wderef (dsc_VBIData d) (writeDescriptorVBIData W)
      else if tag = DescriptorTagVBITeletext then wderef (dsc_VBITeletext d) (writeDescriptorTeletext W)
      else wderef (dsc_Unknown d) (writeDescriptorUnknown W))"

definition writeDescriptor :: "'w BitsWriter \<Rightarrow> Descriptor \<Rightarrow> ('w, error, int) writer" where
  "writeDescriptor W d =
     wderef (calcDescriptorLength d) (\<lambda>len.
     wbind (writeBatch W [Wr (AU8 (dsc_Tag d)), Wr (AU8 len)]) (\<lambda>_.
     wbind (writeDescriptorData W d) (\<lambda>_.
     wreturn (uint len + 2))))"

text \<open>\<^verbatim>\<open>uint16\<close> arithmetic; \<^const>\<open>None\<close> is a panic.\<close>

primrec calcDescriptorsLength :: "Descriptor list \<Rightarrow> uint16 option" where
  "calcDescriptorsLength [] = Some 0"
| "calcDescriptorsLength (d # ds) = (case (calcDescriptorLength d, calcDescriptorsLength ds) of
     (Some n, Some m) \<Rightarrow> Some (2 + ucast n + m) | _ \<Rightarrow> None)"

definition writeDescriptors :: "'w BitsWriter \<Rightarrow> Descriptor list \<Rightarrow> ('w, error, int) writer" where
  "writeDescriptors W ds =
     wfor ds (\<lambda>d written. wbind (writeDescriptor W d) (\<lambda>n. wreturn (written + n))) 0"

definition writeDescriptorsWithLength :: "'w BitsWriter \<Rightarrow> Descriptor list \<Rightarrow> ('w, error, int) writer" where
  "writeDescriptorsWithLength W ds =
     wderef (calcDescriptorsLength ds) (\<lambda>len.
     wbind (writeBatch W [WrN (AU8 0xff) 4, WrN (AU16 len) 12]) (\<lambda>_.
     wbind (writeDescriptors W ds) (\<lambda>written.
     wreturn (written + 2))))"

end
