(* ===== verification/Descriptor_Format.thy ===== *)
theory Descriptor_Format
  imports Descriptor_Write
begin

text \<open>
  The wire format of descriptors. A descriptor of the code is a struct of pointers of which one is
  set, chosen by the tag; \<open>content\<close> is the sum type that this represents. Each
  constructor has its payload as a bit string, the struct that holds it, and the values for which
  the format is faithful. Local time offset descriptors, whose DVB times do not survive a round
  trip, are not among them.
\<close>

section \<open>Contents\<close>

datatype content =
    CUserDefined uint8 "byte list"
  | CAC3 DescriptorAC3
  | CAVCVideo DescriptorAVCVideo
  | CComponent DescriptorComponent
  | CContent "DescriptorContentItem list"
  | CDataStreamAlignment uint8
  | CEnhancedAC3 DescriptorEnhancedAC3
  | CExtendedEvent DescriptorExtendedEvent
  | CExtension DescriptorExtension
  | CISO639LanguageAndAudioType DescriptorISO639LanguageAndAudioType
  | CMaximumBitrate uint32
  | CNetworkName "byte list"
  | CParentalRating "DescriptorParentalRatingItem list"
  | CPrivateDataIndicator uint32
  | CPrivateDataSpecifier uint32
  | CRegistration DescriptorRegistration
  | CService DescriptorService
  | CShortEvent DescriptorShortEvent
  | CStreamIdentifier uint8
  | CSubtitling "DescriptorSubtitlingItem list"
  | CTeletext "DescriptorTeletextItem list"
  | CVBIData "DescriptorVBIDataService list"
  | CVBITeletext "DescriptorTeletextItem list"
  | CUnknown DescriptorUnknown

section \<open>Formats\<close>

definition opt_byte :: "bool \<Rightarrow> uint8 \<Rightarrow> bool list" where
  "opt_byte c x = (if c then bits_of 8 x else [])"

definition counted_bits :: "byte list \<Rightarrow> bool list" where
  "counted_bits bs = bits_of 8 (word_of_nat (length bs) :: uint8) @ bytes_to_bits bs"

definition ac3_bits :: "DescriptorAC3 \<Rightarrow> bool list" where
  "ac3_bits d = [ac3_HasComponentType d, ac3_HasBSID d, ac3_HasMainID d, ac3_HasASVC d, True, True, True, True] @
     opt_byte (ac3_HasComponentType d) (ac3_ComponentType d) @ opt_byte (ac3_HasBSID d) (ac3_BSID d) @
     opt_byte (ac3_HasMainID d) (ac3_MainID d) @ opt_byte (ac3_HasASVC d) (ac3_ASVC d) @
     bytes_to_bits (ac3_AdditionalInfo d)"

definition avc_bits :: "DescriptorAVCVideo \<Rightarrow> bool list" where
  "avc_bits d = bits_of 8 (avc_ProfileIDC d) @
     [avc_ConstraintSet0Flag d, avc_ConstraintSet1Flag d, avc_ConstraintSet2Flag d] @ bits_of 5 (avc_CompatibleFlags d) @
     bits_of 8 (avc_LevelIDC d) @
     [avc_AVCStillPresent d, avc_AVC24HourPictureFlag d, True, True, True, True, True, True]"

definition component_bits :: "DescriptorComponent \<Rightarrow> bool list" where
  "component_bits d = bits_of 4 (cmp_StreamContentExt d) @ bits_of 4 (cmp_StreamContent d) @
     bits_of 8 (cmp_ComponentType d) @ bits_of 8 (cmp_ComponentTag d) @
     bytes_to_bits (cmp_ISO639LanguageCode d) @ bytes_to_bits (cmp_Text d)"

definition content_item_bits :: "DescriptorContentItem \<Rightarrow> bool list" where
  "content_item_bits i =
     bits_of 4 (ci_ContentNibbleLevel1 i) @ bits_of 4 (ci_ContentNibbleLevel2 i) @ bits_of 8 (ci_UserByte i)"

definition eac3_bits :: "DescriptorEnhancedAC3 \<Rightarrow> bool list" where
  "eac3_bits d = [eac3_HasComponentType d, eac3_HasBSID d, eac3_HasMainID d, eac3_HasASVC d, eac3_MixInfoExists d,
       eac3_HasSubStream1 d, eac3_HasSubStream2 d, eac3_HasSubStream3 d] @
     opt_byte (eac3_HasComponentType d) (eac3_ComponentType d) @ opt_byte (eac3_HasBSID d) (eac3_BSID d) @
     opt_byte (eac3_HasMainID d) (eac3_MainID d) @ opt_byte (eac3_HasASVC d) (eac3_ASVC d) @
     opt_byte (eac3_HasSubStream1 d) (eac3_SubStream1 d) @ opt_byte (eac3_HasSubStream2 d) (eac3_SubStream2 d) @
     opt_byte (eac3_HasSubStream3 d) (eac3_SubStream3 d) @ bytes_to_bits (eac3_AdditionalInfo d)"

definition event_item_bits :: "DescriptorExtendedEventItem \<Rightarrow> bool list" where
  "event_item_bits i = counted_bits (eei_Description i) @ counted_bits (eei_Content i)"

definition extended_event_bits :: "DescriptorExtendedEvent \<Rightarrow> bool list" where
  "extended_event_bits d = bits_of 4 (ee_Number d) @ bits_of 4 (ee_LastDescriptorNumber d) @
     bytes_to_bits (ee_ISO639LanguageCode d) @ bits_of 8 (word_of_nat (extendedEventItemsLength (ee_Items d)) :: uint8) @
     concat (map event_item_bits (ee_Items d)) @ counted_bits (ee_Text d)"

definition supplementary_audio_bits :: "DescriptorExtensionSupplementaryAudio \<Rightarrow> bool list" where
  "supplementary_audio_bits d = [sa_MixType d] @ bits_of 5 (sa_EditorialClassification d) @ [True, sa_HasLanguageCode d] @
     (if sa_HasLanguageCode d then bytes_to_bits (sa_LanguageCode d) else []) @ bytes_to_bits (sa_PrivateData d)"

definition extension_bits :: "DescriptorExtension \<Rightarrow> bool list" where
  "extension_bits d = bits_of 8 (ext_Tag d) @
     (if ext_Tag d = DescriptorTagExtensionSupplementaryAudio
      then supplementary_audio_bits (the (ext_SupplementaryAudio d)) else bytes_to_bits (the (ext_Unknown d)))"

definition rating_item_bits :: "DescriptorParentalRatingItem \<Rightarrow> bool list" where
  "rating_item_bits i = bytes_to_bits (pr_CountryCode i) @ bits_of 8 (pr_Rating i)"

definition subtitling_item_bits :: "DescriptorSubtitlingItem \<Rightarrow> bool list" where
  "subtitling_item_bits i = bytes_to_bits (sub_Language i) @ bits_of 8 (sub_Type i) @
     bits_of 16 (sub_CompositionPageID i) @ bits_of 16 (sub_AncillaryPageID i)"

definition teletext_item_bits :: "DescriptorTeletextItem \<Rightarrow> bool list" where
  "teletext_item_bits i = bytes_to_bits (ttx_Language i) @ bits_of 5 (ttx_Type i) @ bits_of 3 (ttx_Magazine i) @
     bits_of 4 (ttx_Page i div 10) @ bits_of 4 (ttx_Page i mod 10)"

definition vbi_line_bits :: "DescriptorVBIDataDescriptor \<Rightarrow> bool list" where
  "vbi_line_bits d = [True, True, vbi_FieldParity d] @ bits_of 5 (vbi_LineOffset d)"

definition vbi_service_bits :: "DescriptorVBIDataService \<Rightarrow> bool list" where
  "vbi_service_bits s = bits_of 8 (vbi_DataServiceID s) @
     bits_of 8 (word_of_nat (length (vbi_Descriptors s)) :: uint8) @ concat (map vbi_line_bits (vbi_Descriptors s))"

fun payload_bits :: "content \<Rightarrow> bool list" where
  "payload_bits (CUserDefined tag bs) = bytes_to_bits bs"
| "payload_bits (CAC3 d) = ac3_bits d"
| "payload_bits (CAVCVideo d) = avc_bits d"
| "payload_bits (CComponent d) = component_bits d"
| "payload_bits (CContent is) = concat (map content_item_bits is)"
| "payload_bits (CDataStreamAlignment x) = bits_of 8 x"
| "payload_bits (CEnhancedAC3 d) = eac3_bits d"
| "payload_bits (CExtendedEvent d) = extended_event_bits d"
| "payload_bits (CExtension d) = extension_bits d"
| "payload_bits (CISO639LanguageAndAudioType d) = bytes_to_bits (iso_Language d) @ bits_of 8 (iso_Type d)"
| "payload_bits (CMaximumBitrate x) = [True, True] @ bits_of 22 (x div 50)"
| "payload_bits (CNetworkName bs) = bytes_to_bits bs"
| "payload_bits (CParentalRating is) = concat (map rating_item_bits is)"
| "payload_bits (CPrivateDataIndicator x) = bits_of 32 x"
| "payload_bits (CPrivateDataSpecifier x) = bits_of 32 x"
| "payload_bits (CRegistration d) = bits_of 32 (reg_FormatIdentifier d) @ bytes_to_bits (reg_AdditionalIdentificationInfo d)"
| "payload_bits (CService d) = bits_of 8 (srv_Type d) @ counted_bits (srv_Provider d) @ counted_bits (srv_Name d)"
| "payload_bits (CShortEvent d) = bytes_to_bits (se_Language d) @ counted_bits (se_EventName d) @ counted_bits (se_Text d)"
| "payload_bits (CStreamIdentifier x) = bits_of 8 x"
| "payload_bits (CSubtitling is) = concat (map subtitling_item_bits is)"
| "payload_bits (CTeletext is) = concat (map teletext_item_bits is)"
| "payload_bits (CVBIData ss) = concat (map vbi_service_bits ss)"
| "payload_bits (CVBITeletext is) = concat (map teletext_item_bits is)"
| "payload_bits (CUnknown d) = bytes_to_bits (unk_Content d)"

definition payload :: "content \<Rightarrow> byte list" where
  "payload c = bits_to_bytes (payload_bits c)"

section \<open>The struct of a content\<close>

fun content_tag :: "content \<Rightarrow> uint8" where
  "content_tag (CUserDefined tag bs) = tag"
| "content_tag (CAC3 d) = DescriptorTagAC3"
| "content_tag (CAVCVideo d) = DescriptorTagAVCVideo"
| "content_tag (CComponent d) = DescriptorTagComponent"
| "content_tag (CContent is) = DescriptorTagContent"
| "content_tag (CDataStreamAlignment x) = DescriptorTagDataStreamAlignment"
| "content_tag (CEnhancedAC3 d) = DescriptorTagEnhancedAC3"
| "content_tag (CExtendedEvent d) = DescriptorTagExtendedEvent"
| "content_tag (CExtension d) = DescriptorTagExtension"
| "content_tag (CISO639LanguageAndAudioType d) = DescriptorTagISO639LanguageAndAudioType"
| "content_tag (CMaximumBitrate x) = DescriptorTagMaximumBitrate"
| "content_tag (CNetworkName bs) = DescriptorTagNetworkName"
| "content_tag (CParentalRating is) = DescriptorTagParentalRating"
| "content_tag (CPrivateDataIndicator x) = DescriptorTagPrivateDataIndicator"
| "content_tag (CPrivateDataSpecifier x) = DescriptorTagPrivateDataSpecifier"
| "content_tag (CRegistration d) = DescriptorTagRegistration"
| "content_tag (CService d) = DescriptorTagService"
| "content_tag (CShortEvent d) = DescriptorTagShortEvent"
| "content_tag (CStreamIdentifier x) = DescriptorTagStreamIdentifier"
| "content_tag (CSubtitling is) = DescriptorTagSubtitling"
| "content_tag (CTeletext is) = DescriptorTagTeletext"
| "content_tag (CVBIData ss) = DescriptorTagVBIData"
| "content_tag (CVBITeletext is) = DescriptorTagVBITeletext"
| "content_tag (CUnknown d) = unk_Tag d"

fun set_content :: "content \<Rightarrow> Descriptor \<Rightarrow> Descriptor" where
  "set_content (CUserDefined tag bs) d = d\<lparr>dsc_UserDefined := bs\<rparr>"
| "set_content (CAC3 x) d = d\<lparr>dsc_AC3 := Some x\<rparr>"
| "set_content (CAVCVideo x) d = d\<lparr>dsc_AVCVideo := Some x\<rparr>"
| "set_content (CComponent x) d = d\<lparr>dsc_Component := Some x\<rparr>"
| "set_content (CContent x) d = d\<lparr>dsc_Content := Some x\<rparr>"
| "set_content (CDataStreamAlignment x) d = d\<lparr>dsc_DataStreamAlignment := Some x\<rparr>"
| "set_content (CEnhancedAC3 x) d = d\<lparr>dsc_EnhancedAC3 := Some x\<rparr>"
| "set_content (CExtendedEvent x) d = d\<lparr>dsc_ExtendedEvent := Some x\<rparr>"
| "set_content (CExtension x) d = d\<lparr>dsc_Extension := Some x\<rparr>"
| "set_content (CISO639LanguageAndAudioType x) d = d\<lparr>dsc_ISO639LanguageAndAudioType := Some x\<rparr>"
| "set_content (CMaximumBitrate x) d = d\<lparr>dsc_MaximumBitrate := Some x\<rparr>"
| "set_content (CNetworkName x) d = d\<lparr>dsc_NetworkName := Some x\<rparr>"
| "set_content (CParentalRating x) d = d\<lparr>dsc_ParentalRating := Some x\<rparr>"
| "set_content (CPrivateDataIndicator x) d = d\<lparr>dsc_PrivateDataIndicator := Some x\<rparr>"
| "set_content (CPrivateDataSpecifier x) d = d\<lparr>dsc_PrivateDataSpecifier := Some x\<rparr>"
| "set_content (CRegistration x) d = d\<lparr>dsc_Registration := Some x\<rparr>"
| "set_content (CService x) d = d\<lparr>dsc_Service := Some x\<rparr>"
| "set_content (CShortEvent x) d = d\<lparr>dsc_ShortEvent := Some x\<rparr>"
| "set_content (CStreamIdentifier x) d = d\<lparr>dsc_StreamIdentifier := Some x\<rparr>"
| "set_content (CSubtitling x) d = d\<lparr>dsc_Subtitling := Some x\<rparr>"
| "set_content (CTeletext x) d = d\<lparr>dsc_Teletext := Some x\<rparr>"
| "set_content (CVBIData x) d = d\<lparr>dsc_VBIData := Some x\<rparr>"
| "set_content (CVBITeletext x) d = d\<lparr>dsc_VBITeletext := Some x\<rparr>"
| "set_content (CUnknown x) d = d\<lparr>dsc_Unknown := Some x\<rparr>"

text \<open>The \<^verbatim>\<open>Descriptor\<close> that holds a content, with the length of its payload.\<close>

definition descriptor_of :: "content \<Rightarrow> Descriptor" where
  "descriptor_of c = set_content c (newDescriptor (content_tag c) (word_of_nat (length (payload c))))"

section \<open>Well-formed contents\<close>

text \<open>
  The values that the wire format can carry: fields that fit their width, language and country codes of
  three bytes, absent fields at their zero value. A VBI service has one line, which is what
  \<^verbatim>\<open>calcDescriptorVBIDataLength\<close> counts.
\<close>

definition optional_field :: "bool \<Rightarrow> 'a::zero \<Rightarrow> bool" where
  "optional_field c x \<longleftrightarrow> (\<not> c \<longrightarrow> x = 0)"

fun wf_payload :: "content \<Rightarrow> bool" where
  "wf_payload (CUserDefined tag bs) \<longleftrightarrow> 0x80 \<le> tag \<and> tag \<le> 0xfe"
| "wf_payload (CAC3 d) \<longleftrightarrow>
     optional_field (ac3_HasComponentType d) (ac3_ComponentType d) \<and> optional_field (ac3_HasBSID d) (ac3_BSID d) \<and>
     optional_field (ac3_HasMainID d) (ac3_MainID d) \<and> optional_field (ac3_HasASVC d) (ac3_ASVC d)"
| "wf_payload (CAVCVideo d) \<longleftrightarrow> fits 5 (avc_CompatibleFlags d)"
| "wf_payload (CComponent d) \<longleftrightarrow> fits 4 (cmp_StreamContentExt d) \<and> fits 4 (cmp_StreamContent d) \<and>
     length (cmp_ISO639LanguageCode d) = 3"
| "wf_payload (CContent is) \<longleftrightarrow>
     (\<forall>i\<in>set is. fits 4 (ci_ContentNibbleLevel1 i) \<and> fits 4 (ci_ContentNibbleLevel2 i))"
| "wf_payload (CEnhancedAC3 d) \<longleftrightarrow>
     optional_field (eac3_HasComponentType d) (eac3_ComponentType d) \<and> optional_field (eac3_HasBSID d) (eac3_BSID d) \<and>
     optional_field (eac3_HasMainID d) (eac3_MainID d) \<and> optional_field (eac3_HasASVC d) (eac3_ASVC d) \<and>
     optional_field (eac3_HasSubStream1 d) (eac3_SubStream1 d) \<and> optional_field (eac3_HasSubStream2 d) (eac3_SubStream2 d) \<and>
     optional_field (eac3_HasSubStream3 d) (eac3_SubStream3 d)"
| "wf_payload (CExtendedEvent d) \<longleftrightarrow> fits 4 (ee_Number d) \<and> fits 4 (ee_LastDescriptorNumber d) \<and>
     length (ee_ISO639LanguageCode d) = 3"
| "wf_payload (CExtension d) \<longleftrightarrow>
     (if ext_Tag d = DescriptorTagExtensionSupplementaryAudio
      then ext_Unknown d = None \<and> (\<exists>a. ext_SupplementaryAudio d = Some a \<and> fits 5 (sa_EditorialClassification a) \<and>
        length (sa_LanguageCode a) = (if sa_HasLanguageCode a then 3 else 0))
      else ext_SupplementaryAudio d = None \<and> ext_Unknown d \<noteq> None)"
| "wf_payload (CISO639LanguageAndAudioType d) \<longleftrightarrow> length (iso_Language d) = 3"
| "wf_payload (CMaximumBitrate x) \<longleftrightarrow> fits 22 (x div 50) \<and> x mod 50 = 0"
| "wf_payload (CParentalRating is) \<longleftrightarrow> (\<forall>i\<in>set is. length (pr_CountryCode i) = 3)"
| "wf_payload (CShortEvent d) \<longleftrightarrow> length (se_Language d) = 3"
| "wf_payload (CSubtitling is) \<longleftrightarrow> (\<forall>i\<in>set is. length (sub_Language i) = 3)"
| "wf_payload (CTeletext is) \<longleftrightarrow>
     (\<forall>i\<in>set is. length (ttx_Language i) = 3 \<and> fits 5 (ttx_Type i) \<and> fits 3 (ttx_Magazine i) \<and> ttx_Page i < 100)"
| "wf_payload (CVBITeletext is) \<longleftrightarrow>
     (\<forall>i\<in>set is. length (ttx_Language i) = 3 \<and> fits 5 (ttx_Type i) \<and> fits 3 (ttx_Magazine i) \<and> ttx_Page i < 100)"
| "wf_payload (CVBIData ss) \<longleftrightarrow>
     (\<forall>s\<in>set ss. isVBILineService (vbi_DataServiceID s) \<and> length (vbi_Descriptors s) = 1 \<and>
        (\<forall>d\<in>set (vbi_Descriptors s). fits 5 (vbi_LineOffset d)))"
| "wf_payload (CUnknown d) \<longleftrightarrow> (unk_Tag d < 0x80 \<or> 0xfe < unk_Tag d) \<and>
     unk_Tag d \<notin> {DescriptorTagAC3, DescriptorTagAVCVideo, DescriptorTagComponent, DescriptorTagContent,
       DescriptorTagDataStreamAlignment, DescriptorTagEnhancedAC3, DescriptorTagExtendedEvent, DescriptorTagExtension,
       DescriptorTagISO639LanguageAndAudioType, DescriptorTagLocalTimeOffset, DescriptorTagMaximumBitrate,
       DescriptorTagNetworkName, DescriptorTagParentalRating, DescriptorTagPrivateDataIndicator,
       DescriptorTagPrivateDataSpecifier, DescriptorTagRegistration, DescriptorTagService, DescriptorTagShortEvent,
       DescriptorTagStreamIdentifier, DescriptorTagSubtitling, DescriptorTagTeletext, DescriptorTagVBIData,
       DescriptorTagVBITeletext}"
| "wf_payload _ \<longleftrightarrow> True"

definition wf_content :: "content \<Rightarrow> bool" where
  "wf_content c \<longleftrightarrow> wf_payload c \<and> 0 < length (payload c) \<and> length (payload c) < 256"

lemmas descriptor_tags = DescriptorTagAC3_def DescriptorTagAVCVideo_def DescriptorTagComponent_def
  DescriptorTagContent_def DescriptorTagDataStreamAlignment_def DescriptorTagEnhancedAC3_def
  DescriptorTagExtendedEvent_def DescriptorTagExtension_def DescriptorTagISO639LanguageAndAudioType_def
  DescriptorTagLocalTimeOffset_def DescriptorTagMaximumBitrate_def DescriptorTagNetworkName_def
  DescriptorTagParentalRating_def DescriptorTagPrivateDataIndicator_def DescriptorTagPrivateDataSpecifier_def
  DescriptorTagRegistration_def DescriptorTagService_def DescriptorTagShortEvent_def
  DescriptorTagStreamIdentifier_def DescriptorTagSubtitling_def DescriptorTagTeletext_def DescriptorTagVBIData_def
  DescriptorTagVBITeletext_def

end
