(* ===== verification/Descriptor_Emits.thy ===== *)
theory Descriptor_Emits
  imports Descriptor_Format
begin

text \<open>
  What the serialisers of descriptors write: each emits the payload of its format, and the length
  byte announces the payload's length.
\<close>

section \<open>Serialising\<close>

lemma newDescriptor_simps [simp]:
  "dsc_Tag (newDescriptor tag len) = tag" "dsc_UserDefined (newDescriptor tag len) = []"
  "dsc_Length (newDescriptor tag len) = len"
  by (simp_all add: newDescriptor_def)

lemma dsc_Tag_descriptor_of [simp]: "dsc_Tag (descriptor_of c) = content_tag c"
  by (cases c) (simp_all add: descriptor_of_def)

text \<open>Language and country codes of three bytes are written as they are.\<close>

lemma code_bits: "length bs = 3 \<Longrightarrow> wcmd_bits (WrBytesN bs 3 pad) = bytes_to_bits bs"
  by simp

lemma ones_bits:
  "bits_of 2 (0xff :: uint8) = [True, True]" "bits_of 4 (0xff :: uint8) = [True, True, True, True]"
  "bits_of 6 (0xff :: uint8) = [True, True, True, True, True, True]"
  by simp_all

text \<open>A loop of writes over items.\<close>

lemma items_bits: "concat (map f (concat (map g xs))) = concat (map (\<lambda>x. concat (map f (g x))) xs)"
  by (induction xs) simp_all

context bits_writer
begin

lemma emits_writeBatch: "emits view (writeBatch W cmds) (concat (map wcmd_bits cmds)) ()"
  unfolding writeBatch_def by (rule emits_conv, rule emits_wbind[OF emits_batch], rule emits_wdone) simp_all

lemma emits_writeBatch_conv: "concat (map wcmd_bits cmds) = xs \<Longrightarrow> emits view (writeBatch W cmds) xs ()"
  using emits_writeBatch by blast

lemma emits_writeDescriptorExtension:
  assumes "wf_payload (CExtension d)"
  shows "emits view (writeDescriptorExtension W d) (payload_bits (CExtension d)) ()"
proof (cases "ext_Tag d = DescriptorTagExtensionSupplementaryAudio")
  case True
  with assms obtain a where a: "ext_SupplementaryAudio d = Some a"
    "length (sa_LanguageCode a) = (if sa_HasLanguageCode a then 3 else 0)" by auto
  have "emits view (writeDescriptorExtensionSupplementaryAudio W a) (supplementary_audio_bits a) ()"
    unfolding writeDescriptorExtensionSupplementaryAudio_def
    by (rule emits_writeBatch_conv) (use a in \<open>simp add: supplementary_audio_bits_def code_bits\<close>)
  then have "emits view (writeDescriptorExtension W d)
      (concat (map wcmd_bits [Wr (AU8 (ext_Tag d))]) @ supplementary_audio_bits a @ []) ()"
    unfolding writeDescriptorExtension_def a(1) if_P[OF True]
    by (intro emits_wbind[OF emits_batch] emits_wbind emits_wderef emits_wdone)
  then show ?thesis by (rule emits_conv) (simp_all add: extension_bits_def True a(1))
next
  case False
  with assms obtain u where u: "ext_Unknown d = Some u" by auto
  have "emits view (writeDescriptorExtension W d)
      (concat (map wcmd_bits [Wr (AU8 (ext_Tag d))]) @ concat (map wcmd_bits [Wr (ABytes u)]) @ []) ()"
    unfolding writeDescriptorExtension_def u option.case if_not_P[OF False]
    by (intro emits_wbind[OF emits_batch] emits_wdone)
  then show ?thesis by (rule emits_conv) (simp_all add: extension_bits_def False u)
qed



lemma emits_writeDescriptorUserDefined: "emits view (writeDescriptorUserDefined W bs) (payload_bits (CUserDefined tag bs)) ()"
  unfolding writeDescriptorUserDefined_def by (rule emits_writeBatch_conv) simp

lemma emits_writeDescriptorAC3: "emits view (writeDescriptorAC3 W d) (payload_bits (CAC3 d)) ()"
  unfolding writeDescriptorAC3_def
  by (rule emits_writeBatch_conv) (simp add: ac3_bits_def opt_byte_def ones_bits del: bits_of_numeral)

lemma emits_writeDescriptorAVCVideo: "emits view (writeDescriptorAVCVideo W d) (payload_bits (CAVCVideo d)) ()"
  unfolding writeDescriptorAVCVideo_def
  by (rule emits_writeBatch_conv) (simp add: avc_bits_def ones_bits del: bits_of_numeral)

lemma emits_writeDescriptorComponent:
  "wf_payload (CComponent d) \<Longrightarrow> emits view (writeDescriptorComponent W d) (payload_bits (CComponent d)) ()"
  unfolding writeDescriptorComponent_def
  by (rule emits_writeBatch_conv) (simp add: component_bits_def del: bits_of_numeral)

lemma emits_writeDescriptorContent: "emits view (writeDescriptorContent W is) (payload_bits (CContent is)) ()"
  unfolding writeDescriptorContent_def
  by (rule emits_writeBatch_conv) (simp add: items_bits content_item_bits_def[abs_def] del: bits_of_numeral)

lemma emits_writeDescriptorDataStreamAlignment:
  "emits view (writeDescriptorDataStreamAlignment W x) (payload_bits (CDataStreamAlignment x)) ()"
  unfolding writeDescriptorDataStreamAlignment_def by (rule emits_writeBatch_conv) simp

lemma emits_writeDescriptorEnhancedAC3: "emits view (writeDescriptorEnhancedAC3 W d) (payload_bits (CEnhancedAC3 d)) ()"
  unfolding writeDescriptorEnhancedAC3_def
  by (rule emits_writeBatch_conv) (simp add: eac3_bits_def opt_byte_def del: bits_of_numeral)

lemma emits_writeDescriptorExtendedEvent:
  "wf_payload (CExtendedEvent d) \<Longrightarrow> emits view (writeDescriptorExtendedEvent W d) (payload_bits (CExtendedEvent d)) ()"
  unfolding writeDescriptorExtendedEvent_def
  by (rule emits_writeBatch_conv)
    (simp add: extended_event_bits_def items_bits event_item_bits_def[abs_def] counted_bits_def
      calcDescriptorExtendedEventLength_def Let_def del: bits_of_numeral)

lemma emits_writeDescriptorISO639LanguageAndAudioType:
  "wf_payload (CISO639LanguageAndAudioType d) \<Longrightarrow>
    emits view (writeDescriptorISO639LanguageAndAudioType W d) (payload_bits (CISO639LanguageAndAudioType d)) ()"
  unfolding writeDescriptorISO639LanguageAndAudioType_def
  by (rule emits_writeBatch_conv) (simp del: bits_of_numeral)

lemma emits_writeDescriptorMaximumBitrate:
  "emits view (writeDescriptorMaximumBitrate W x) (payload_bits (CMaximumBitrate x)) ()"
  unfolding writeDescriptorMaximumBitrate_def by (rule emits_writeBatch_conv) (simp add: ones_bits del: bits_of_numeral)

lemma emits_writeDescriptorNetworkName: "emits view (writeDescriptorNetworkName W bs) (payload_bits (CNetworkName bs)) ()"
  unfolding writeDescriptorNetworkName_def by (rule emits_writeBatch_conv) simp

lemma emits_writeDescriptorParentalRating:
  "wf_payload (CParentalRating is) \<Longrightarrow> emits view (writeDescriptorParentalRating W is) (payload_bits (CParentalRating is)) ()"
  unfolding writeDescriptorParentalRating_def
  by (rule emits_writeBatch_conv) (auto simp: items_bits rating_item_bits_def simp del: bits_of_numeral cong: map_cong)

lemma emits_writeDescriptorPrivateDataIndicator:
  "emits view (writeDescriptorPrivateDataIndicator W x) (payload_bits (CPrivateDataIndicator x)) ()"
  unfolding writeDescriptorPrivateDataIndicator_def by (rule emits_writeBatch_conv) (simp del: bits_of_numeral)

lemma emits_writeDescriptorPrivateDataSpecifier:
  "emits view (writeDescriptorPrivateDataSpecifier W x) (payload_bits (CPrivateDataSpecifier x)) ()"
  unfolding writeDescriptorPrivateDataSpecifier_def by (rule emits_writeBatch_conv) (simp del: bits_of_numeral)

lemma emits_writeDescriptorRegistration:
  "emits view (writeDescriptorRegistration W d) (payload_bits (CRegistration d)) ()"
  unfolding writeDescriptorRegistration_def by (rule emits_writeBatch_conv) (simp del: bits_of_numeral)

lemma emits_writeDescriptorService: "emits view (writeDescriptorService W d) (payload_bits (CService d)) ()"
  unfolding writeDescriptorService_def by (rule emits_writeBatch_conv) (simp add: counted_bits_def del: bits_of_numeral)

lemma emits_writeDescriptorShortEvent:
  "wf_payload (CShortEvent d) \<Longrightarrow> emits view (writeDescriptorShortEvent W d) (payload_bits (CShortEvent d)) ()"
  unfolding writeDescriptorShortEvent_def
  by (rule emits_writeBatch_conv) (simp add: counted_bits_def del: bits_of_numeral)

lemma emits_writeDescriptorStreamIdentifier:
  "emits view (writeDescriptorStreamIdentifier W x) (payload_bits (CStreamIdentifier x)) ()"
  unfolding writeDescriptorStreamIdentifier_def by (rule emits_writeBatch_conv) simp

lemma emits_writeDescriptorSubtitling:
  "wf_payload (CSubtitling is) \<Longrightarrow> emits view (writeDescriptorSubtitling W is) (payload_bits (CSubtitling is)) ()"
  unfolding writeDescriptorSubtitling_def
  by (rule emits_writeBatch_conv) (auto simp: items_bits subtitling_item_bits_def simp del: bits_of_numeral cong: map_cong)

lemma emits_writeDescriptorTeletext:
  "wf_payload (CTeletext is) \<Longrightarrow> emits view (writeDescriptorTeletext W is) (concat (map teletext_item_bits is)) ()"
  unfolding writeDescriptorTeletext_def
  by (rule emits_writeBatch_conv) (auto simp: items_bits teletext_item_bits_def simp del: bits_of_numeral cong: map_cong)

lemma emits_writeDescriptorVBIData:
  "wf_payload (CVBIData ss) \<Longrightarrow> emits view (writeDescriptorVBIData W ss) (payload_bits (CVBIData ss)) ()"
  unfolding writeDescriptorVBIData_def
  by (rule emits_writeBatch_conv)
    (auto simp: items_bits vbi_service_bits_def vbi_line_bits_def ones_bits simp del: bits_of_numeral cong: map_cong)

lemma emits_writeDescriptorUnknown: "emits view (writeDescriptorUnknown W d) (payload_bits (CUnknown d)) ()"
  unfolding writeDescriptorUnknown_def by (rule emits_writeBatch_conv) simp

lemmas emits_descriptor_writers = emits_writeDescriptorAC3 emits_writeDescriptorAVCVideo
  emits_writeDescriptorComponent emits_writeDescriptorContent emits_writeDescriptorDataStreamAlignment
  emits_writeDescriptorEnhancedAC3 emits_writeDescriptorExtendedEvent emits_writeDescriptorExtension
  emits_writeDescriptorISO639LanguageAndAudioType emits_writeDescriptorMaximumBitrate emits_writeDescriptorNetworkName
  emits_writeDescriptorParentalRating emits_writeDescriptorPrivateDataIndicator
  emits_writeDescriptorPrivateDataSpecifier emits_writeDescriptorRegistration emits_writeDescriptorService
  emits_writeDescriptorShortEvent emits_writeDescriptorStreamIdentifier emits_writeDescriptorSubtitling
  emits_writeDescriptorVBIData emits_writeDescriptorUnknown

lemma emits_writeDescriptorData:
  assumes "wf_payload c"
  shows "emits view (writeDescriptorData W (descriptor_of c)) (payload_bits c) ()"
proof (cases c)
  case (CUserDefined tag bs)
  with assms emits_writeDescriptorUserDefined[of bs tag] show ?thesis
    by (simp add: writeDescriptorData_def descriptor_of_def)
next
  case (CTeletext xs)
  with assms emits_writeDescriptorTeletext[of xs] show ?thesis
    by (simp add: writeDescriptorData_def descriptor_of_def descriptor_tags wderef_def del: wf_payload.simps)
next
  case (CVBITeletext xs)
  with assms emits_writeDescriptorTeletext[of xs] show ?thesis
    by (simp add: writeDescriptorData_def descriptor_of_def descriptor_tags wderef_def)
next
  case (CUnknown d)
  with assms emits_writeDescriptorUnknown[of d] show ?thesis
    by (auto simp: writeDescriptorData_def descriptor_of_def wderef_def Let_def)
qed (use assms in \<open>simp_all add: writeDescriptorData_def descriptor_of_def descriptor_tags wderef_def emits_descriptor_writers
  del: wf_payload.simps payload_bits.simps\<close>)

end


section \<open>Lengths\<close>

lemma length_opt_byte [simp]: "length (opt_byte c x) = (if c then 8 else 0)"
  by (simp add: opt_byte_def)

lemma length_counted_bits [simp]: "length (counted_bits bs) = 8 * (1 + length bs)"
  by (simp add: counted_bits_def del: bits_of_numeral)

lemma length_items: "(\<And>x. x \<in> set xs \<Longrightarrow> length (f x) = n) \<Longrightarrow> length (concat (map f xs)) = n * length xs"
  by (induction xs) simp_all

lemma length_event_items: "length (concat (map event_item_bits xs)) = 8 * extendedEventItemsLength xs"
  by (induction xs) (simp_all add: event_item_bits_def extendedEventItemsLength_def)

lemma length_teletext_items:
  "wf_payload (CTeletext xs) \<Longrightarrow> length (concat (map teletext_item_bits xs)) = 40 * length xs"
  by (rule length_items) (auto simp: teletext_item_bits_def simp del: bits_of_numeral)

lemma length_vbi_service:
  "length (vbi_Descriptors s) = 1 \<Longrightarrow> length (vbi_service_bits s) = 24"
  by (auto simp: vbi_service_bits_def vbi_line_bits_def length_Suc_conv simp del: bits_of_numeral)

lemma extension_length:
  assumes "wf_payload (CExtension d)"
  shows "calcDescriptorExtensionLength d = Some (word_of_nat (length (payload (CExtension d))))"
proof (cases "ext_Tag d = DescriptorTagExtensionSupplementaryAudio")
  case True
  with assms obtain a where a: "ext_SupplementaryAudio d = Some a"
    "length (sa_LanguageCode a) = (if sa_HasLanguageCode a then 3 else 0)" by auto
  with True show ?thesis
    by (simp add: calcDescriptorExtensionLength_def payload_def extension_bits_def supplementary_audio_bits_def
        calcDescriptorExtensionSupplementaryAudioLength_def del: bits_of_numeral)
next
  case False
  with assms obtain u where u: "ext_Unknown d = Some u" by auto
  with False show ?thesis
    by (simp add: calcDescriptorExtensionLength_def payload_def extension_bits_def del: bits_of_numeral)
qed

text \<open>The length byte is the length of the payload, modulo 256.\<close>

lemma payload_length:
  assumes "wf_payload c"
  shows "calcDescriptorLength (descriptor_of c) = Some (word_of_nat (length (payload c)))"
proof (cases c)
  case (CUnknown d)
  with assms show ?thesis
    by (auto simp: calcDescriptorLength_def descriptor_of_def Let_def calcDescriptorUnknownLength_def payload_def)
next
  case (CExtension d)
  then have "calcDescriptorLength (descriptor_of c) = calcDescriptorExtensionLength d"
    by (simp add: calcDescriptorLength_def descriptor_of_def descriptor_tags)
  with CExtension assms show ?thesis by (simp add: extension_length)
next
  case (CVBIData ss)
  with assms have "length (concat (map vbi_service_bits ss)) = 24 * length ss"
    by (intro length_items) (simp add: length_vbi_service)
  with CVBIData show ?thesis
    by (simp add: calcDescriptorLength_def descriptor_of_def descriptor_tags payload_def calcDescriptorVBIDataLength_def)
next
  case (CContent xs)
  moreover have "length (concat (map content_item_bits xs)) = 16 * length xs"
    by (intro length_items) (simp add: content_item_bits_def del: bits_of_numeral)
  ultimately show ?thesis
    by (simp add: calcDescriptorLength_def descriptor_of_def descriptor_tags payload_def calcDescriptorContentLength_def)
next
  case (CParentalRating xs)
  with assms have "length (concat (map rating_item_bits xs)) = 32 * length xs"
    by (intro length_items) (simp add: rating_item_bits_def del: bits_of_numeral)
  with CParentalRating show ?thesis
    by (simp add: calcDescriptorLength_def descriptor_of_def descriptor_tags payload_def calcDescriptorParentalRatingLength_def)
next
  case (CSubtitling xs)
  with assms have "length (concat (map subtitling_item_bits xs)) = 64 * length xs"
    by (intro length_items) (simp add: subtitling_item_bits_def del: bits_of_numeral)
  with CSubtitling show ?thesis
    by (simp add: calcDescriptorLength_def descriptor_of_def descriptor_tags payload_def calcDescriptorSubtitlingLength_def)
next
  case (CTeletext xs)
  with assms length_teletext_items[of xs] show ?thesis
    by (simp add: calcDescriptorLength_def descriptor_of_def descriptor_tags payload_def calcDescriptorTeletextLength_def)
next
  case (CVBITeletext xs)
  with assms length_teletext_items[of xs] show ?thesis
    by (simp add: calcDescriptorLength_def descriptor_of_def descriptor_tags payload_def calcDescriptorTeletextLength_def)
next
  case (CExtendedEvent d)
  with assms show ?thesis
    by (simp add: calcDescriptorLength_def descriptor_of_def descriptor_tags payload_def extended_event_bits_def
        calcDescriptorExtendedEventLength_def Let_def length_event_items del: bits_of_numeral)
qed (use assms in \<open>simp_all add: calcDescriptorLength_def descriptor_of_def descriptor_tags payload_def
    calcDescriptorUserDefinedLength_def calcDescriptorAC3Length_def calcDescriptorAVCVideoLength_def
    calcDescriptorComponentLength_def calcDescriptorDataStreamAlignmentLength_def calcDescriptorEnhancedAC3Length_def
    calcDescriptorISO639LanguageAndAudioTypeLength_def calcDescriptorMaximumBitrateLength_def
    calcDescriptorNetworkNameLength_def calcDescriptorPrivateDataIndicatorLength_def
    calcDescriptorPrivateDataSpecifierLength_def calcDescriptorRegistrationLength_def calcDescriptorServiceLength_def
    calcDescriptorShortEventLength_def calcDescriptorStreamIdentifierLength_def
    ac3_bits_def avc_bits_def component_bits_def eac3_bits_def del: bits_of_numeral\<close>)

end
