(* ===== verification/Descriptor_Reads.thy ===== *)
theory Descriptor_Reads
  imports Descriptor_Emits
begin

text \<open>
  What the parsers of descriptors read: on the payload of a well-formed content each returns that
  content and stops at its end.
\<close>

section \<open>Parsing\<close>

lemma reads_fetchRest: "stop = off + int (length xs) \<Longrightarrow> reads (fetchRest refIterator stop) bs off xs xs"
proof -
  assume stop: "stop = off + int (length xs)"
  have "reads (pwhen (off < stop) [] (fetchBytes refIterator (stop - off))) bs off xs xs"
    by (cases "xs = []") (use stop in \<open>auto simp: pwhen_def intro: reads_intros\<close>)
  then have "reads (fetchRest refIterator stop) bs off ([] @ xs) xs"
    unfolding fetchRest_def by (intro reads_pbind[OF reads_offset]) simp
  then show ?thesis by simp
qed

lemma reads_fetchTo: "stop = off + int (length xs) \<Longrightarrow> reads (fetchTo refIterator stop) bs off xs xs"
  unfolding fetchTo_def by (rule reads_conv, rule reads_pbind[OF reads_offset], rule reads_fetchBytes) simp_all

lemma reads_fetchCounted:
  assumes "length xs < 256"
  shows "reads (fetchCounted refIterator) bs off (word_of_nat (length xs) # xs) xs"
proof -
  have "uint (word_of_nat (length xs) :: byte) = int (length xs)"
    using assms by (simp add: unsigned_of_nat take_bit_nat_eq_self_iff)
  then have "reads (fetchCounted refIterator) bs off ([word_of_nat (length xs)] @ xs) xs"
    unfolding fetchCounted_def by (intro reads_pbind[OF reads_fetchByte] reads_fetchBytes)
  then show ?thesis by simp
qed

lemma reads_fetchUint16: "reads (fetchUint16 refIterator) bs off (bits_to_bytes (bits_of 16 x)) x"
  unfolding fetchUint16_def by (rule reads_fetch_return) (simp_all add: word_eq_bits bit_simps)

lemma reads_fetchUint32: "reads (fetchUint32 refIterator) bs off (bits_to_bytes (bits_of 32 x)) x"
  unfolding fetchUint32_def by (rule reads_fetch_return) (simp_all add: word_eq_bits bit_simps)

text \<open>An optional byte.\<close>

definition obyte :: "bool \<Rightarrow> uint8 \<Rightarrow> byte list" where
  "obyte c x = (if c then [x] else [])"

lemma reads_obyte: "optional_field c x \<Longrightarrow> reads (pwhen c 0 (fetchByte refIterator)) bs off (obyte c x) x"
  by (cases c) (simp_all add: pwhen_def obyte_def optional_field_def reads_fetchByte reads_preturn)

text \<open>A loop over items.\<close>

lemma fold_snoc_map: "fold (\<lambda>x xs. xs @ [f x]) xs ys = ys @ map f xs"
  by (induction xs arbitrary: ys) simp_all

lemma reads_parseItems_map:
  assumes "\<And>x off. x \<in> set xs \<Longrightarrow> reads p bs off (enc x) (f x)" and "\<And>x. x \<in> set xs \<Longrightarrow> enc x \<noteq> []"
    and "stop = off + int (length (concat (map enc xs)))"
  shows "reads (parseItems refIterator stop p) bs off (concat (map enc xs)) (map f xs)"
proof -
  have "reads (pbind p (\<lambda>x. preturn (a @ [x]))) bs off (enc x @ []) (a @ [f x])" if "x \<in> set xs" for x off a
    by (rule reads_pbind[OF assms(1)[OF that]]) (rule reads_preturn)
  then show ?thesis
    using reads_pwhile[of xs "\<lambda>xs. pbind p (\<lambda>x. preturn (xs @ [x]))" bs enc "\<lambda>x xs. xs @ [f x]" off stop "[]"] assms(2,3)
    unfolding parseItems_def by (simp add: fold_snoc_map)
qed

lemma reads_parseItems:
  assumes "\<And>x off. x \<in> set xs \<Longrightarrow> reads p bs off (enc x) x" and "\<And>x. x \<in> set xs \<Longrightarrow> enc x \<noteq> []"
    and "stop = off + int (length (concat (map enc xs)))"
  shows "reads (parseItems refIterator stop p) bs off (concat (map enc xs)) xs"
  using reads_parseItems_map[of xs p bs enc "\<lambda>x. x"] assms by simp

text \<open>Bytes of the pieces of a format.\<close>

lemma bits_to_bytes_pieces:
  "bits_to_bytes (opt_byte c x @ ys) = obyte c x @ bits_to_bytes ys"
  "bits_to_bytes (bytes_to_bits bs @ ys) = bs @ bits_to_bytes ys"
  "bits_to_bytes (bits_of 8 x @ ys) = x # bits_to_bytes ys"
  "bits_to_bytes (bits_of 16 y @ ys) = bits_to_bytes (bits_of 16 y) @ bits_to_bytes ys"
  "bits_to_bytes (bits_of 32 z @ ys) = bits_to_bytes (bits_of 32 z) @ bits_to_bytes ys"
  "bits_to_bytes (counted_bits bs @ ys) = word_of_nat (length bs) # bs @ bits_to_bytes ys"
  by (simp_all add: opt_byte_def obyte_def bits_to_bytes_aligned byte8_bits counted_bits_def)

lemma bits_to_bytes_nibbles:
  "bits_to_bytes (bits_of 4 x @ bits_of 4 y @ ys) =
    byte8 (bit x 3) (bit x 2) (bit x 1) (bit x 0) (bit y 3) (bit y 2) (bit y 1) (bit y 0) # bits_to_bytes ys"
  by simp

lemma bits_to_bytes_items:
  "(\<And>x. x \<in> set xs \<Longrightarrow> length (f x) mod 8 = 0) \<Longrightarrow>
    bits_to_bytes (concat (map f xs) @ ys) = concat (map (\<lambda>x. bits_to_bytes (f x)) xs) @ bits_to_bytes ys"
  by (induction xs) (simp_all add: bits_to_bytes_aligned)


text \<open>Each parser on its own format.\<close>

lemma payload_ac3: "payload (CAC3 d) =
    [byte8 (ac3_HasComponentType d) (ac3_HasBSID d) (ac3_HasMainID d) (ac3_HasASVC d) True True True True] @
    obyte (ac3_HasComponentType d) (ac3_ComponentType d) @ obyte (ac3_HasBSID d) (ac3_BSID d) @
    obyte (ac3_HasMainID d) (ac3_MainID d) @ obyte (ac3_HasASVC d) (ac3_ASVC d) @ ac3_AdditionalInfo d @ []"
  by (simp add: payload_def ac3_bits_def bits_to_bytes_pieces)

lemma reads_newDescriptorAC3:
  assumes "wf_payload (CAC3 d)" and "stop = off + int (length (payload (CAC3 d)))"
  shows "reads (newDescriptorAC3 refIterator stop) bs off (payload (CAC3 d)) d"
  using assms unfolding newDescriptorAC3_def payload_ac3
  by (intro reads_pbind[OF reads_fetchByte]) (simp only: flag_bit bit_byte8_simps wf_payload.simps,
    intro reads_pbind[OF reads_obyte] reads_pbind[OF reads_fetchRest] reads_conv[OF reads_preturn], simp_all)

lemma reads_newDescriptorAVCVideo:
  assumes "wf_payload (CAVCVideo d)"
  shows "reads (newDescriptorAVCVideo refIterator) bs off (payload (CAVCVideo d)) d"
proof -
  have "payload (CAVCVideo d) = [avc_ProfileIDC d] @
      [byte8 (avc_ConstraintSet0Flag d) (avc_ConstraintSet1Flag d) (avc_ConstraintSet2Flag d) (bit (avc_CompatibleFlags d) 4)
        (bit (avc_CompatibleFlags d) 3) (bit (avc_CompatibleFlags d) 2) (bit (avc_CompatibleFlags d) 1) (bit (avc_CompatibleFlags d) 0)] @
      [avc_LevelIDC d] @ [byte8 (avc_AVCStillPresent d) (avc_AVC24HourPictureFlag d) True True True True True True] @ []"
    by (simp add: payload_def avc_bits_def byte8_bits)
  moreover note [simp] = assms[unfolded wf_payload.simps, THEN fits_bit]
  ultimately show ?thesis
    unfolding newDescriptorAVCVideo_def
    by simp (intro reads_pbind[OF reads_fetchByte, simplified] reads_conv[OF reads_preturn], simp_all add: word_eq_bits bit_simps)
qed


lemma reads_newDescriptorComponent:
  assumes "wf_payload (CComponent d)" and "stop = off + int (length (payload (CComponent d)))"
  shows "reads (newDescriptorComponent refIterator stop) bs off (payload (CComponent d)) d"
proof -
  have eq: "payload (CComponent d) = [byte8 (bit (cmp_StreamContentExt d) 3) (bit (cmp_StreamContentExt d) 2)
        (bit (cmp_StreamContentExt d) 1) (bit (cmp_StreamContentExt d) 0) (bit (cmp_StreamContent d) 3)
        (bit (cmp_StreamContent d) 2) (bit (cmp_StreamContent d) 1) (bit (cmp_StreamContent d) 0)] @
      [cmp_ComponentType d] @ [cmp_ComponentTag d] @ cmp_ISO639LanguageCode d @ cmp_Text d @ []"
    by (simp add: payload_def component_bits_def byte8_bits bits_to_bytes_pieces)
  note wf = assms(1)[unfolded wf_payload.simps]
  note [simp] = wf[THEN conjunct1, THEN fits_bit] wf[THEN conjunct2, THEN conjunct1, THEN fits_bit]
  show ?thesis
    using wf assms(2) unfolding newDescriptorComponent_def eq
    by (intro reads_pbind[OF reads_fetchByte] reads_pbind[OF reads_fetchBytes] reads_pbind[OF reads_fetchRest]
        reads_conv[OF reads_preturn]) (simp_all add: word_eq_bits bit_simps)
qed

lemma reads_newDescriptorContent:
  assumes "wf_payload (CContent xs)" and "stop = off + int (length (payload (CContent xs)))"
  shows "reads (newDescriptorContent refIterator stop) bs off (payload (CContent xs)) xs"
proof -
  have eq: "payload (CContent xs) = concat (map (\<lambda>x. bits_to_bytes (content_item_bits x)) xs)"
    using bits_to_bytes_items[of xs content_item_bits "[]"] by (simp add: payload_def content_item_bits_def)
  show ?thesis
    unfolding newDescriptorContent_def eq
  proof (rule reads_parseItems)
    fix i off assume "i \<in> set xs"
    with assms(1) have "fits 4 (ci_ContentNibbleLevel1 i)" "fits 4 (ci_ContentNibbleLevel2 i)" by auto
    note [simp] = this[THEN fits_bit]
    show "reads (pbind (fetchBytesNoCopy refIterator 2) (\<lambda>bs. preturn \<lparr>ci_ContentNibbleLevel1 = drop_bit 4 (bs ! 0),
        ci_ContentNibbleLevel2 = bs ! 0 AND 0xf, ci_UserByte = bs ! 1\<rparr>)) bs off (bits_to_bytes (content_item_bits i)) i"
      by (rule reads_fetch_return)
        (simp_all add: content_item_bits_def byte8_bits word_eq_bits bit_simps DescriptorContentItem.equality)
  qed (use assms(2) eq in \<open>simp_all add: content_item_bits_def\<close>)
qed

lemma payload_eac3: "payload (CEnhancedAC3 d) =
    [byte8 (eac3_HasComponentType d) (eac3_HasBSID d) (eac3_HasMainID d) (eac3_HasASVC d) (eac3_MixInfoExists d)
       (eac3_HasSubStream1 d) (eac3_HasSubStream2 d) (eac3_HasSubStream3 d)] @
    obyte (eac3_HasComponentType d) (eac3_ComponentType d) @ obyte (eac3_HasBSID d) (eac3_BSID d) @
    obyte (eac3_HasMainID d) (eac3_MainID d) @ obyte (eac3_HasASVC d) (eac3_ASVC d) @
    obyte (eac3_HasSubStream1 d) (eac3_SubStream1 d) @ obyte (eac3_HasSubStream2 d) (eac3_SubStream2 d) @
    obyte (eac3_HasSubStream3 d) (eac3_SubStream3 d) @ eac3_AdditionalInfo d @ []"
  by (simp add: payload_def eac3_bits_def bits_to_bytes_pieces)

lemma reads_newDescriptorEnhancedAC3:
  assumes "wf_payload (CEnhancedAC3 d)" and "stop = off + int (length (payload (CEnhancedAC3 d)))"
  shows "reads (newDescriptorEnhancedAC3 refIterator stop) bs off (payload (CEnhancedAC3 d)) d"
  using assms unfolding newDescriptorEnhancedAC3_def payload_eac3
  by (intro reads_pbind[OF reads_fetchByte]) (simp only: flag_bit bit_byte8_simps wf_payload.simps,
    intro reads_pbind[OF reads_obyte] reads_pbind[OF reads_fetchRest] reads_conv[OF reads_preturn], simp_all)

lemma reads_newDescriptorISO639LanguageAndAudioType:
  assumes "stop = off + int (length (payload (CISO639LanguageAndAudioType d)))"
  shows "reads (newDescriptorISO639LanguageAndAudioType refIterator stop) bs off (payload (CISO639LanguageAndAudioType d)) d"
proof -
  have eq: "payload (CISO639LanguageAndAudioType d) = (iso_Language d @ [iso_Type d]) @ []"
    by (simp add: payload_def bits_to_bytes_pieces byte8_bits)
  show ?thesis
    unfolding newDescriptorISO639LanguageAndAudioType_def eq
    by (rule reads_pbind[OF reads_fetchTo])
      (use assms eq in \<open>simp_all add: reads_conv[OF reads_preturn]\<close>)
qed

lemma reads_newDescriptorMaximumBitrate:
  assumes "wf_payload (CMaximumBitrate x)"
  shows "reads (newDescriptorMaximumBitrate refIterator) bs off (payload (CMaximumBitrate x)) x"
proof -
  have "x div 50 * 50 = x" using assms div_mult_mod_eq[of x 50] by simp
  moreover have "fits 22 (x div 50)" using assms by simp
  moreover note [simp] = this[THEN fits_bit]
  have "push_bit 16 (ucast (payload (CMaximumBitrate x) ! 0 AND 0x3f)) OR push_bit 8 (ucast (payload (CMaximumBitrate x) ! 1)) OR
      ucast (payload (CMaximumBitrate x) ! 2) = x div 50"
    by (simp add: payload_def word_eq_bits bit_simps)
  ultimately show ?thesis
    unfolding newDescriptorMaximumBitrate_def by (intro reads_fetch_return) (simp_all add: payload_def)
qed

lemma reads_newDescriptorParentalRating:
  assumes "wf_payload (CParentalRating xs)" and "stop = off + int (length (payload (CParentalRating xs)))"
  shows "reads (newDescriptorParentalRating refIterator stop) bs off (payload (CParentalRating xs)) xs"
proof -
  have eq: "payload (CParentalRating xs) = concat (map (\<lambda>x. bits_to_bytes (rating_item_bits x)) xs)"
    using bits_to_bytes_items[of xs rating_item_bits "[]"] assms(1) by (simp add: payload_def rating_item_bits_def)
  show ?thesis
    unfolding newDescriptorParentalRating_def eq
  proof (rule reads_parseItems)
    fix i off assume "i \<in> set xs"
    with assms(1) have c: "length (pr_CountryCode i) = 3" by auto
    have b: "bits_to_bytes (rating_item_bits i) = (pr_CountryCode i @ [pr_Rating i]) @ []"
      by (simp add: rating_item_bits_def bits_to_bytes_pieces byte8_bits)
    show "reads (pbind (fetchBytes refIterator 4) (\<lambda>bs. preturn \<lparr>pr_CountryCode = take 3 bs, pr_Rating = bs ! 3\<rparr>)) bs off
        (bits_to_bytes (rating_item_bits i)) i"
      unfolding b by (intro reads_pbind[OF reads_fetchBytes] reads_conv[OF reads_preturn]) (simp_all add: c nth_append)
  qed (use assms(2) eq in \<open>simp_all add: rating_item_bits_def bits_to_bytes_pieces\<close>)
qed

lemma reads_newDescriptorRegistration:
  assumes "stop = off + int (length (payload (CRegistration d)))"
  shows "reads (newDescriptorRegistration refIterator stop) bs off (payload (CRegistration d)) d"
proof -
  have eq: "payload (CRegistration d) =
      bits_to_bytes (bits_of 32 (reg_FormatIdentifier d)) @ reg_AdditionalIdentificationInfo d @ []"
    by (simp add: payload_def bits_to_bytes_pieces del: bits_of_numeral)
  show ?thesis
    using assms unfolding newDescriptorRegistration_def eq
    by (intro reads_pbind[OF reads_fetchUint32] reads_pbind[OF reads_fetchRest] reads_conv[OF reads_preturn]) simp_all
qed

lemma reads_newDescriptorService:
  assumes "length (payload (CService d)) < 256"
  shows "reads (newDescriptorService refIterator) bs off (payload (CService d)) d"
proof -
  have eq: "payload (CService d) = [srv_Type d] @ (word_of_nat (length (srv_Provider d)) # srv_Provider d) @
      (word_of_nat (length (srv_Name d)) # srv_Name d) @ []"
    using bits_to_bytes_pieces(6)[of _ "[]"] by (simp add: payload_def bits_to_bytes_pieces del: bits_of_numeral)
  show ?thesis
    using assms unfolding newDescriptorService_def eq
    by (intro reads_pbind[OF reads_fetchByte] reads_pbind[OF reads_fetchCounted] reads_conv[OF reads_preturn]) simp_all
qed

lemma reads_newDescriptorShortEvent:
  assumes "wf_payload (CShortEvent d)" and "length (payload (CShortEvent d)) < 256"
  shows "reads (newDescriptorShortEvent refIterator) bs off (payload (CShortEvent d)) d"
proof -
  have eq: "payload (CShortEvent d) = se_Language d @ (word_of_nat (length (se_EventName d)) # se_EventName d) @
      (word_of_nat (length (se_Text d)) # se_Text d) @ []"
    using bits_to_bytes_pieces(6)[of _ "[]"] by (simp add: payload_def bits_to_bytes_pieces del: bits_of_numeral)
  show ?thesis
    using assms unfolding newDescriptorShortEvent_def eq
    by (intro reads_pbind[OF reads_fetchBytes] reads_pbind[OF reads_fetchCounted] reads_conv[OF reads_preturn]) simp_all
qed

lemma reads_newDescriptorSubtitling:
  assumes "wf_payload (CSubtitling xs)" and "stop = off + int (length (payload (CSubtitling xs)))"
  shows "reads (newDescriptorSubtitling refIterator stop) bs off (payload (CSubtitling xs)) xs"
proof -
  have eq: "payload (CSubtitling xs) = concat (map (\<lambda>x. bits_to_bytes (subtitling_item_bits x)) xs)"
    using bits_to_bytes_items[of xs subtitling_item_bits "[]"] assms(1) by (simp add: payload_def subtitling_item_bits_def)
  show ?thesis
    unfolding newDescriptorSubtitling_def eq
  proof (rule reads_parseItems)
    fix i off assume "i \<in> set xs"
    with assms(1) have c: "length (sub_Language i) = 3" by auto
    have b: "bits_to_bytes (subtitling_item_bits i) = sub_Language i @ [sub_Type i] @
        bits_to_bytes (bits_of 16 (sub_CompositionPageID i)) @ bits_to_bytes (bits_of 16 (sub_AncillaryPageID i)) @ []"
      by (simp add: subtitling_item_bits_def bits_to_bytes_pieces del: bits_of_numeral)
    show "reads (pbind (fetchBytes refIterator 3) (\<lambda>language. pbind (fetchByte refIterator) (\<lambda>type.
        pbind (fetchUint16 refIterator) (\<lambda>composition. pbind (fetchUint16 refIterator) (\<lambda>ancillary.
        preturn \<lparr>sub_AncillaryPageID = ancillary, sub_CompositionPageID = composition, sub_Language = language,
          sub_Type = type\<rparr>))))) bs off (bits_to_bytes (subtitling_item_bits i)) i"
      unfolding b by (intro reads_pbind[OF reads_fetchBytes] reads_pbind[OF reads_fetchByte]
          reads_pbind[OF reads_fetchUint16] reads_conv[OF reads_preturn]) (simp_all add: c)
  qed (use assms(2) eq in \<open>simp_all add: subtitling_item_bits_def bits_to_bytes_pieces\<close>)
qed


text \<open>The page of a teletext item is two decimal digits.\<close>

lemma page_digits:
  fixes p :: uint8
  assumes "p < 100"
  shows "(p div 10) * 10 + p mod 10 = p" and "fits 4 (p div 10)" and "fits 4 (p mod 10)"
proof -
  show "(p div 10) * 10 + p mod 10 = p" by (rule div_mult_mod_eq)
  have "unat p < 100" using assms by (simp add: word_less_nat_alt)
  then show "fits 4 (p div 10)" "fits 4 (p mod 10)"
    by (simp_all add: fits_def word_less_nat_alt unat_div unat_mod)
qed

lemma reads_newDescriptorTeletext:
  assumes "wf_payload (CTeletext xs)" and "stop = off + int (length (payload (CTeletext xs)))"
  shows "reads (newDescriptorTeletext refIterator stop) bs off (payload (CTeletext xs)) xs"
proof -
  have eq: "payload (CTeletext xs) = concat (map (\<lambda>x. bits_to_bytes (teletext_item_bits x)) xs)"
    using bits_to_bytes_items[of xs teletext_item_bits "[]"] assms(1) by (simp add: payload_def teletext_item_bits_def)
  show ?thesis
    unfolding newDescriptorTeletext_def eq
  proof (rule reads_parseItems)
    fix i off assume "i \<in> set xs"
    with assms(1) have c: "length (ttx_Language i) = 3" and f: "fits 5 (ttx_Type i)" "fits 3 (ttx_Magazine i)"
      and p: "ttx_Page i < 100" by auto
    let ?a = "byte8 (bit (ttx_Type i) 4) (bit (ttx_Type i) 3) (bit (ttx_Type i) 2) (bit (ttx_Type i) 1) (bit (ttx_Type i) 0)
        (bit (ttx_Magazine i) 2) (bit (ttx_Magazine i) 1) (bit (ttx_Magazine i) 0)"
    let ?x = "ttx_Page i div 10" and ?y = "ttx_Page i mod 10"
    let ?b = "byte8 (bit ?x 3) (bit ?x 2) (bit ?x 1) (bit ?x 0) (bit ?y 3) (bit ?y 2) (bit ?y 1) (bit ?y 0)"
    note [simp] = f[THEN fits_bit]
    have a: "?a AND 0x7 = ttx_Magazine i" "drop_bit 3 ?a = ttx_Type i" by (simp_all add: word_eq_bits bit_simps)
    from page_digits(2,3)[OF p] have b: "drop_bit 4 ?b = ?x" "?b AND 0xf = ?y"
      by (simp_all add: word_eq_bits bit_simps fits_bit)
    have e: "bits_to_bytes (teletext_item_bits i) = ttx_Language i @ [?a] @ [?b] @ []"
      by (simp add: teletext_item_bits_def bits_to_bytes_pieces)
    show "reads (pbind (fetchBytes refIterator 3) (\<lambda>language. pbind (fetchByte refIterator) (\<lambda>b.
        pbind (fetchByte refIterator) (\<lambda>page. preturn \<lparr>ttx_Language = language, ttx_Magazine = b AND 0x7,
          ttx_Page = drop_bit 4 page * 10 + (page AND 0xf), ttx_Type = drop_bit 3 b\<rparr>)))) bs off
        (bits_to_bytes (teletext_item_bits i)) i"
      unfolding e by (intro reads_pbind[OF reads_fetchBytes] reads_pbind[OF reads_fetchByte] reads_conv[OF reads_preturn])
        (simp_all only: a b page_digits(1)[OF p], simp_all add: c)
  qed (use assms(2) eq in \<open>simp_all add: teletext_item_bits_def bits_to_bytes_pieces\<close>)
qed

lemma reads_newDescriptorExtendedEventItem:
  assumes "length (eei_Description i) < 256" and "length (eei_Content i) < 256"
  shows "reads (newDescriptorExtendedEventItem refIterator) bs off (bits_to_bytes (event_item_bits i)) i"
proof -
  have e: "bits_to_bytes (event_item_bits i) = (word_of_nat (length (eei_Description i)) # eei_Description i) @
      (word_of_nat (length (eei_Content i)) # eei_Content i) @ []"
    using bits_to_bytes_pieces(6)[of _ "[]"] by (simp add: event_item_bits_def bits_to_bytes_pieces)
  show ?thesis
    using assms unfolding newDescriptorExtendedEventItem_def e
    by (intro reads_pbind[OF reads_fetchCounted] reads_conv[OF reads_preturn]) simp_all
qed

lemma extendedEventItemsLength_member:
  "i \<in> set xs \<Longrightarrow> length (eei_Description i) + length (eei_Content i) \<le> extendedEventItemsLength xs"
  by (induction xs) (auto simp: extendedEventItemsLength_def)

lemma reads_newDescriptorExtendedEvent:
  assumes "wf_payload (CExtendedEvent d)" and "length (payload (CExtendedEvent d)) < 256"
  shows "reads (newDescriptorExtendedEvent refIterator) bs off (payload (CExtendedEvent d)) d"
proof -
  let ?n = "extendedEventItemsLength (ee_Items d)"
  let ?b = "byte8 (bit (ee_Number d) 3) (bit (ee_Number d) 2) (bit (ee_Number d) 1) (bit (ee_Number d) 0)
      (bit (ee_LastDescriptorNumber d) 3) (bit (ee_LastDescriptorNumber d) 2) (bit (ee_LastDescriptorNumber d) 1)
      (bit (ee_LastDescriptorNumber d) 0)"
  let ?items = "concat (map (\<lambda>i. bits_to_bytes (event_item_bits i)) (ee_Items d))"
  have items: "bits_to_bytes (concat (map event_item_bits (ee_Items d)) @ ys) = ?items @ bits_to_bytes ys" for ys
    by (rule bits_to_bytes_items) (simp add: event_item_bits_def)
  have n: "length ?items = ?n"
    using items[of "[]"] length_event_items[of "ee_Items d"] by (metis append_Nil2 bits_to_bytes.simps(2) length_bits_to_bytes
        nonzero_mult_div_cancel_left zero_neq_numeral)
  have eq: "payload (CExtendedEvent d) = [?b] @ ee_ISO639LanguageCode d @ [word_of_nat ?n] @ [] @ ?items @
      (word_of_nat (length (ee_Text d)) # ee_Text d) @ []"
    using bits_to_bytes_pieces(6)[of _ "[]"]
    by (simp add: payload_def extended_event_bits_def bits_to_bytes_nibbles bits_to_bytes_pieces(2,3) items
        del: bits_of_numeral)
  note wf = assms(1)[unfolded wf_payload.simps]
  note [simp] = wf[THEN conjunct1, THEN fits_bit] wf[THEN conjunct2, THEN conjunct1, THEN fits_bit]
  have b: "?b AND 0xf = ee_LastDescriptorNumber d" "drop_bit 4 ?b = ee_Number d" by (simp_all add: word_eq_bits bit_simps)
  have len: "?n < 256" "length (ee_Text d) < 256" using assms(2) unfolding eq by (simp_all add: n)
  have small: "length (eei_Description i) < 256" "length (eei_Content i) < 256" if "i \<in> set (ee_Items d)" for i
    using extendedEventItemsLength_member[OF that] len(1) by simp_all
  have u: "uint (word_of_nat ?n :: uint8) = int ?n" using len(1) by (simp add: unsigned_of_nat take_bit_nat_eq_self_iff)
  show ?thesis
    unfolding newDescriptorExtendedEvent_def eq
    by (intro reads_pbind[OF reads_fetchByte] reads_pbind[OF reads_fetchBytes] reads_pbind[OF reads_offset]
        reads_pbind[OF reads_parseItems] reads_pwrap reads_newDescriptorExtendedEventItem
        reads_pbind[OF reads_fetchCounted] reads_conv[OF reads_preturn])
      (use wf small len u n in \<open>simp_all only: b, simp_all add: event_item_bits_def bits_to_bytes_pieces\<close>)
qed


lemma reads_newDescriptorExtensionSupplementaryAudio:
  assumes "fits 5 (sa_EditorialClassification a)" and "length (sa_LanguageCode a) = (if sa_HasLanguageCode a then 3 else 0)"
    and "stop = off + int (length (bits_to_bytes (supplementary_audio_bits a)))"
  shows "reads (newDescriptorExtensionSupplementaryAudio refIterator stop) bs off (bits_to_bytes (supplementary_audio_bits a)) a"
proof -
  let ?e = "sa_EditorialClassification a"
  let ?b = "byte8 (sa_MixType a) (bit ?e 4) (bit ?e 3) (bit ?e 2) (bit ?e 1) (bit ?e 0) True (sa_HasLanguageCode a)"
  have l: "(if sa_HasLanguageCode a then bytes_to_bits (sa_LanguageCode a) else []) = bytes_to_bits (sa_LanguageCode a)"
    using assms(2) by (cases "sa_HasLanguageCode a") simp_all
  have eq: "bits_to_bytes (supplementary_audio_bits a) = [?b] @ sa_LanguageCode a @ sa_PrivateData a @ []"
    by (simp add: supplementary_audio_bits_def l bits_to_bytes_pieces)
  note [simp] = assms(1)[THEN fits_bit]
  have b: "drop_bit 2 ?b AND 0x1f = ?e" by (simp add: word_eq_bits bit_simps)
  have lang: "reads (pwhen (sa_HasLanguageCode a) [] (fetchBytes refIterator 3)) bs o' (sa_LanguageCode a) (sa_LanguageCode a)" for o'
    using assms(2) by (cases "sa_HasLanguageCode a") (simp_all add: pwhen_def reads_preturn reads_fetchBytes)
  show ?thesis
    using assms(3) unfolding newDescriptorExtensionSupplementaryAudio_def eq
    by (intro reads_pbind[OF reads_fetchByte]) (simp only: b flag_bit bit_byte8_simps,
      intro reads_pbind[OF lang] reads_pbind[OF reads_fetchRest] reads_conv[OF reads_preturn], simp_all)
qed

lemma reads_newDescriptorExtension:
  assumes "wf_payload (CExtension d)" and "stop = off + int (length (payload (CExtension d)))"
  shows "reads (newDescriptorExtension refIterator stop) bs off (payload (CExtension d)) d"
proof (cases "ext_Tag d = DescriptorTagExtensionSupplementaryAudio")
  case True
  with assms(1) obtain a where a: "ext_SupplementaryAudio d = Some a" "ext_Unknown d = None"
    "fits 5 (sa_EditorialClassification a)" "length (sa_LanguageCode a) = (if sa_HasLanguageCode a then 3 else 0)" by auto
  then have eq: "payload (CExtension d) = [ext_Tag d] @ bits_to_bytes (supplementary_audio_bits a) @ []"
    by (simp add: payload_def extension_bits_def True bits_to_bytes_pieces del: bits_of_numeral)
  show ?thesis
    using assms(2) unfolding newDescriptorExtension_def eq
    by (intro reads_pbind[OF reads_fetchByte]) (subst if_P[OF True],
      intro reads_pbind[OF reads_pwrap[OF reads_newDescriptorExtensionSupplementaryAudio]] reads_conv[OF reads_preturn],
      use a in simp_all)
next
  case False
  with assms(1) obtain u where u: "ext_Unknown d = Some u" "ext_SupplementaryAudio d = None" by auto
  then have eq: "payload (CExtension d) = [ext_Tag d] @ u @ []"
    by (simp add: payload_def extension_bits_def False bits_to_bytes_pieces del: bits_of_numeral)
  show ?thesis
    using assms(2) unfolding newDescriptorExtension_def eq
    by (intro reads_pbind[OF reads_fetchByte]) (simp only: False if_False,
      intro reads_pbind[OF reads_fetchTo] reads_conv[OF reads_preturn], use u in simp_all)
qed

lemma reads_vbi_lines:
  assumes "\<And>d. d \<in> set ds \<Longrightarrow> fits 5 (vbi_LineOffset d)" and "stop = off + int (length ds)"
  shows "reads (pwhile (\<lambda>_ i. bi_Offset refIterator i < stop) (\<lambda>ds. pwhen True ds (pbind (fetchByte refIterator) (\<lambda>b.
      preturn (ds @ [\<lparr>vbi_FieldParity = 0 < b AND 0x20, vbi_LineOffset = b AND 0x1f\<rparr>])))) []) bs off
    (concat (map (\<lambda>d. bits_to_bytes (vbi_line_bits d)) ds)) ds"
proof -
  have one: "length (concat (map (\<lambda>d. bits_to_bytes (vbi_line_bits d)) ds)) = length ds"
    by (subst length_items[where n = 1]) (simp_all add: vbi_line_bits_def)
  have "reads (pwhen True a (pbind (fetchByte refIterator) (\<lambda>b.
      preturn (a @ [\<lparr>vbi_FieldParity = 0 < b AND 0x20, vbi_LineOffset = b AND 0x1f\<rparr>])))) bs o'
      (bits_to_bytes (vbi_line_bits d)) (a @ [d])" if "d \<in> set ds" for d a o'
  proof -
    let ?l = "vbi_LineOffset d"
    let ?b = "byte8 True True (vbi_FieldParity d) (bit ?l 4) (bit ?l 3) (bit ?l 2) (bit ?l 1) (bit ?l 0)"
    have e: "bits_to_bytes (vbi_line_bits d) = [?b] @ []" by (simp add: vbi_line_bits_def)
    note [simp] = assms(1)[OF that, THEN fits_bit]
    have b: "?b AND 0x1f = ?l" by (simp add: word_eq_bits bit_simps)
    show ?thesis unfolding pwhen_def if_True e
      by (intro reads_pbind[OF reads_fetchByte] reads_conv[OF reads_preturn]) (simp_all only: b, simp_all)
  qed
  then show ?thesis
    using reads_pwhile[of ds "\<lambda>a. pwhen True a (pbind (fetchByte refIterator) (\<lambda>b.
      preturn (a @ [\<lparr>vbi_FieldParity = 0 < b AND 0x20, vbi_LineOffset = b AND 0x1f\<rparr>])))" bs
        "\<lambda>d. bits_to_bytes (vbi_line_bits d)" "\<lambda>x xs. xs @ [id x]" off stop "[]"] assms(2) one
    by (simp add: fold_snoc_map[of id, simplified] vbi_line_bits_def)
qed

lemma reads_newDescriptorVBIData:
  assumes "wf_payload (CVBIData ss)" and "stop = off + int (length (payload (CVBIData ss)))"
  shows "reads (newDescriptorVBIData refIterator stop) bs off (payload (CVBIData ss)) ss"
proof -
  have eq: "payload (CVBIData ss) = concat (map (\<lambda>x. bits_to_bytes (vbi_service_bits x)) ss)"
    using bits_to_bytes_items[of ss vbi_service_bits "[]"] assms(1) length_vbi_service by (simp add: payload_def)
  show ?thesis
    unfolding newDescriptorVBIData_def eq
  proof (rule reads_parseItems)
    fix s o' assume s: "s \<in> set ss"
    let ?ds = "vbi_Descriptors s"
    from s assms(1) have wf: "isVBILineService (vbi_DataServiceID s)" "length ?ds = 1" "\<And>d. d \<in> set ?ds \<Longrightarrow> fits 5 (vbi_LineOffset d)"
      by auto
    have lines: "bits_to_bytes (concat (map vbi_line_bits ?ds)) = concat (map (\<lambda>d. bits_to_bytes (vbi_line_bits d)) ?ds)"
      using bits_to_bytes_items[of ?ds vbi_line_bits "[]"] by (simp add: vbi_line_bits_def)
    have e: "bits_to_bytes (vbi_service_bits s) = [vbi_DataServiceID s] @ [word_of_nat (length ?ds)] @ [] @
        concat (map (\<lambda>d. bits_to_bytes (vbi_line_bits d)) ?ds) @ []"
      by (simp add: vbi_service_bits_def bits_to_bytes_pieces lines del: bits_of_numeral)
    show "reads (pbind (fetchByte refIterator) (\<lambda>dataServiceID. pbind (fetchByte refIterator) (\<lambda>dataServiceDescriptorLength.
        pbind (offset refIterator) (\<lambda>o'. pbind (pwhile (\<lambda>_ i. bi_Offset refIterator i < o' + uint dataServiceDescriptorLength)
        (\<lambda>ds. pwhen (isVBILineService dataServiceID) ds (pbind (fetchByte refIterator) (\<lambda>b.
           preturn (ds @ [\<lparr>vbi_FieldParity = 0 < b AND 0x20, vbi_LineOffset = b AND 0x1f\<rparr>])))) []) (\<lambda>ds.
        preturn \<lparr>vbi_DataServiceID = dataServiceID, vbi_Descriptors = ds\<rparr>))))) bs o' (bits_to_bytes (vbi_service_bits s)) s"
      unfolding e
      by (intro reads_pbind[OF reads_fetchByte] reads_pbind[OF reads_offset]) (simp only: wf(1),
        intro reads_pbind[OF reads_vbi_lines] reads_conv[OF reads_preturn], use wf(2,3) in simp_all)
  qed (use assms(2) eq in \<open>simp_all add: vbi_service_bits_def bits_to_bytes_pieces\<close>)
qed


text \<open>The switch on the tag.\<close>

lemmas reads_descriptor_parsers =
  reads_newDescriptorAC3 reads_newDescriptorAVCVideo reads_newDescriptorComponent reads_newDescriptorContent
  reads_newDescriptorEnhancedAC3 reads_newDescriptorExtendedEvent reads_newDescriptorExtension
  reads_newDescriptorISO639LanguageAndAudioType reads_newDescriptorMaximumBitrate reads_newDescriptorParentalRating
  reads_newDescriptorRegistration reads_newDescriptorService reads_newDescriptorShortEvent
  reads_newDescriptorSubtitling reads_newDescriptorVBIData

lemma reads_set:
  assumes "reads p bs off xs x"
  shows "reads (pbind (pwrap msg p) (\<lambda>x. preturn (f x))) bs off xs (f x)"
  by (rule reads_conv, rule reads_pbind[OF reads_pwrap[OF assms]], rule reads_preturn) simp_all

lemma uint_small: "n < 256 \<Longrightarrow> uint (word_of_nat n :: uint8) = int n"
  by (simp add: unsigned_of_nat take_bit_nat_eq_self_iff)

lemma reads_parseDescriptorData:
  assumes "wf_content c" and "\<not> (0x80 \<le> content_tag c \<and> content_tag c \<le> 0xfe)"
    and "stop = off + int (length (payload c))"
  shows "reads (parseDescriptorData refIterator (content_tag c) (word_of_nat (length (payload c))) stop)
    bs off (payload c) (descriptor_of c)"
proof -
  note wf = assms(1)[unfolded wf_content_def, THEN conjunct1]
    and len = assms(1)[unfolded wf_content_def, THEN conjunct2, THEN conjunct2]
  note defs = parseDescriptorData_def descriptor_of_def descriptor_tags
  show ?thesis
  proof (cases c)
    case (CUserDefined tag bs)
    with wf assms(2) show ?thesis by simp
  next
    case (CDataStreamAlignment x)
    then show ?thesis
      by (simp add: defs newDescriptorDataStreamAlignment_def payload_def byte8_bits) (intro reads_set reads_fetchByte)
  next
    case (CStreamIdentifier x)
    then show ?thesis
      by (simp add: defs newDescriptorStreamIdentifier_def payload_def byte8_bits) (intro reads_set reads_fetchByte)
  next
    case (CNetworkName x)
    with assms(3) show ?thesis
      by (simp add: defs newDescriptorNetworkName_def payload_def) (intro reads_set reads_fetchTo, simp)
  next
    case (CPrivateDataIndicator x)
    then show ?thesis
      by (simp add: defs newDescriptorPrivateDataIndicator_def payload_def del: bits_of_numeral) (intro reads_set reads_fetchUint32)
  next
    case (CPrivateDataSpecifier x)
    then show ?thesis
      by (simp add: defs newDescriptorPrivateDataSpecifier_def payload_def del: bits_of_numeral) (intro reads_set reads_fetchUint32)
  next
    case (CTeletext xs)
    with wf assms(3) reads_newDescriptorTeletext[of xs stop off bs] show ?thesis
      by (simp add: defs del: wf_payload.simps) (intro reads_set)
  next
    case (CVBITeletext xs)
    with wf assms(3) reads_newDescriptorTeletext[of xs stop off bs] show ?thesis
      by (simp add: defs payload_def) (intro reads_set)
  next
    case (CUnknown d)
    have "reads (newDescriptorUnknown refIterator (unk_Tag d) (word_of_nat (length (unk_Content d)))) bs off (unk_Content d @ []) d"
      using len CUnknown unfolding newDescriptorUnknown_def
      by (intro reads_pbind[OF reads_fetchBytes] reads_conv[OF reads_preturn]) (simp_all add: uint_small payload_def)
    from reads_set[OF this] CUnknown wf show ?thesis
      by (auto simp: parseDescriptorData_def descriptor_of_def Let_def payload_def)
  qed (use wf len assms(3) in \<open>simp_all add: defs del: wf_payload.simps\<close>,
      (rule reads_set, rule reads_descriptor_parsers; simp del: wf_payload.simps)+)
qed

end
