(* ===== verification/Dvb_Codec.thy ===== *)
theory Dvb_Codec
  imports Dvb
begin

text \<open>
  Results on \<^verbatim>\<open>dvb.go\<close>: bounds on the rounding of floating-point numbers, from which the
  fields of durations are exact; the round trip of durations; and the dates that
  \<^verbatim>\<open>parseDVBTime\<close> loses.
\<close>

section \<open>Rounding\<close>

lemma pow2_powi: "pow2 e = 2 powi e"
  by (simp add: pow2_def power_int_def field_simps)

lemma pow2_pos [simp]: "0 < pow2 e"
  by (simp add: pow2_powi)

lemma pow2_add: "pow2 (a + b) = pow2 a * pow2 b"
  by (simp add: pow2_powi power_int_add)

lemma pow2_mono: "a \<le> b \<Longrightarrow> pow2 a \<le> pow2 b"
  unfolding pow2_powi by (rule power_int_increasing) simp_all

lemma expo_lower:
  assumes "0 < x"
  shows "pow2 (expo x) \<le> x"
proof (cases "1 \<le> x")
  case True
  let ?n = "nat \<lfloor>x\<rfloor>"
  have n: "0 < ?n" using True by (simp add: le_floor_iff)
  then have "2 ^ (floorlog 2 ?n - 1) \<le> ?n" using floorlog_bounds[of ?n 2] by simp
  then have "(of_nat (2 ^ (floorlog 2 ?n - 1)) :: rat) \<le> of_nat ?n" by (rule of_nat_mono)
  also have "\<dots> \<le> x" using True by simp
  finally have "2 ^ (floorlog 2 ?n - 1) \<le> x" by simp
  moreover have "1 \<le> floorlog 2 ?n" using n by (simp add: floorlog_def)
  ultimately show ?thesis using True by (simp add: expo_def pow2_def nat_diff_distrib)
next
  case False
  let ?n = "nat (\<lceil>1 / x\<rceil> - 1)"
  have "1 < 1 / x" using False assms by simp
  then have n: "0 < ?n" by (simp add: less_ceiling_iff)
  then have "int ?n = \<lceil>1 / x\<rceil> - 1" by linarith
  then have "(of_nat ?n :: rat) = of_int (\<lceil>1 / x\<rceil> - 1)" by (metis of_int_of_nat_eq)
  then have "1 / x \<le> of_nat ?n + 1" using le_of_int_ceiling[of "1 / x"] by (simp del: of_nat_nat)
  also have "?n + 1 \<le> 2 ^ floorlog 2 ?n" using floorlog_bounds[of ?n 2] n by linarith
  then have "(of_nat (?n + 1) :: rat) \<le> of_nat (2 ^ floorlog 2 ?n)" by (rule of_nat_mono)
  then have "of_nat ?n + 1 \<le> (2 ^ floorlog 2 ?n :: rat)" by simp
  finally have "1 / 2 ^ floorlog 2 ?n \<le> x" using assms by (simp add: field_simps)
  moreover have "1 \<le> floorlog 2 ?n" using n by (simp add: floorlog_def)
  ultimately show ?thesis using False by (auto simp: expo_def pow2_def)
qed

lemma expo_less:
  assumes "0 < x" and "x < pow2 e"
  shows "expo x < e"
proof (rule ccontr)
  assume "\<not> expo x < e"
  then have "pow2 e \<le> pow2 (expo x)" by (simp add: pow2_mono)
  with expo_lower[OF assms(1)] assms(2) show False by simp
qed

lemma round_even_cases: "round_even x = \<lfloor>x\<rfloor> \<or> (round_even x = \<lfloor>x\<rfloor> + 1 \<and> of_int \<lfloor>x\<rfloor> < x)"
proof -
  have "of_int \<lfloor>x\<rfloor> < x" if "\<not> x - of_int \<lfloor>x\<rfloor> < 1 / 2" using that by linarith
  then show ?thesis by (auto simp: round_even_def Let_def)
qed

lemma round_even_le: "x \<le> of_int n \<Longrightarrow> round_even x \<le> n"
  using round_even_cases[of x] floor_mono[of x "of_int n"] by auto

lemma round_even_ge: "of_int n \<le> x \<Longrightarrow> n \<le> round_even x"
  using round_even_cases[of x] le_floor_iff[of n x] by auto

text \<open>
  A number with few enough bits bounds the rounding of what it bounds: multiples of
  \<open>2 ^ -k\<close> below \<open>2 ^ (53 - k)\<close> are numbers of the format.
\<close>

lemma scaled:
  assumes "e - 52 \<le> - int k"
  shows "\<exists>j. of_int n / 2 ^ k = of_int j * pow2 (e - 52)"
proof
  have "pow2 (e - 52) * pow2 (- int k - (e - 52)) = pow2 (- int k)" by (simp add: pow2_add[symmetric])
  moreover have "pow2 (- int k - (e - 52)) = of_int (2 ^ nat (- int k - (e - 52)))" using assms by (simp add: pow2_def)
  moreover have "pow2 (- int k) = 1 / 2 ^ k" by (simp add: pow2_def)
  ultimately show "of_int n / 2 ^ k = of_int (n * 2 ^ nat (- int k - (e - 52))) * pow2 (e - 52)" 
    by (simp add: mult.commute mult.left_commute)
qed

lemma fl64_upper:
  assumes "0 < x" and "x < pow2 (53 - int k)" and "x \<le> of_int n / 2 ^ k"
  shows "fl64 x \<le> of_int n / 2 ^ k"
proof -
  let ?u = "pow2 (expo x - 52)"
  have "expo x - 52 \<le> - int k" using expo_less[OF assms(1,2)] by simp
  from scaled[OF this, of n] obtain j where j: "of_int n / 2 ^ k = of_int j * ?u" by blast
  with assms(3) have "x / ?u \<le> of_int j" by (simp add: field_simps)
  then have "of_int (round_even (x / ?u)) \<le> (of_int j :: rat)" by (simp add: round_even_le)
  then show ?thesis using assms(1) j by (simp add: fl64_def Let_def)
qed

lemma fl64_lower:
  assumes "0 < x" and "x < pow2 (53 - int k)" and "of_int n / 2 ^ k \<le> x"
  shows "of_int n / 2 ^ k \<le> fl64 x"
proof -
  let ?u = "pow2 (expo x - 52)"
  have "expo x - 52 \<le> - int k" using expo_less[OF assms(1,2)] by simp
  from scaled[OF this, of n] obtain j where j: "of_int n / 2 ^ k = of_int j * ?u" by blast
  with assms(3) have "of_int j \<le> x / ?u" by (simp add: field_simps)
  then have "(of_int j :: rat) \<le> of_int (round_even (x / ?u))" by (simp add: round_even_ge)
  then show ?thesis using assms(1) j by (simp add: fl64_def Let_def)
qed


section \<open>Durations\<close>

text \<open>
  \<^verbatim>\<open>Duration.Hours\<close> and the like, truncated, are the whole hours, minutes or seconds, as long
  as these and the fraction fit the 53 bits of the format.
\<close>

lemma trunc_eq: "of_int n \<le> x \<Longrightarrow> x < of_int n + 1 \<Longrightarrow> 0 \<le> n \<Longrightarrow> trunc x = n"
  by (auto simp: trunc_def floor_eq_iff intro: order_trans[of 0 "of_int n"])

lemma duration_whole:
  assumes "0 \<le> d" and "0 < unit" and "unit \<le> 2 ^ k" and "d div unit < 2 ^ (52 - k)" and "k \<le> 52"
  shows "trunc (duration_in unit d) = d div unit"
proof -
  let ?q = "d div unit" and ?r = "d mod unit"
  have q: "0 \<le> ?q" and r: "0 \<le> ?r" "?r < unit" using assms by (simp_all add: pos_imp_zdiv_nonneg_iff)
  have s: "d sdiv unit = ?q" "d smod unit = ?r"
    using assms(1,2) by (cases "d = 0"; simp add: signed_divide_int_def signed_modulo_int_def)+
  let ?top = "\<lambda>n. (of_int (n * 2 ^ k + 2 ^ k - 1) :: rat) / 2 ^ k"
  have top: "?top n = of_int n + 1 - 1 / 2 ^ k" for n by (simp add: field_simps)
  have pos: "0 < (of_int unit :: rat)" using assms(2) by simp
  have "(of_int unit :: rat) \<le> of_int (2 ^ k)" using assms(3) by (simp only: of_int_le_iff)
  then have "1 / (2 ^ k :: rat) \<le> 1 / of_int unit" using pos by (intro divide_left_mono) simp_all
  moreover have "(of_int ?r :: rat) \<le> of_int (unit - 1)" using r by (simp only: of_int_le_iff)
  then have "of_int ?r / of_int unit \<le> (of_int unit - 1) / (of_int unit :: rat)" using pos by (intro divide_right_mono) simp_all
  ultimately have frac: "of_int ?r / of_int unit \<le> 1 - 1 / (2 ^ k :: rat)" using pos by (simp add: diff_divide_distrib)
  define f where "f = fl64 (of_int ?r / of_int unit)"
  have one: "(1 :: rat) \<le> pow2 (53 - int k)" using pow2_mono[of 0 "53 - int k"] assms(5) by (simp add: pow2_def)
  have f: "0 \<le> f \<and> f \<le> 1 - 1 / 2 ^ k"
  proof (cases "?r = 0")
    case False
    with r have "0 < ?r" by linarith
    then have "0 < (of_int ?r / of_int unit :: rat)" using pos by (simp only: divide_pos_pos of_int_0_less_iff)
    moreover have "of_int ?r / of_int unit < (1 :: rat)" using r assms(2) by simp
    ultimately show ?thesis
      unfolding f_def using fl64_lower[of "of_int ?r / of_int unit" k 0] fl64_upper[of "of_int ?r / of_int unit" k "2 ^ k - 1"] frac one top[of 0]
      by simp
  qed (simp add: f_def fl64_def)
  have "1 - 1 / 2 ^ k < (1 :: rat)" by simp
  with f have "f < 1" by linarith
  have x: "of_int ?q \<le> of_int ?q + f" "of_int ?q + f \<le> ?top ?q" using f unfolding top by simp_all
  have "of_int ?q \<le> fl64 (of_int ?q + f) \<and> fl64 (of_int ?q + f) \<le> ?top ?q"
  proof (cases "of_int ?q + f = 0")
    case False
    have "(of_int (?q + 1) :: rat) \<le> of_int (2 ^ (52 - k))" using assms(4) by (simp only: of_int_le_iff)
    also have "\<dots> = pow2 (52 - int k)" using assms(5) by (simp add: pow2_def nat_diff_distrib)
    also have "\<dots> \<le> pow2 (53 - int k)" by (simp add: pow2_mono)
    finally have "of_int ?q + f < pow2 (53 - int k)" using \<open>f < 1\<close> by simp
    then show ?thesis
      using fl64_lower[of "of_int ?q + f" k "?q * 2 ^ k"] fl64_upper[of "of_int ?q + f" k "?q * 2 ^ k + 2 ^ k - 1"] x False q f by simp
  next
    case True
    with x q show ?thesis by (simp add: fl64_def)
  qed
  moreover have "?top ?q < of_int ?q + 1" unfolding top by simp
  ultimately show ?thesis
    unfolding duration_in_def s f_def[symmetric] by (intro trunc_eq) (use q in auto)
qed


lemmas ns_defs = nsSecond_def nsMinute_def nsHour_def nsDay_def

lemma ns_pos: "0 < nsSecond" "0 < nsMinute" "0 < nsHour"
  by (simp_all add: ns_defs)

lemma duration_fields:
  assumes "0 \<le> d" and "d < 100 * nsHour"
  shows "uint (durationHours d) = d div nsHour"
    and "uint (durationMinutes d) = d div nsMinute mod 60"
    and "uint (durationSeconds d) = d div nsSecond mod 60"
proof -
  have h: "0 \<le> d div nsHour" "d div nsHour < 100" using assms by (simp_all add: ns_defs)
  have m: "0 \<le> d div nsMinute" "d div nsMinute < 6000" using assms by (simp_all add: ns_defs)
  have s: "0 \<le> d div nsSecond" "d div nsSecond < 360000" using assms by (simp_all add: ns_defs)
  have "trunc (duration_in nsHour d) = d div nsHour"
    by (rule duration_whole[where k = 42]) (use assms(1) h in \<open>simp_all add: ns_defs\<close>)
  with h show "uint (durationHours d) = d div nsHour" by (simp add: durationHours_def uint_word_of_int)
  have "trunc (duration_in nsMinute d) = d div nsMinute"
    by (rule duration_whole[where k = 36]) (use assms(1) m in \<open>simp_all add: ns_defs\<close>)
  with m show "uint (durationMinutes d) = d div nsMinute mod 60"
    by (simp add: durationMinutes_def smod_mod_positive uint_word_of_int)
  have "trunc (duration_in nsSecond d) = d div nsSecond"
    by (rule duration_whole[where k = 30]) (use assms(1) s in \<open>simp_all add: ns_defs\<close>)
  with s show "uint (durationSeconds d) = d div nsSecond mod 60"
    by (simp add: durationSeconds_def smod_mod_positive uint_word_of_int)
qed

text \<open>Two decimal digits survive binary coded decimal.\<close>

lemma nibbles:
  fixes x y :: uint8
  assumes "fits 4 x" and "fits 4 y"
  shows "drop_bit 4 (push_bit 4 x OR y) = x" and "(push_bit 4 x OR y) AND 0xf = y"
  using assms[THEN fits_bit] by (simp_all add: word_eq_bits bit_simps)

lemma bcd_roundtrip:
  assumes "uint n < 100"
  shows "parseDVBDurationByte (dvbDurationByteRepresentation n) = uint n"
proof -
  have "int (unat n) < int 100" using assms by simp
  then have u: "unat n < 100" by (simp only: of_nat_less_iff)
  have "unat (n div 10) < 16" "unat (n mod 10) < 16" using u by (simp_all add: unat_div unat_mod)
  then have f: "fits 4 (n div 10)" "fits 4 (n mod 10)" by (simp_all add: fits_def word_less_nat_alt)
  show ?thesis
    unfolding parseDVBDurationByte_def dvbDurationByteRepresentation_def nibbles[OF f] div_mult_mod_eq ..
qed

lemma sexagesimal: "0 < u \<Longrightarrow> d div (60 * u) * (60 * u) + d div u mod 60 * u = d div u * (u :: int)"
proof -
  assume "0 < u"
  then have "d div (60 * u) = d div u div 60" by (simp add: mult.commute[of 60] zdiv_zmult2_eq)
  moreover have "(d div u div 60 * 60 + d div u mod 60) * u = d div u * u" by simp
  ultimately show ?thesis by (simp only: distrib_right mult.assoc)
qed

section \<open>Durations on the wire\<close>

definition bcd :: "int \<Rightarrow> byte" where
  "bcd n = dvbDurationByteRepresentation (word_of_int n)"

lemma parse_bcd: "0 \<le> n \<Longrightarrow> n < 100 \<Longrightarrow> parseDVBDurationByte (bcd n) = n"
  unfolding bcd_def by (subst bcd_roundtrip) (simp_all add: uint_word_of_int)

lemma duration_bytes:
  assumes "0 \<le> d" and "d < 100 * nsHour"
  shows "dvbDurationByteRepresentation (durationHours d) = bcd (d div nsHour)"
    and "dvbDurationByteRepresentation (durationMinutes d) = bcd (d div nsMinute mod 60)"
    and "dvbDurationByteRepresentation (durationSeconds d) = bcd (d div nsSecond mod 60)"
  unfolding bcd_def duration_fields[OF assms, symmetric] by simp_all

lemma reads_parseDVBDurationMinutes:
  assumes "0 \<le> d" and "d < 100 * nsHour"
  shows "reads (parseDVBDurationMinutes refIterator) bs off [bcd (d div nsHour), bcd (d div nsMinute mod 60)]
    (d - d mod nsMinute)"
proof -
  have "0 \<le> d div nsHour" "d div nsHour < 100" using assms by (simp_all add: ns_defs)
  moreover have "d div nsHour * nsHour + d div nsMinute mod 60 * nsMinute = d - d mod nsMinute"
    using sexagesimal[of nsMinute d] by (simp add: nsHour_def ns_pos minus_mod_eq_div_mult)
  ultimately show ?thesis
    unfolding parseDVBDurationMinutes_def by (intro reads_fetch_return) (simp_all add: parse_bcd)
qed

lemma reads_parseDVBDurationSeconds:
  assumes "0 \<le> d" and "d < 100 * nsHour"
  shows "reads (parseDVBDurationSeconds refIterator) bs off
    [bcd (d div nsHour), bcd (d div nsMinute mod 60), bcd (d div nsSecond mod 60)] (d - d mod nsSecond)"
proof -
  have "0 \<le> d div nsHour" "d div nsHour < 100" using assms by (simp_all add: ns_defs)
  moreover have "d div nsHour * nsHour + d div nsMinute mod 60 * nsMinute + d div nsSecond mod 60 * nsSecond = d - d mod nsSecond"
    using sexagesimal[of nsMinute d] sexagesimal[of nsSecond d]
    by (simp add: nsHour_def nsMinute_def[symmetric] ns_pos minus_mod_eq_div_mult)
  ultimately show ?thesis
    unfolding parseDVBDurationSeconds_def by (intro reads_fetch_return) (simp_all add: parse_bcd)
qed

context bits_writer
begin

lemma emits_writeDVBDurationMinutes:
  assumes "0 \<le> d" and "d < 100 * nsHour"
  shows "emits view (writeDVBDurationMinutes W d) (bytes_to_bits [bcd (d div nsHour), bcd (d div nsMinute mod 60)]) 2"
  unfolding writeDVBDurationMinutes_def duration_bytes[OF assms]
  by (rule emits_conv, rule emits_wbind[OF emits_batch], rule emits_wdone) (simp_all del: bits_of_numeral)

lemma emits_writeDVBDurationSeconds:
  assumes "0 \<le> d" and "d < 100 * nsHour"
  shows "emits view (writeDVBDurationSeconds W d)
    (bytes_to_bits [bcd (d div nsHour), bcd (d div nsMinute mod 60), bcd (d div nsSecond mod 60)]) 3"
  unfolding writeDVBDurationSeconds_def duration_bytes[OF assms]
  by (rule emits_conv, rule emits_wbind[OF emits_batch], rule emits_wdone) (simp_all del: bits_of_numeral)

end


section \<open>Dates\<close>


text \<open>
  A year of three digits has a digit where the layout of \<^verbatim>\<open>time.Parse\<close> wants a dash.
\<close>

lemma digit_char_dash: "digit_char n \<noteq> CHR ''-''"
proof -
  have "(of_char (digit_char n) :: nat) = 48 + nat (n mod 10)"
    by (simp add: digit_char_def nat_less_iff)
  moreover have "(of_char (CHR ''-'') :: nat) = 45" by simp
  ultimately show ?thesis by (intro notI) simp
qed

lemma digits_dash: "CHR ''-'' \<notin> set (digits n)"
proof (induction n rule: digits.induct)
  case (1 n)
  with digit_char_dash[of n] show ?case by (subst digits.simps) (auto dest: sym)
qed

lemma digits_3:
  assumes "100 \<le> n"
  obtains a b c r where "digits n = a # b # c # r" "c \<noteq> CHR ''-''"
proof -
  have two: "\<not> n div 10 < 10" using assms by linarith
  have "digits n = digits (n div 10 div 10) @ [digit_char (n div 10), digit_char n]"
    using digits.simps[of n] digits.simps[of "n div 10"] assms two by simp
  moreover have "digits (n div 10 div 10) \<noteq> []" by (subst digits.simps) simp
  ultimately have "3 \<le> length (digits n)" by (cases "digits (n div 10 div 10)") simp_all
  then obtain a b c r where "digits n = a # b # c # r" by (auto simp: Suc_le_length_iff numeral_3_eq_3)
  with digits_dash[of n] that show thesis by auto
qed

lemma timeParse_dash: "c \<noteq> CHR ''-'' \<Longrightarrow> timeParse060102 (a # b # c # r) = None"
  by (cases "a # b # c # r" rule: timeParse060102.cases) (simp_all split: option.split)

lemma mjdDay_late:
  assumes "100 \<le> fst (mjdDate mjd)"
  shows "mjdDay mjd = 0"
proof -
  obtain y m d where date: "mjdDate mjd = (y, m, d)" by (cases "mjdDate mjd") auto
  with assms have "100 \<le> y" by simp
  from digits_3[OF this] obtain a b c r where "digits y = a # b # c # r" "c \<noteq> CHR ''-''" .
  with \<open>100 \<le> y\<close> date show ?thesis by (simp add: mjdDay_def show_int_def timeParse_dash)
qed

text \<open>From March 1, 2000 (day 51604) on, the year that is computed is at least 100.\<close>

lemma mjdDate_late:
  assumes "51604 \<le> uint mjd"
  shows "100 \<le> fst (mjdDate mjd)"
proof -
  define m0 where "m0 = (of_int (uint mjd) :: rat)"
  have m0: "51604 \<le> m0" "m0 \<le> 65535"
    using assms uint_lt2p[of mjd] of_int_le_iff[of 51604 "uint mjd", where 'a = rat] of_int_le_iff[of "uint mjd" 65535, where 'a = rat]
    unfolding m0_def by simp_all
  have p: "pow2 53 = 9007199254740992" "pow2 51 = 2251799813685248" by (simp_all add: pow2_def)
  have c: "fl64 (150782 / 10) \<le> 60313 / 4" "15078 \<le> fl64 (150782 / 10)"
    using fl64_upper[of "150782 / 10" 2 60313] fl64_lower[of "150782 / 10" 0 15078] by (simp_all add: p)
  let ?x = "fl64 (m0 - fl64 (150782 / 10))"
  have x: "146103 / 4 \<le> ?x" "?x \<le> 65535"
    using fl64_lower[of "m0 - fl64 (150782 / 10)" 2 146103] fl64_upper[of "m0 - fl64 (150782 / 10)" 0 65535] c m0
    by (simp_all add: p)
  then have "100 \<le> ?x / (36525 / 100)" "?x / (36525 / 100) < 1000" by simp_all
  then have "100 \<le> fl64 (?x / (36525 / 100))"
    using fl64_lower[of "?x / (36525 / 100)" 0 100] by (simp add: p)
  then have "100 \<le> trunc (fl64 (?x / (36525 / 100)))" by (simp add: trunc_def le_floor_iff)
  then show ?thesis by (simp add: mjdDate_def Let_def m0_def)
qed


lemma reads_parseDVBTime:
  assumes "0 \<le> d" and "d < nsDay"
  shows "reads (parseDVBTime refIterator) bs off
    (bits_to_bytes (bits_of 16 mjd) @ [bcd (d div nsHour), bcd (d div nsMinute mod 60), bcd (d div nsSecond mod 60)] @ [])
    (mjdDay mjd * nsDay + (d - d mod nsSecond))"
proof -
  let ?h = "bits_to_bytes (bits_of 16 mjd)"
  have h: "length ?h = 2" "push_bit 8 (ucast (?h ! 0)) OR ucast (?h ! 1) = mjd" by (simp_all add: word_eq_bits bit_simps)
  have "d < 100 * nsHour" using assms by (simp add: ns_defs)
  note sec = reads_pwrap[OF reads_parseDVBDurationSeconds[OF assms(1) this]]
  show ?thesis
    unfolding parseDVBTime_def
    by (intro reads_pbind[OF reads_fetchBytesNoCopy]) (simp only: h of_nat_numeral, simp only: Let_def h,
      intro reads_pbind[OF sec] reads_preturn)
qed

section \<open>Any iterator\<close>

context bytes_iterator
begin

lemma sim_parseDVBDurationMinutes: "sim I (parseDVBDurationMinutes I) (parseDVBDurationMinutes refIterator)"
  unfolding parseDVBDurationMinutes_def by (intro sim_intros sim_ops)

lemma sim_parseDVBDurationSeconds: "sim I (parseDVBDurationSeconds I) (parseDVBDurationSeconds refIterator)"
  unfolding parseDVBDurationSeconds_def by (intro sim_intros sim_ops)

lemma sim_parseDVBTime: "sim I (parseDVBTime I) (parseDVBTime refIterator)"
  unfolding parseDVBTime_def by (intro sim_intros sim_ops sim_parseDVBDurationSeconds)

end

section \<open>Properties\<close>

text \<open>
  \<^bold>\<open>C25\<close>. A duration below 100 hours survives the wire to the second:
  \<^verbatim>\<open>writeDVBDurationSeconds\<close> writes three bytes, and \<^verbatim>\<open>parseDVBDurationSeconds\<close>
  returns the duration without its fraction of a second. In particular the floating-point
  \<^verbatim>\<open>Hours\<close>, \<^verbatim>\<open>Minutes\<close> and \<^verbatim>\<open>Seconds\<close> never round up to the next unit.
\<close>

theorem dvb_duration_roundtrip:
  assumes "astikit I W view" and "0 \<le> d" and "d < 100 * nsHour"
  shows "\<exists>bs. writeBytes W (writeDVBDurationSeconds W d) = (Inr 3, bs) \<and>
    parseBytes I (parseDVBDurationSeconds I) bs = Some (Inr (d - d mod nsSecond))"
proof -
  note I = astikit.axioms(1)[OF assms(1)] and W = astikit.axioms(2)[OF assms(1)]
  have "reads (parseDVBDurationSeconds refIterator) bs off (bits_to_bytes (bytes_to_bits
      [bcd (d div nsHour), bcd (d div nsMinute mod 60), bcd (d div nsSecond mod 60)])) (d - d mod nsSecond)" for bs off
    unfolding bits_to_bytes_bytes by (rule reads_parseDVBDurationSeconds[OF assms(2,3)])
  from astikit.codec_roundtrip[OF assms(1) bits_writer.emits_writeDVBDurationSeconds[OF W assms(2,3)]
      bytes_iterator.sim_parseDVBDurationSeconds[OF I] this] show ?thesis by blast
qed

text \<open>
  \<^bold>\<open>C26\<close>. No date since March 1, 2000 (modified Julian date 51604) is parsed: for every later
  date \<^verbatim>\<open>parseDVBTime\<close> formats a year of three digits, \<^verbatim>\<open>time.Parse\<close> fails, its error is
  ignored, and the result is the time of day on January 1 of year 1.
\<close>

theorem dvb_dates_lost:
  fixes mjd :: uint16
  assumes "bytes_iterator I" and "51604 \<le> uint mjd" and "0 \<le> d" and "d < nsDay"
  shows "parseBytes I (parseDVBTime I)
      (bits_to_bytes (bits_of 16 mjd) @ [bcd (d div nsHour), bcd (d div nsMinute mod 60), bcd (d div nsSecond mod 60)]) =
    Some (Inr (d - d mod nsSecond))"
proof -
  let ?bs = "bits_to_bytes (bits_of 16 mjd) @ [bcd (d div nsHour), bcd (d div nsMinute mod 60), bcd (d div nsSecond mod 60)]"
  have "parseBytes refIterator (parseDVBTime refIterator) ?bs = Some (Inr (d - d mod nsSecond))"
    using reads_parseDVBTime[OF assms(3,4), of ?bs 0 mjd] mjdDay_late[OF mjdDate_late[OF assms(2)]]
    by (intro parseBytes_reads) (simp del: bits_of_numeral)
  then show ?thesis
    by (rule bytes_iterator.parseBytes_transfer[OF assms(1) bytes_iterator.sim_parseDVBTime[OF assms(1)]]) simp
qed

section \<open>Witnesses\<close>

theorem dvb_duration_roundtrip_witness:
  "\<exists>bs. writeBytes refWriter (writeDVBDurationSeconds refWriter 45045999999999) = (Inr 3, bs) \<and>
    parseBytes refIterator (parseDVBDurationSeconds refIterator) bs = Some (Inr 45045000000000)"
  using dvb_duration_roundtrip[OF ref_astikit.astikit_axioms, of 45045999999999] by (simp add: ns_defs)

theorem dvb_dates_lost_witness:
  "parseBytes refIterator (parseDVBTime refIterator)
      (bits_to_bytes (bits_of 16 (58986 :: uint16)) @ [bcd 12, bcd 30, bcd 45]) = Some (Inr 45045000000000)"
  using dvb_dates_lost[OF ref_iterator.bytes_iterator_axioms, of 58986 45045000000000] by (simp add: ns_defs del: bits_of_numeral)

end
