(* ===== verification/Descriptor_Codec.thy ===== *)
theory Descriptor_Codec
  imports Descriptor_Reads Dvb_Codec
begin

text \<open>
  Lists of descriptors: their round trip through \<^verbatim>\<open>writeDescriptorsWithLength\<close> and
  \<^verbatim>\<open>parseDescriptors\<close>, the inputs on which the parser is sure to return, and one on which it
  does not.
\<close>

section \<open>Sequences of descriptors\<close>

lemma items_aligned: "(\<And>x. x \<in> set xs \<Longrightarrow> length (f x) mod 8 = 0) \<Longrightarrow> length (concat (map f xs)) mod 8 = 0"
  by (induction xs) (simp_all, metis mod_add_eq add.right_neutral mod_0)

lemma payload_aligned:
  assumes "wf_payload c"
  shows "length (payload_bits c) mod 8 = 0"
proof (cases c)
  case (CExtension d)
  with assms show ?thesis
    by (auto simp: extension_bits_def supplementary_audio_bits_def simp del: bits_of_numeral split: if_splits)
next
  case (CVBIData ss)
  have "length (concat (map vbi_service_bits ss)) mod 8 = 0"
    by (rule items_aligned) (use assms CVBIData in \<open>simp add: length_vbi_service\<close>)
  with CVBIData show ?thesis by simp
next
  case (CContent xs)
  then show ?thesis by (simp add: items_aligned content_item_bits_def)
next
  case (CParentalRating xs)
  with assms show ?thesis by (simp add: items_aligned rating_item_bits_def)
next
  case (CSubtitling xs)
  with assms show ?thesis by (simp add: items_aligned subtitling_item_bits_def)
next
  case (CTeletext xs)
  with assms length_teletext_items[of xs] show ?thesis by simp
next
  case (CVBITeletext xs)
  with assms length_teletext_items[of xs] show ?thesis by simp
next
  case (CExtendedEvent d)
  with assms show ?thesis by (simp add: extended_event_bits_def length_event_items del: bits_of_numeral)
qed (use assms in \<open>simp_all add: ac3_bits_def avc_bits_def component_bits_def eac3_bits_def del: bits_of_numeral\<close>)

lemma payload_bytes_to_bits: "wf_payload c \<Longrightarrow> bytes_to_bits (payload c) = payload_bits c"
  unfolding payload_def by (rule bytes_bits_inv) (rule payload_aligned)

text \<open>A descriptor on the wire: tag, length and payload.\<close>

definition descriptor_bytes :: "content \<Rightarrow> byte list" where
  "descriptor_bytes c = [content_tag c, word_of_nat (length (payload c))] @ payload c"

lemma descriptor_bytes_not_Nil: "descriptor_bytes c \<noteq> []"
  by (simp add: descriptor_bytes_def)

definition descriptors_size :: "content list \<Rightarrow> nat" where
  "descriptors_size cs = length (concat (map descriptor_bytes cs))"

lemma descriptors_size_simps [simp]:
  "descriptors_size [] = 0"
  "descriptors_size (c # cs) = 2 + length (payload c) + descriptors_size cs"
  by (simp_all add: descriptors_size_def descriptor_bytes_def)

text \<open>A list of descriptors on the wire: four reserved bits, a 12-bit length and the descriptors.\<close>

definition descriptors_bits :: "content list \<Rightarrow> bool list" where
  "descriptors_bits cs = bits_of 4 (0xff :: uint8) @ bits_of 12 (word_of_nat (descriptors_size cs) :: uint16) @
     bytes_to_bits (concat (map descriptor_bytes cs))"

lemma bytes_to_bits_concat: "bytes_to_bits (concat xss) = concat (map bytes_to_bits xss)"
  by (induction xss) simp_all

lemma calcDescriptorsLength_size:
  "\<forall>c\<in>set cs. wf_content c \<Longrightarrow> calcDescriptorsLength (map descriptor_of cs) = Some (word_of_nat (descriptors_size cs))"
proof (induction cs)
  case (Cons c cs)
  then have wf: "wf_payload c" "length (payload c) < 256" by (simp_all add: wf_content_def)
  have "(ucast (word_of_nat n :: uint8) :: uint16) = word_of_nat n" if "n < 256" for n
    using that by (simp add: unsigned_of_nat take_bit_nat_eq_self)
  with wf Cons show ?case by (simp add: payload_length)
qed simp

context bits_writer
begin

lemma emits_writeDescriptor:
  assumes "wf_content c"
  shows "emits view (writeDescriptor W (descriptor_of c)) (bytes_to_bits (descriptor_bytes c))
    (int (length (descriptor_bytes c)))"
proof -
  note wf = assms[unfolded wf_content_def, THEN conjunct1] and len = assms[unfolded wf_content_def, THEN conjunct2, THEN conjunct2]
  have "emits view (writeDescriptor W (descriptor_of c)) (concat (map wcmd_bits
      [Wr (AU8 (content_tag c)), Wr (AU8 (word_of_nat (length (payload c))))]) @ payload_bits c @ [])
      (uint (word_of_nat (length (payload c)) :: uint8) + 2)"
    unfolding writeDescriptor_def payload_length[OF wf] dsc_Tag_descriptor_of
    by (intro emits_wderef emits_wbind[OF emits_writeBatch] emits_wbind[OF emits_writeDescriptorData[OF wf]] emits_wreturn)
  then show ?thesis
    by (rule emits_conv) (simp_all add: descriptor_bytes_def uint_small[OF len] payload_bytes_to_bits[OF wf] del: bits_of_numeral)
qed

lemma emits_writeDescriptors:
  assumes "\<forall>c\<in>set cs. wf_content c"
  shows "emits view (writeDescriptors W (map descriptor_of cs)) (bytes_to_bits (concat (map descriptor_bytes cs)))
    (int (descriptors_size cs))"
proof -
  have "emits view (writeDescriptor W (descriptor_of c)) (bytes_to_bits (descriptor_bytes c)) (int (length (descriptor_bytes c)))"
    if "c \<in> set cs" for c
    using assms that by (simp add: emits_writeDescriptor)
  from emits_wfor_count[of cs view "\<lambda>c. writeDescriptor W (descriptor_of c)", OF this, of 0] show ?thesis
    unfolding writeDescriptors_def wfor_map
    by (rule emits_conv) (simp_all add: bytes_to_bits_concat descriptors_size_def length_concat o_def int_sum_list)
qed

lemma emits_writeDescriptorsWithLength:
  assumes "\<forall>c\<in>set cs. wf_content c"
  shows "emits view (writeDescriptorsWithLength W (map descriptor_of cs)) (descriptors_bits cs) (int (descriptors_size cs) + 2)"
proof -
  have "emits view (writeDescriptorsWithLength W (map descriptor_of cs))
      (concat (map wcmd_bits [WrN (AU8 0xff) 4, WrN (AU16 (word_of_nat (descriptors_size cs))) 12]) @
       bytes_to_bits (concat (map descriptor_bytes cs)) @ []) (int (descriptors_size cs) + 2)"
    unfolding writeDescriptorsWithLength_def calcDescriptorsLength_size[OF assms]
    by (intro emits_wderef emits_wbind[OF emits_writeBatch] emits_wbind[OF emits_writeDescriptors[OF assms]] emits_wreturn)
  then show ?thesis by (rule emits_conv) (simp_all add: descriptors_bits_def del: bits_of_numeral)
qed

end


lemma reads_parseDescriptor:
  assumes "wf_content c"
  shows "reads (parseDescriptor refIterator) bs off (descriptor_bytes c) (descriptor_of c)"
proof -
  note len = assms[unfolded wf_content_def, THEN conjunct2]
  let ?n = "word_of_nat (length (payload c)) :: uint8"
  have n: "uint ?n = int (length (payload c))" using len by (simp add: uint_small)
  have pos: "0 < ?n" using len n by (simp add: word_less_def)
  have data: "reads (if content_tag c \<ge> 0x80 \<and> content_tag c \<le> 0xfe
      then pbind (fetchBytes refIterator (uint ?n)) (\<lambda>u. preturn ((newDescriptor (content_tag c) ?n)\<lparr>dsc_UserDefined := u\<rparr>))
      else parseDescriptorData refIterator (content_tag c) ?n (o' + uint ?n)) bs o' (payload c) (descriptor_of c)" for o'
  proof (cases "content_tag c \<ge> 0x80 \<and> content_tag c \<le> 0xfe")
    case True
    with assms obtain t u where c: "c = CUserDefined t u"
      by (cases c) (auto simp: descriptor_tags wf_content_def)
    have "reads (pbind (fetchBytes refIterator (uint ?n)) (\<lambda>u. preturn ((newDescriptor (content_tag c) ?n)\<lparr>dsc_UserDefined := u\<rparr>)))
        bs o' (payload c @ []) (descriptor_of c)"
      by (intro reads_pbind[OF reads_fetchBytes] reads_conv[OF reads_preturn])
        (use n in \<open>simp_all add: c descriptor_of_def payload_def\<close>)
    with True show ?thesis by simp
  next
    case False
    show ?thesis unfolding if_not_P[OF False] by (rule reads_parseDescriptorData[OF assms False]) (simp add: n)
  qed
  have eq: "descriptor_bytes c = [content_tag c, ?n] @ payload c @ [] @ []" by (simp add: descriptor_bytes_def)
  have two: "[content_tag c, ?n] ! 0 = content_tag c" "[content_tag c, ?n] ! 1 = ?n" by simp_all
  show ?thesis
    unfolding parseDescriptor_def Let_def eq
    by (intro reads_pbind[OF reads_fetchBytesNoCopy], simp, unfold two if_P[OF pos])
      (intro reads_offset_bind reads_pbind[OF data] reads_pbind[OF reads_seek] reads_preturn, simp add: n)
qed

lemma length_field:
  fixes n :: uint16
  assumes "fits 12 n"
  defines "h \<equiv> bits_to_bytes (bits_of 4 (0xff :: uint8) @ bits_of 12 n)"
  shows "length h = 2" and "push_bit 8 (ucast (h ! 0 AND 0xf)) OR ucast (h ! 1) = n"
  using assms(1)[THEN fits_bit] by (simp_all add: h_def word_eq_bits bit_simps)

lemma reads_parseDescriptors:
  assumes "\<forall>c\<in>set cs. wf_content c" and "descriptors_size cs < 4096"
  shows "reads (parseDescriptors refIterator) bs off (bits_to_bytes (descriptors_bits cs)) (map descriptor_of cs)"
proof -
  let ?n = "word_of_nat (descriptors_size cs) :: uint16"
  let ?h = "bits_to_bytes (bits_of 4 (0xff :: uint8) @ bits_of 12 ?n)"
  have "fits 12 ?n" using assms(2) by (simp add: fits_def word_less_nat_alt unsigned_of_nat take_bit_nat_eq_self)
  note h = length_field[OF this]
  have n: "uint ?n = int (descriptors_size cs)"
    using assms(2) by (simp add: unsigned_of_nat take_bit_nat_eq_self)
  have eq: "bits_to_bytes (descriptors_bits cs) = ?h @ concat (map descriptor_bytes cs)"
    using bits_to_bytes_aligned[of "bits_of 4 (0xff :: uint8) @ bits_of 12 ?n" "bytes_to_bits (concat (map descriptor_bytes cs))"]
    by (simp add: descriptors_bits_def del: bits_of_numeral)
  have "reads (parseItems refIterator (o' + uint ?n) (parseDescriptor refIterator)) bs o'
      (concat (map descriptor_bytes cs)) (map descriptor_of cs)" for o'
    by (rule reads_parseItems_map)
      (use assms(1) n in \<open>simp_all add: reads_parseDescriptor descriptors_size_def descriptor_bytes_not_Nil\<close>)
  then have "reads (pwhen (0 < uint ?n) [] (pbind (offset refIterator) (\<lambda>o'.
      parseItems refIterator (o' + uint ?n) (parseDescriptor refIterator)))) bs o'
      (concat (map descriptor_bytes cs)) (map descriptor_of cs)" for o'
    using n by (cases cs) (simp_all add: pwhen_def reads_preturn reads_offset_bind)
  then show ?thesis
    unfolding parseDescriptors_def eq by (intro reads_pbind[OF reads_fetchBytesNoCopy]) (simp only: h of_nat_numeral, simp only: Let_def h)
qed

section \<open>Any iterator\<close>

lemmas descriptor_parser_defs = newDescriptorAC3_def newDescriptorAVCVideo_def newDescriptorComponent_def
  newDescriptorContent_def newDescriptorDataStreamAlignment_def newDescriptorEnhancedAC3_def
  newDescriptorExtendedEvent_def newDescriptorExtendedEventItem_def newDescriptorExtension_def
  newDescriptorExtensionSupplementaryAudio_def newDescriptorISO639LanguageAndAudioType_def
  newDescriptorLocalTimeOffset_def newDescriptorMaximumBitrate_def newDescriptorNetworkName_def
  newDescriptorParentalRating_def newDescriptorPrivateDataIndicator_def newDescriptorPrivateDataSpecifier_def
  newDescriptorRegistration_def newDescriptorService_def newDescriptorShortEvent_def
  newDescriptorStreamIdentifier_def newDescriptorSubtitling_def newDescriptorTeletext_def newDescriptorUnknown_def
  newDescriptorVBIData_def

context bytes_iterator
begin

lemma sim_fetchRest: "sim I (fetchRest I stop) (fetchRest refIterator stop)"
  unfolding fetchRest_def by (intro sim_intros sim_ops)

lemma sim_fetchTo: "sim I (fetchTo I stop) (fetchTo refIterator stop)"
  unfolding fetchTo_def by (intro sim_intros sim_ops)

lemma sim_fetchCounted: "sim I (fetchCounted I) (fetchCounted refIterator)"
  unfolding fetchCounted_def by (intro sim_intros sim_ops)

lemma sim_fetchUint16: "sim I (fetchUint16 I) (fetchUint16 refIterator)"
  unfolding fetchUint16_def by (intro sim_intros sim_ops)

lemma sim_fetchUint32: "sim I (fetchUint32 I) (fetchUint32 refIterator)"
  unfolding fetchUint32_def by (intro sim_intros sim_ops)

lemma sim_parseItems: "sim I p q \<Longrightarrow> sim I (parseItems I stop p) (parseItems refIterator stop q)"
  unfolding parseItems_def by (intro sim_intros) simp_all

lemmas sim_fetches = sim_fetchRest sim_fetchTo sim_fetchCounted sim_fetchUint16 sim_fetchUint32 sim_parseItems

lemma sim_parseDescriptorData: "sim I (parseDescriptorData I tag len stop) (parseDescriptorData refIterator tag len stop)"
  unfolding parseDescriptorData_def descriptor_parser_defs
  by (intro sim_intros sim_ops sim_fetches sim_parseDVBDurationMinutes sim_parseDVBTime) simp_all

lemma sim_parseDescriptor: "sim I (parseDescriptor I) (parseDescriptor refIterator)"
  unfolding parseDescriptor_def by (intro sim_intros sim_ops sim_parseDescriptorData)

lemma sim_parseDescriptors: "sim I (parseDescriptors I) (parseDescriptors refIterator)"
  unfolding parseDescriptors_def by (intro sim_intros sim_ops sim_parseItems sim_parseDescriptor)

end


section \<open>Inputs on which the parser returns\<close>

lemma advances_fetchCounted: "advances 0 (fetchCounted refIterator)"
  unfolding fetchCounted_def by (intro advances_intros) simp

lemma advances_fetchRest: "advances 0 (fetchRest refIterator stop)"
  unfolding fetchRest_def by (intro advances_intros) simp

lemma advances_parseItems:
  "advances 1 p \<Longrightarrow> advances 0 (parseItems refIterator stop p)"
  unfolding parseItems_def
  by (rule advances_pwhile[where stop = stop]) (intro advances_first advances_preturn, simp_all)


lemma advances_fetchUint:
  "advances 0 (fetchUint16 refIterator)" "advances 0 (fetchUint32 refIterator)"
  unfolding fetchUint16_def fetchUint32_def by (intro advances_intros; simp)+

lemma advances_parseDVBDurationMinutes: "advances 0 (parseDVBDurationMinutes refIterator)"
  unfolding parseDVBDurationMinutes_def by (intro advances_intros) simp

lemma advances_parseDVBTime: "advances 0 (parseDVBTime refIterator)"
  unfolding parseDVBTime_def parseDVBDurationSeconds_def by (intro advances_intros) simp_all

lemma advances_1_counted: "(\<And>a. advances 0 (f a)) \<Longrightarrow> advances 1 (pbind (fetchCounted refIterator) f)"
  unfolding fetchCounted_def
  by (intro advances_first advances_fetchByte1 advances_intros) simp_all

lemma advances_1_bytes: "1 \<le> n \<Longrightarrow> (\<And>a. advances 0 (f a)) \<Longrightarrow> advances 1 (pbind (fetchBytes refIterator n) f)"
  by (rule advances_mono[where k = n]) (intro advances_first advances_fetchBytes, simp_all)

lemma advances_1_bytesNoCopy: "1 \<le> n \<Longrightarrow> (\<And>a. advances 0 (f a)) \<Longrightarrow> advances 1 (pbind (fetchBytesNoCopy refIterator n) f)"
  by (rule advances_mono[where k = n]) (intro advances_first advances_fetchBytesNoCopy, simp_all)

lemma advances_descriptor_parsers:
  "advances 0 (newDescriptorAC3 refIterator stop)" "advances 0 (newDescriptorAVCVideo refIterator)"
  "advances 0 (newDescriptorComponent refIterator stop)" "advances 0 (newDescriptorContent refIterator stop)"
  "advances 0 (newDescriptorDataStreamAlignment refIterator)" "advances 0 (newDescriptorEnhancedAC3 refIterator stop)"
  "advances 0 (newDescriptorExtendedEvent refIterator)" "advances 0 (newDescriptorLocalTimeOffset refIterator stop)"
  "advances 0 (newDescriptorMaximumBitrate refIterator)" "advances 0 (newDescriptorParentalRating refIterator stop)"
  "advances 0 (newDescriptorPrivateDataIndicator refIterator)" "advances 0 (newDescriptorPrivateDataSpecifier refIterator)"
  "advances 0 (newDescriptorRegistration refIterator stop)" "advances 0 (newDescriptorService refIterator)"
  "advances 0 (newDescriptorShortEvent refIterator)" "advances 0 (newDescriptorStreamIdentifier refIterator)"
  "advances 0 (newDescriptorSubtitling refIterator stop)" "advances 0 (newDescriptorTeletext refIterator stop)"
  "advances 0 (newDescriptorUnknown refIterator tag len)"
  unfolding descriptor_parser_defs
  by ((intro advances_parseItems advances_1_counted advances_1_bytes advances_1_bytesNoCopy
      advances_intros advances_fetchCounted advances_fetchRest advances_fetchUint advances_parseDVBDurationMinutes
      advances_parseDVBTime; simp?); fail)+

lemma goes_fetchTo: "0 \<le> off \<Longrightarrow> off \<le> stop \<Longrightarrow> goes bs off (stop - off) (fetchTo refIterator stop)"
  unfolding fetchTo_def by (intro goes_offset goes_advances advances_fetchBytes) simp_all

lemma goes_newDescriptorISO639LanguageAndAudioType:
  assumes "0 \<le> off" and "off < stop"
  shows "goes bs off 0 (newDescriptorISO639LanguageAndAudioType refIterator stop)"
  unfolding newDescriptorISO639LanguageAndAudioType_def
proof (rule goes_pbind[OF goes_fetchTo])
  fix xs off' assume "fetchTo refIterator stop (bs, off) = Some (Inr (xs, bs, off'))" and "off + (stop - off) \<le> off'"
  with assms have "xs \<noteq> []"
    by (auto simp: fetchTo_def fetchBytes_def pbind_def offset_def pget_def pwrap_def plift_def split: if_splits)
  then show "goes bs off' (off + 0 - off') (if xs = [] then pfail Panic else preturn \<lparr>iso_Language = butlast xs, iso_Type = last xs\<rparr>)"
    using assms \<open>off + (stop - off) \<le> off'\<close> by (simp add: goes_preturn)
qed (use assms in simp_all)

lemma goes_newDescriptorExtension:
  assumes "0 \<le> off" and "off < stop"
  shows "goes bs off 0 (newDescriptorExtension refIterator stop)"
  unfolding newDescriptorExtension_def
proof (rule goes_pbind[OF goes_advances[OF advances_fetchByte1 assms(1)]])
  fix tag off' assume t: "fetchByte refIterator (bs, off) = Some (Inr (tag, bs, off'))" "off + 1 \<le> off'"
  then have off': "off' = off + 1" by (auto simp: fetchByte_def pwrap_def plift_def split: if_splits)
  let ?aud = "pbind (pwrap ''astits: parsing extension supplementary audio descriptor failed: ''
         (newDescriptorExtensionSupplementaryAudio refIterator stop)) (\<lambda>a.
       preturn \<lparr>ext_SupplementaryAudio = Some a, ext_Tag = tag, ext_Unknown = None\<rparr>)"
  have "advances 0 ?aud"
    unfolding newDescriptorExtensionSupplementaryAudio_def by (intro advances_intros advances_fetchRest) simp
  then have aud: "goes bs off' (off + 0 - off') ?aud"
    by (rule goes_weaken[OF goes_advances]) (use assms(1) off' in linarith)+
  have "goes bs off' (off + 0 - off') (pbind (fetchTo refIterator stop) (\<lambda>bs.
       preturn \<lparr>ext_SupplementaryAudio = None, ext_Tag = tag, ext_Unknown = Some bs\<rparr>))"
    by (rule goes_pbind[OF goes_fetchTo]) (use assms off' in \<open>auto intro: goes_preturn\<close>)
  with aud show "goes bs off' (off + 0 - off') (if tag = DescriptorTagExtensionSupplementaryAudio then ?aud
     else pbind (fetchTo refIterator stop) (\<lambda>bs.
       preturn \<lparr>ext_SupplementaryAudio = None, ext_Tag = tag, ext_Unknown = Some bs\<rparr>))"
    by (rule goes_if)
qed

lemma goes_set: "goes bs off 0 p \<Longrightarrow> goes bs off 0 (pbind (pwrap msg p) (\<lambda>x. preturn (f x)))"
  by (rule goes_pbind[OF goes_pwrap]) (auto intro: goes_preturn)

lemma goes_parseDescriptorData:
  assumes "tag \<noteq> DescriptorTagVBIData" and "0 \<le> off" and "off < stop"
  shows "goes bs off 0 (parseDescriptorData refIterator tag len stop)"
proof -
  have name: "goes bs off 0 (newDescriptorNetworkName refIterator stop)"
    unfolding newDescriptorNetworkName_def by (rule goes_weaken[OF goes_fetchTo]) (use assms in simp_all)
  note parsers = advances_descriptor_parsers[THEN goes_advances, OF assms(2)] name
    goes_newDescriptorExtension[OF assms(2,3)] goes_newDescriptorISO639LanguageAndAudioType[OF assms(2,3)]
  show ?thesis
    unfolding parseDescriptorData_def Let_def if_not_P[OF assms(1)] 
    by (intro goes_if goes_set parsers)
qed


text \<open>One turn of the loop reads at least the two bytes of tag and length.\<close>

lemma goes_parseDescriptor:
  assumes "DescriptorTagVBIData \<notin> set bs" and "0 \<le> off"
  shows "goes bs off 2 (parseDescriptor refIterator)"
  unfolding parseDescriptor_def
proof (rule goes_pbind[OF goes_advances[OF advances_fetchBytesNoCopy assms(2)]])
  fix xs off' assume f: "fetchBytesNoCopy refIterator 2 (bs, off) = Some (Inr (xs, bs, off'))"
  then have xs: "xs = take 2 (drop (nat off) bs)" "off + 2 \<le> int (length bs)" and off': "off' = off + 2"
    by (auto simp: fetchBytesNoCopy_def pwrap_def plift_def split: if_splits)
  let ?tag = "xs ! 0" and ?len = "xs ! 1"
  from xs assms(2) have "?tag = bs ! nat off" "nat off < length bs" by simp_all
  with assms(1) have tag: "?tag \<noteq> DescriptorTagVBIData" by (metis nth_mem)
  have "goes bs off' 0 (if ?tag \<ge> 0x80 \<and> ?tag \<le> 0xfe
      then pbind (fetchBytes refIterator (uint ?len)) (\<lambda>u. preturn ((newDescriptor ?tag ?len)\<lparr>dsc_UserDefined := u\<rparr>))
      else parseDescriptorData refIterator ?tag ?len (off' + uint ?len))" (is "goes _ _ _ ?data") if "?len > 0"
    using that assms(2) off'
    by (intro goes_if goes_parseDescriptorData[OF tag] goes_advances advances_seq advances_fetches advances_preturn)
      (simp_all add: word_less_def)
  then have "goes bs off' 0 (pbind ?data (\<lambda>d. pbind (seek refIterator (off' + uint ?len)) (\<lambda>_. preturn d)))" if "?len > 0"
    using that by (fastforce simp: goes_def pbind_def seek_def pmove_def preturn_def)
  then show "goes bs off' (off + 2 - off') (let tag = ?tag; length = ?len in
     if length > 0
     then pbind (offset refIterator) (\<lambda>o'.
       let offsetDescriptorEnd = o' + uint length in
       pbind (if tag \<ge> 0x80 \<and> tag \<le> 0xfe
              then pbind (fetchBytes refIterator (uint length)) (\<lambda>u. preturn ((newDescriptor tag length)\<lparr>dsc_UserDefined := u\<rparr>))
              else parseDescriptorData refIterator tag length offsetDescriptorEnd) (\<lambda>d.
       pbind (seek refIterator offsetDescriptorEnd) (\<lambda>_. preturn d)))
     else preturn (newDescriptor tag length))"
    unfolding Let_def off' by (intro goes_if goes_offset goes_preturn) (use off' in simp_all)
qed simp

lemma goes_parseDescriptors:
  assumes "DescriptorTagVBIData \<notin> set bs" and "0 \<le> off"
  shows "goes bs off 0 (parseDescriptors refIterator)"
  unfolding parseDescriptors_def
proof (rule goes_pbind[OF goes_advances[OF advances_fetchBytesNoCopy assms(2)]])
  fix xs off' assume "off + 2 \<le> off'"
  then have "goes bs o' 1 (pbind (parseDescriptor refIterator) (\<lambda>x. preturn (ys @ [x])))" if "off' \<le> o'" for o' ys
    using that assms by (intro goes_pbind[OF goes_parseDescriptor] goes_preturn) simp_all
  then have "goes bs off' 0 (parseItems refIterator stop (parseDescriptor refIterator))" for stop
    unfolding parseItems_def by (rule goes_pwhile[where stop = stop]) simp_all
  then have "goes bs off' 0 (let length = n in pwhen (length > 0) []
       (pbind (offset refIterator) (\<lambda>o'. parseItems refIterator (o' + length) (parseDescriptor refIterator))))" for n
    by (simp add: pwhen_def goes_offset goes_preturn)
  then show "goes bs off' (off + 0 - off') (let length = uint (push_bit 8 (ucast (xs ! 0 AND 0xf)) OR ucast (xs ! 1) :: uint16) in
     pwhen (length > 0) []
       (pbind (offset refIterator) (\<lambda>o'. parseItems refIterator (o' + length) (parseDescriptor refIterator))))"
    by (rule goes_weaken) (use \<open>off + 2 \<le> off'\<close> in simp)
qed simp


section \<open>An input on which the parser does not return\<close>

lemma newDescriptorVBIData_diverges:
  assumes "stands bs off [sid, len]" and "\<not> isVBILineService sid" and "0 < len" and "off < stop"
  shows "newDescriptorVBIData refIterator stop (bs, off) = None"
proof -
  let ?inner = "\<lambda>o'. pwhile (\<lambda>_ i. bi_Offset refIterator i < o' + uint len)
        (\<lambda>ds. pwhen (isVBILineService sid) ds
          (pbind (fetchByte refIterator) (\<lambda>b.
           preturn (ds @ [\<lparr>vbi_FieldParity = 0 < b AND 0x20, vbi_LineOffset = b AND 0x1f\<rparr>])))) []"
  have stuck: "?inner o' (bs, o') = None" for o'
    by (rule pwhile_stuck) (use assms(2,3) in \<open>simp_all add: pwhen_def preturn_def word_less_def\<close>)
  from assms(1) have "stands bs off [sid]" "stands bs (off + 1) [len]" using stands_append[of bs off "[sid]" "[len]"] by simp_all
  then have item: "pbind (fetchByte refIterator) f (bs, off) = f sid (bs, off + 1)"
    "pbind (fetchByte refIterator) f (bs, off + 1) = f len (bs, off + 2)" for f :: "byte \<Rightarrow> (cursor, DescriptorVBIDataService) parser"
    using reads_fetchByte[of bs off sid] reads_fetchByte[of bs "off + 1" len] by (simp_all add: reads_def pbind_def add.commute)
  show ?thesis
    unfolding newDescriptorVBIData_def parseItems_def
    by (subst pwhile_unfold)
      (simp only: refIterator_simps assms(4) if_True, rule pbind_None, rule pbind_None, simp only: item pbind_offset refIterator_simps pbind_None[where p = "?inner (off + 2)", OF stuck])
qed

text \<open>What \<^verbatim>\<open>writeDescriptorsWithLength\<close> writes for one VBI service that is not a line service.\<close>

definition vbi_descriptor :: "uint8 \<Rightarrow> Descriptor" where
  "vbi_descriptor sid = (newDescriptor DescriptorTagVBIData 3)
     \<lparr>dsc_VBIData := Some [\<lparr>vbi_DataServiceID = sid, vbi_Descriptors = []\<rparr>]\<rparr>"

definition vbi_bytes :: "uint8 \<Rightarrow> byte list" where
  "vbi_bytes sid = [0xf0, 5, DescriptorTagVBIData, 3, sid, 1, 0xff]"

lemma parse_vbi_bytes:
  assumes "\<not> isVBILineService sid"
  shows "parseBytes refIterator (parseDescriptors refIterator) (vbi_bytes sid) = None"
proof -
  have "stands (vbi_bytes sid) 4 [sid, 1]"
    unfolding stands_def vbi_bytes_def by (intro exI[of _ "[0xf0, 5, DescriptorTagVBIData, 3]"] exI[of _ "[0xff]"]) simp
  note vbi = newDescriptorVBIData_diverges[OF this assms, of 7]
  have data: "parseDescriptorData refIterator DescriptorTagVBIData 3 7 (vbi_bytes sid, 4) = None"
    using vbi by (simp add: parseDescriptorData_def descriptor_tags pbind_def pwrap_def)
  have one: "parseDescriptor refIterator (vbi_bytes sid, 2) = None"
    using data by (simp add: parseDescriptor_def vbi_bytes_def pbind_def fetchBytesNoCopy_def pwrap_def plift_def
        offset_def pget_def DescriptorTagVBIData_def)
  then have "parseItems refIterator 7 (parseDescriptor refIterator) (vbi_bytes sid, 2) = None"
    unfolding parseItems_def by (subst pwhile_unfold) (simp add: pbind_def)
  moreover have "uint (push_bit 8 (ucast ((0xf0 :: byte) AND 0xf)) OR ucast (5 :: byte) :: uint16) = 5" by simp
  ultimately show ?thesis
    by (simp add: parseBytes_def parseDescriptors_def vbi_bytes_def pbind_def fetchBytesNoCopy_def pwrap_def plift_def
        offset_def pget_def pwhen_def)
qed

section \<open>Properties\<close>

text \<open>
  \<^bold>\<open>C8\<close>. Writing descriptors and parsing them back. Every list of well-formed descriptors of
  the 24 types in \<^typ>\<open>content\<close> whose total length fits the 12-bit field is written by
  \<^verbatim>\<open>writeDescriptorsWithLength\<close>, which returns the number of bytes it wrote, and
  \<^verbatim>\<open>parseDescriptors\<close> returns exactly the same structs.
\<close>

theorem descriptors_roundtrip:
  assumes "astikit I W view" and "\<forall>c\<in>set cs. wf_content c" and "descriptors_size cs < 4096"
  shows "\<exists>bs. writeBytes W (writeDescriptorsWithLength W (map descriptor_of cs)) = (Inr (int (length bs)), bs) \<and>
    parseBytes I (parseDescriptors I) bs = Some (Inr (map descriptor_of cs))"
proof -
  note I = astikit.axioms(1)[OF assms(1)] and W = astikit.axioms(2)[OF assms(1)]
  have "int (length (bits_to_bytes (descriptors_bits cs))) = int (descriptors_size cs) + 2"
    by (simp add: descriptors_bits_def descriptors_size_def del: bits_of_numeral)
  then show ?thesis
    using astikit.codec_roundtrip[OF assms(1) bits_writer.emits_writeDescriptorsWithLength[OF W assms(2)]
      bytes_iterator.sim_parseDescriptors[OF I] reads_parseDescriptors[OF assms(2,3)]] by auto
qed

text \<open>
  \<^bold>\<open>C17\<close>. \<^verbatim>\<open>parseDescriptors\<close> returns, with descriptors or an error, and without a
  panic, on every input in which the tag byte of VBI data descriptors does not occur.
\<close>

theorem parseDescriptors_returns:
  assumes "bytes_iterator I" and "DescriptorTagVBIData \<notin> set bs"
  shows "\<exists>r. parseBytes I (parseDescriptors I) bs = Some r \<and> r \<noteq> Inl Panic"
proof -
  from goes_parseDescriptors[OF assms(2), of 0] obtain r where
    "parseBytes refIterator (parseDescriptors refIterator) bs = Some r" "r \<noteq> Inl Panic"
    by (auto simp: goes_def parseBytes_def)
  with bytes_iterator.parseBytes_transfer[OF assms(1) bytes_iterator.sim_parseDescriptors[OF assms(1)]]
  show ?thesis by blast
qed

text \<open>
  \<^bold>\<open>C18\<close>. For a VBI data service that is not one of the six line services the package does not
  read what it writes: \<^verbatim>\<open>writeDescriptorsWithLength\<close> writes a service of one reserved byte, and on
  these bytes \<^verbatim>\<open>parseDescriptors\<close> never returns, since the loop over the service neither
  reads nor skips its data.
\<close>

theorem vbi_data_diverges:
  assumes "astikit I W view" and "\<not> isVBILineService sid"
  shows "\<exists>bs. writeBytes W (writeDescriptorsWithLength W [vbi_descriptor sid]) = (Inr (int (length bs)), bs) \<and>
    parseBytes I (parseDescriptors I) bs = None"
proof -
  note I = astikit.axioms(1)[OF assms(1)] and W = astikit.axioms(2)[OF assms(1)]
  have len: "calcDescriptorLength (vbi_descriptor sid) = Some 3"
    by (simp add: calcDescriptorLength_def vbi_descriptor_def descriptor_tags calcDescriptorVBIDataLength_def)
  have dlen: "calcDescriptorsLength [vbi_descriptor sid] = Some 5" by (simp add: len)
  have tag: "dsc_Tag (vbi_descriptor sid) = DescriptorTagVBIData" by (simp add: vbi_descriptor_def)
  have data: "emits view (writeDescriptorData W (vbi_descriptor sid)) (bytes_to_bits [sid, 1, 0xff]) ()"
    by (simp add: writeDescriptorData_def vbi_descriptor_def descriptor_tags wderef_def writeDescriptorVBIData_def assms(2)
        del: bits_of_numeral) (rule bits_writer.emits_writeBatch_conv[OF W], simp)
  have "emits view (writeDescriptor W (vbi_descriptor sid)) (concat (map wcmd_bits [Wr (AU8 DescriptorTagVBIData), Wr (AU8 3)]) @
      bytes_to_bits [sid, 1, 0xff] @ []) (uint (3 :: uint8) + 2)"
    unfolding writeDescriptor_def len
    unfolding tag
    by (intro emits_wderef emits_wbind[OF bits_writer.emits_writeBatch[OF W]] emits_wbind[OF data] emits_wreturn)
  then have "emits view (writeDescriptor W (vbi_descriptor sid)) (bytes_to_bits [DescriptorTagVBIData, 3, sid, 1, 0xff]) 5"
    by (rule emits_conv) simp_all
  from emits_wfor_count[of "[vbi_descriptor sid]" view "writeDescriptor W"
      "\<lambda>_. bytes_to_bits [DescriptorTagVBIData, 3, sid, 1, 0xff]" "\<lambda>_. 5" 0] this
  have one: "emits view (writeDescriptors W [vbi_descriptor sid]) (bytes_to_bits [DescriptorTagVBIData, 3, sid, 1, 0xff]) 5"
    by (simp add: writeDescriptors_def del: bits_of_numeral bytes_to_bits_simps)
  have "emits view (writeDescriptorsWithLength W [vbi_descriptor sid])
      (concat (map wcmd_bits [WrN (AU8 0xff) 4, WrN (AU16 5) 12]) @ bytes_to_bits [DescriptorTagVBIData, 3, sid, 1, 0xff] @ []) (5 + 2)"
    unfolding writeDescriptorsWithLength_def
    unfolding dlen
    by (intro emits_wderef emits_wbind[OF bits_writer.emits_writeBatch[OF W]] emits_wbind[OF one] emits_wreturn)
  then have "emits view (writeDescriptorsWithLength W [vbi_descriptor sid]) (bytes_to_bits (vbi_bytes sid)) 7"
    by (rule emits_conv) (simp_all add: vbi_bytes_def)
  from bits_writer.writeBytes_emits[OF W this] have
    "writeBytes W (writeDescriptorsWithLength W [vbi_descriptor sid]) = (Inr (int (length (vbi_bytes sid))), vbi_bytes sid)"
    by (simp add: vbi_bytes_def del: bits_of_numeral bytes_to_bits_simps)
  with bytes_iterator.parseBytes_diverges[OF I bytes_iterator.sim_parseDescriptors[OF I] parse_vbi_bytes[OF assms(2)]]
  show ?thesis by blast
qed

section \<open>Witnesses\<close>

definition sampleContents :: "content list" where
  "sampleContents =
     [CRegistration \<lparr>reg_AdditionalIdentificationInfo = [1, 2], reg_FormatIdentifier = 0x48444d56\<rparr>,
      CISO639LanguageAndAudioType \<lparr>iso_Language = [0x65, 0x6e, 0x67], iso_Type = 3\<rparr>,
      CTeletext [\<lparr>ttx_Language = [0x66, 0x72, 0x61], ttx_Magazine = 1, ttx_Page = 88, ttx_Type = 2\<rparr>],
      CUserDefined 0x83 [7, 8, 9]]"

lemma sampleContents: "\<forall>c\<in>set sampleContents. wf_content c" "descriptors_size sampleContents < 4096"
  by (simp_all add: sampleContents_def wf_content_def payload_def fits_def teletext_item_bits_def)

theorem descriptors_roundtrip_witness:
  "\<exists>bs. writeBytes refWriter (writeDescriptorsWithLength refWriter (map descriptor_of sampleContents)) = (Inr (int (length bs)), bs) \<and>
    parseBytes refIterator (parseDescriptors refIterator) bs = Some (Inr (map descriptor_of sampleContents))"
  by (rule descriptors_roundtrip[OF ref_astikit.astikit_axioms sampleContents])

theorem parseDescriptors_returns_witness:
  "\<exists>r. parseBytes refIterator (parseDescriptors refIterator) [0xf0, 4, 0x40, 9, 1, 2] = Some r \<and> r \<noteq> Inl Panic"
  by (rule parseDescriptors_returns[OF ref_iterator.bytes_iterator_axioms]) (simp add: DescriptorTagVBIData_def)

theorem vbi_data_diverges_witness:
  "\<exists>bs. writeBytes refWriter (writeDescriptorsWithLength refWriter [vbi_descriptor 3]) = (Inr (int (length bs)), bs) \<and>
    parseBytes refIterator (parseDescriptors refIterator) bs = None"
  by (rule vbi_data_diverges[OF ref_astikit.astikit_axioms]) (simp add: isVBILineService_def)

end
