(* ===== verification/Pat.thy ===== *)
theory Pat
  imports Descriptor_Codec "HOL-Library.Mapping"
begin

text \<open>
  \<^verbatim>\<open>data_pat.go\<close> and \<^verbatim>\<open>program_map.go\<close>: program association tables and the map from
  the PIDs of program map tables to program numbers. The map's mutex is not modelled: its methods
  are called in sequence.
\<close>

section \<open>Program association tables\<close>

definition patSectionEntryBytesSize :: int where "patSectionEntryBytesSize = 4"

record PATProgram =
  pgm_ProgramMapID :: uint16
  pgm_ProgramNumber :: uint16

record PATData =
  pat_Programs :: "PATProgram list"
  pat_TransportStreamID :: uint16

definition parsePATSection :: "'i BytesIterator \<Rightarrow> int \<Rightarrow> uint16 \<Rightarrow> ('i, PATData) parser" where
  "parsePATSection I offsetSectionsEnd tableIDExtension =
     pbind (parseItems I offsetSectionsEnd
       (pbind (fetchBytesNoCopy I 4) (\<lambda>bs.
        preturn \<lparr>pgm_ProgramMapID = push_bit 8 (ucast (bs ! 2 AND 0x1f)) OR ucast (bs ! 3),
          pgm_ProgramNumber = push_bit 8 (ucast (bs ! 0)) OR ucast (bs ! 1)\<rparr>))) (\<lambda>programs.
     preturn \<lparr>pat_Programs = programs, pat_TransportStreamID = tableIDExtension\<rparr>)"

definition calcPATSectionLength :: "PATData \<Rightarrow> uint16" where
  "calcPATSectionLength d = word_of_nat (4 * length (pat_Programs d))"

definition writePATSection :: "'w BitsWriter \<Rightarrow> PATData \<Rightarrow> ('w, error, int) writer" where
  "writePATSection W d =
     wbind (batch W (concat (map (\<lambda>p.
       [Wr (AU16 (pgm_ProgramNumber p)), WrN (AU8 0xff) 3, WrN (AU16 (pgm_ProgramMapID p)) 13]) (pat_Programs d))) None) (\<lambda>b.
     wdone (int (length (pat_Programs d)) * patSectionEntryBytesSize) b)"

section \<open>The program map\<close>

record programMap =
  pm_p :: "(uint16, uint16) mapping"

definition newProgramMap :: programMap where
  "newProgramMap = \<lparr>pm_p = Mapping.empty\<rparr>"

definition pm_exists :: "programMap \<Rightarrow> uint16 \<Rightarrow> bool" where
  "pm_exists m pid = (Mapping.lookup (pm_p m) pid \<noteq> None)"

definition pm_set :: "programMap \<Rightarrow> uint16 \<Rightarrow> uint16 \<Rightarrow> programMap" where
  "pm_set m pid number = m\<lparr>pm_p := Mapping.update pid number (pm_p m)\<rparr>"

definition pm_unset :: "programMap \<Rightarrow> uint16 \<Rightarrow> programMap" where
  "pm_unset m pid = m\<lparr>pm_p := Mapping.delete pid (pm_p m)\<rparr>"

text \<open>
  Go's iteration over a map visits the keys in an order that the language leaves open: the
  parameter \<open>rng\<close> lists them in some order. The locale states what it promises.
\<close>

locale map_range =
  fixes rng :: "'k set \<Rightarrow> 'k list"
  assumes distinct_rng: "finite A \<Longrightarrow> distinct (rng A)"
    and set_rng: "finite A \<Longrightarrow> set (rng A) = A"
begin

lemma length_rng: "finite A \<Longrightarrow> length (rng A) = card A"
  using distinct_card[OF distinct_rng] set_rng by simp

lemma rng_single: "rng {a} = [a]"
proof -
  have "length (rng {a}) = 1" using length_rng[of "{a}"] by simp
  then obtain x where "rng {a} = [x]" by (auto simp: length_Suc_conv)
  with set_rng[of "{a}"] show ?thesis by simp
qed

end

interpretation sorted_range: map_range "sorted_list_of_set :: uint16 set \<Rightarrow> uint16 list"
  by unfold_locales simp_all

definition toPATData :: "(uint16 set \<Rightarrow> uint16 list) \<Rightarrow> programMap \<Rightarrow> PATData" where
  "toPATData rng m = \<lparr>
     pat_Programs = map (\<lambda>pid. \<lparr>pgm_ProgramMapID = pid, pgm_ProgramNumber = the (Mapping.lookup (pm_p m) pid)\<rparr>)
       (rng (Mapping.keys (pm_p m))),
     pat_TransportStreamID = 0\<rparr>"

end
