(* ===== verification/Pmt.thy ===== *)
theory Pmt
  imports Pat
begin

text \<open>\<^verbatim>\<open>data_pmt.go\<close>: program map tables and stream types.\<close>

section \<open>Stream types\<close>

type_synonym StreamType = uint8

definition StreamTypeMPEG1Video :: StreamType where "StreamTypeMPEG1Video = 0x01"
definition StreamTypeMPEG2Video :: StreamType where "StreamTypeMPEG2Video = 0x02"
definition StreamTypeMPEG1Audio :: StreamType where "StreamTypeMPEG1Audio = 0x03"
definition StreamTypeMPEG2HalvedSampleRateAudio :: StreamType where "StreamTypeMPEG2HalvedSampleRateAudio = 0x04"
definition StreamTypeMPEG2Audio :: StreamType where "StreamTypeMPEG2Audio = 0x04"
definition StreamTypePrivateSection :: StreamType where "StreamTypePrivateSection = 0x05"
definition StreamTypePrivateData :: StreamType where "StreamTypePrivateData = 0x06"
definition StreamTypeMPEG2PacketizedData :: StreamType where "StreamTypeMPEG2PacketizedData = 0x06"
definition StreamTypeADTS :: StreamType where "StreamTypeADTS = 0x0f"
definition StreamTypeAACAudio :: StreamType where "StreamTypeAACAudio = 0x0f"
definition StreamTypeMPEG4Video :: StreamType where "StreamTypeMPEG4Video = 0x10"
definition StreamTypeAACLATMAudio :: StreamType where "StreamTypeAACLATMAudio = 0x11"
definition StreamTypeMetadata :: StreamType where "StreamTypeMetadata = 0x15"
definition StreamTypeH264Video :: StreamType where "StreamTypeH264Video = 0x1b"
definition StreamTypeH265Video :: StreamType where "StreamTypeH265Video = 0x24"
definition StreamTypeHEVCVideo :: StreamType where "StreamTypeHEVCVideo = 0x24"
definition StreamTypeCAVSVideo :: StreamType where "StreamTypeCAVSVideo = 0x42"
definition StreamTypeVC1Video :: StreamType where "StreamTypeVC1Video = 0xea"
definition StreamTypeDIRACVideo :: StreamType where "StreamTypeDIRACVideo = 0xd1"
definition StreamTypeAC3Audio :: StreamType where "StreamTypeAC3Audio = 0x81"
definition StreamTypeDTSAudio :: StreamType where "StreamTypeDTSAudio = 0x82"
definition StreamTypeTRUEHDAudio :: StreamType where "StreamTypeTRUEHDAudio = 0x83"
definition StreamTypeEAC3Audio :: StreamType where "StreamTypeEAC3Audio = 0x87"

lemmas stream_types = StreamTypeMPEG1Video_def StreamTypeMPEG2Video_def StreamTypeMPEG1Audio_def
  StreamTypeMPEG2HalvedSampleRateAudio_def
  StreamTypeMPEG2PacketizedData_def StreamTypeADTS_def StreamTypeHEVCVideo_def
  StreamTypeMPEG2Audio_def StreamTypePrivateSection_def StreamTypePrivateData_def StreamTypeAACAudio_def
  StreamTypeMPEG4Video_def StreamTypeAACLATMAudio_def StreamTypeMetadata_def StreamTypeH264Video_def
  StreamTypeH265Video_def StreamTypeCAVSVideo_def StreamTypeVC1Video_def StreamTypeDIRACVideo_def
  StreamTypeAC3Audio_def StreamTypeDTSAudio_def StreamTypeTRUEHDAudio_def StreamTypeEAC3Audio_def

definition IsVideo :: "StreamType \<Rightarrow> bool" where
  "IsVideo t \<longleftrightarrow> t \<in> {StreamTypeMPEG1Video, StreamTypeMPEG2Video, StreamTypeMPEG4Video, StreamTypeH264Video,
     StreamTypeH265Video, StreamTypeCAVSVideo, StreamTypeVC1Video, StreamTypeDIRACVideo}"

definition IsAudio :: "StreamType \<Rightarrow> bool" where
  "IsAudio t \<longleftrightarrow> t \<in> {StreamTypeMPEG1Audio, StreamTypeMPEG2Audio, StreamTypeAACAudio, StreamTypeAACLATMAudio,
     StreamTypeAC3Audio, StreamTypeDTSAudio, StreamTypeTRUEHDAudio, StreamTypeEAC3Audio}"

definition StreamType_String :: "StreamType \<Rightarrow> string" where
  "StreamType_String t =
     (if t = StreamTypeMPEG1Video then ''MPEG1 Video''
      else if t = StreamTypeMPEG2Video then ''MPEG2 Video''
      else if t = StreamTypeMPEG1Audio then ''MPEG1 Audio''
      else if t = StreamTypeMPEG2Audio then ''MPEG2 Audio''
      else if t = StreamTypePrivateSection then ''Private Section''
      else if t = StreamTypePrivateData then ''Private Data''
      else if t = StreamTypeAACAudio then ''AAC Audio''
      else if t = StreamTypeMPEG4Video then ''MPEG4 Video''
      else if t = StreamTypeAACLATMAudio then ''AAC LATM Audio''
      else if t = StreamTypeMetadata then ''Metadata''
      else if t = StreamTypeH264Video then ''H264 Video''
      else if t = StreamTypeH265Video then ''H265 Video''
      else if t = StreamTypeCAVSVideo then ''CAVS Video''
      else if t = StreamTypeVC1Video then ''VC1 Video''
      else if t = StreamTypeDIRACVideo then ''DIRAC Video''
      else if t = StreamTypeAC3Audio then ''AC3 Audio''
      else if t = StreamTypeDTSAudio then ''DTS Audio''
      else if t = StreamTypeTRUEHDAudio then ''TRUEHD Audio''
      else if t = StreamTypeEAC3Audio then ''EAC3 Audio''
      else ''Unknown'')"

definition ToPESStreamID :: "StreamType \<Rightarrow> uint8" where
  "ToPESStreamID t =
     (if t \<in> {StreamTypeMPEG1Video, StreamTypeMPEG2Video, StreamTypeMPEG4Video, StreamTypeH264Video,
        StreamTypeH265Video, StreamTypeCAVSVideo, StreamTypeVC1Video} then 0xe0
      else if t = StreamTypeDIRACVideo then 0xfd
      else if t \<in> {StreamTypeMPEG2Audio, StreamTypeAACAudio, StreamTypeAACLATMAudio} then 0xc0
      else if t \<in> {StreamTypeAC3Audio, StreamTypeEAC3Audio} then 0xfd
      else if t \<in> {StreamTypePrivateSection, StreamTypePrivateData, StreamTypeMetadata} then 0xfc
      else 0xbd)"

section \<open>Program map tables\<close>

record PMTElementaryStream =
  es_ElementaryPID :: uint16
  es_ElementaryStreamDescriptors :: "Descriptor list"
  es_StreamType :: StreamType

record PMTData =
  pmt_ElementaryStreams :: "PMTElementaryStream list"
  pmt_PCRPID :: uint16
  pmt_ProgramDescriptors :: "Descriptor list"
  pmt_ProgramNumber :: uint16

definition parseDescriptorsOf :: "'i BytesIterator \<Rightarrow> ('i, Descriptor list) parser" where
  "parseDescriptorsOf I = pwrap ''astits: parsing descriptors failed: '' (parseDescriptors I)"

definition parsePMTElementaryStream :: "'i BytesIterator \<Rightarrow> ('i, PMTElementaryStream) parser" where
  "parsePMTElementaryStream I =
     pbind (fetchByte I) (\<lambda>b.
     pbind (fetchBytesNoCopy I 2) (\<lambda>bs.
     pbind (parseDescriptorsOf I) (\<lambda>ds.
     preturn \<lparr>es_ElementaryPID = push_bit 8 (ucast (bs ! 0 AND 0x1f)) OR ucast (bs ! 1),
       es_ElementaryStreamDescriptors = ds, es_StreamType = b\<rparr>)))"

definition parsePMTSection :: "'i BytesIterator \<Rightarrow> int \<Rightarrow> uint16 \<Rightarrow> ('i, PMTData) parser" where
  "parsePMTSection I offsetSectionsEnd tableIDExtension =
     pbind (fetchBytesNoCopy I 2) (\<lambda>bs.
     pbind (parseDescriptorsOf I) (\<lambda>ds.
     pbind (parseItems I offsetSectionsEnd (parsePMTElementaryStream I)) (\<lambda>es.
     preturn \<lparr>pmt_ElementaryStreams = es, pmt_PCRPID = push_bit 8 (ucast (bs ! 0 AND 0x1f)) OR ucast (bs ! 1),
       pmt_ProgramDescriptors = ds, pmt_ProgramNumber = tableIDExtension\<rparr>)))"

text \<open>\<^verbatim>\<open>uint16\<close> arithmetic; \<^const>\<open>None\<close> is a panic in the length of a descriptor.\<close>

primrec calcPMTStreamsLength :: "PMTElementaryStream list \<Rightarrow> uint16 option" where
  "calcPMTStreamsLength [] = Some 0"
| "calcPMTStreamsLength (e # es) =
     (case (calcDescriptorsLength (es_ElementaryStreamDescriptors e), calcPMTStreamsLength es) of
       (Some n, Some m) \<Rightarrow> Some (5 + n + m) | _ \<Rightarrow> None)"

definition calcPMTProgramInfoLength :: "PMTData \<Rightarrow> uint16 option" where
  "calcPMTProgramInfoLength d =
     (case (calcDescriptorsLength (pmt_ProgramDescriptors d), calcPMTStreamsLength (pmt_ElementaryStreams d)) of
       (Some n, Some m) \<Rightarrow> Some (2 + n + m) | _ \<Rightarrow> None)"

definition calcPMTSectionLength :: "PMTData \<Rightarrow> uint16 option" where
  "calcPMTSectionLength d =
     (case (calcDescriptorsLength (pmt_ProgramDescriptors d), calcPMTStreamsLength (pmt_ElementaryStreams d)) of
       (Some n, Some m) \<Rightarrow> Some (4 + n + m) | _ \<Rightarrow> None)"

text \<open>One batch for the section; the descriptors go through the writer itself.\<close>

definition writePMTSection :: "'w BitsWriter \<Rightarrow> PMTData \<Rightarrow> ('w, error, int) writer" where
  "writePMTSection W d =
     wbind (batch W [WrN (AU8 0xff) 3, WrN (AU16 (pmt_PCRPID d)) 13] None) (\<lambda>b.
     wbind (writeDescriptorsWithLength W (pmt_ProgramDescriptors d)) (\<lambda>n.
     wbind (wfor (pmt_ElementaryStreams d) (\<lambda>es (b, bytesWritten).
       wbind (batch W [Wr (AU8 (es_StreamType es)), WrN (AU8 0xff) 3, WrN (AU16 (es_ElementaryPID es)) 13] b) (\<lambda>b.
       wbind (writeDescriptorsWithLength W (es_ElementaryStreamDescriptors es)) (\<lambda>n.
       wreturn (b, bytesWritten + 3 + n)))) (b, 2 + n)) (\<lambda>(b, bytesWritten).
     wdone bytesWritten b)))"

end
