(* ===== verification/Tables.thy ===== *)
theory Tables
  imports Pmt
begin

text \<open>
  \<^verbatim>\<open>data_nit.go\<close>, \<^verbatim>\<open>data_sdt.go\<close>, \<^verbatim>\<open>data_eit.go\<close> and
  \<^verbatim>\<open>data_tot.go\<close>: the tables that the package reads but does not write.
\<close>

section \<open>Network information tables\<close>

record NITDataTransportStream =
  nts_OriginalNetworkID :: uint16
  nts_TransportDescriptors :: "Descriptor list"
  nts_TransportStreamID :: uint16

record NITData =
  nit_NetworkDescriptors :: "Descriptor list"
  nit_NetworkID :: uint16
  nit_TransportStreams :: "NITDataTransportStream list"

definition parseNITSection :: "'i BytesIterator \<Rightarrow> uint16 \<Rightarrow> ('i, NITData) parser" where
  "parseNITSection I tableIDExtension =
     pbind (parseDescriptorsOf I) (\<lambda>networkDescriptors.
     pbind (fetchBytesNoCopy I 2) (\<lambda>bs.
     let transportStreamLoopLength = uint (push_bit 8 (ucast (bs ! 0 AND 0xf)) OR ucast (bs ! 1) :: uint16) in
     pbind (offset I) (\<lambda>o'.
     pbind (parseItems I (o' + transportStreamLoopLength)
       (pbind (fetchUint16 I) (\<lambda>transportStreamID.
        pbind (fetchUint16 I) (\<lambda>originalNetworkID.
        pbind (parseDescriptorsOf I) (\<lambda>ds.
        preturn \<lparr>nts_OriginalNetworkID = originalNetworkID, nts_TransportDescriptors = ds,
          nts_TransportStreamID = transportStreamID\<rparr>))))) (\<lambda>transportStreams.
     preturn \<lparr>nit_NetworkDescriptors = networkDescriptors, nit_NetworkID = tableIDExtension,
       nit_TransportStreams = transportStreams\<rparr>))))"

section \<open>Service description tables\<close>

definition RunningStatusNotRunning :: uint8 where "RunningStatusNotRunning = 1"
definition RunningStatusPausing :: uint8 where "RunningStatusPausing = 3"
definition RunningStatusRunning :: uint8 where "RunningStatusRunning = 4"
definition RunningStatusServiceOffAir :: uint8 where "RunningStatusServiceOffAir = 5"
definition RunningStatusStartsInAFewSeconds :: uint8 where "RunningStatusStartsInAFewSeconds = 2"
definition RunningStatusUndefined :: uint8 where "RunningStatusUndefined = 0"

record SDTDataService =
  svc_Descriptors :: "Descriptor list"
  svc_HasEITPresentFollowing :: bool
  svc_HasEITSchedule :: bool
  svc_HasFreeCSAMode :: bool
  svc_RunningStatus :: uint8
  svc_ServiceID :: uint16

record SDTData =
  sdt_OriginalNetworkID :: uint16
  sdt_Services :: "SDTDataService list"
  sdt_TransportStreamID :: uint16

text \<open>The byte of the running status is also the first of the descriptors' length: it is read twice.\<close>

definition parseSDTService :: "'i BytesIterator \<Rightarrow> ('i, SDTDataService) parser" where
  "parseSDTService I =
     pbind (fetchUint16 I) (\<lambda>serviceID.
     pbind (fetchByte I) (\<lambda>b.
     pbind (fetchByte I) (\<lambda>b'.
     pbind (skip I (-1)) (\<lambda>_.
     pbind (parseDescriptorsOf I) (\<lambda>ds.
     preturn \<lparr>svc_Descriptors = ds, svc_HasEITPresentFollowing = 0 < b AND 0x1, svc_HasEITSchedule = 0 < b AND 0x2,
       svc_HasFreeCSAMode = 0 < b' AND 0x10, svc_RunningStatus = drop_bit 5 b', svc_ServiceID = serviceID\<rparr>)))))"

definition parseSDTSection :: "'i BytesIterator \<Rightarrow> int \<Rightarrow> uint16 \<Rightarrow> ('i, SDTData) parser" where
  "parseSDTSection I offsetSectionsEnd tableIDExtension =
     pbind (fetchUint16 I) (\<lambda>originalNetworkID.
     pbind (skip I 1) (\<lambda>_.
     pbind (parseItems I offsetSectionsEnd (parseSDTService I)) (\<lambda>services.
     preturn \<lparr>sdt_OriginalNetworkID = originalNetworkID, sdt_Services = services,
       sdt_TransportStreamID = tableIDExtension\<rparr>)))"

section \<open>Event information tables\<close>

record EITDataEvent =
  ev_Descriptors :: "Descriptor list"
  ev_Duration :: int
  ev_EventID :: uint16
  ev_HasFreeCSAMode :: bool
  ev_RunningStatus :: uint8
  ev_StartTime :: int

record EITData =
  eit_Events :: "EITDataEvent list"
  eit_LastTableID :: uint8
  eit_OriginalNetworkID :: uint16
  eit_SegmentLastSectionNumber :: uint8
  eit_ServiceID :: uint16
  eit_TransportStreamID :: uint16

text \<open>The error of the start time is replaced, not wrapped.\<close>

definition parseEITEvent :: "'i BytesIterator \<Rightarrow> ('i, EITDataEvent) parser" where
  "parseEITEvent I =
     pbind (fetchUint16 I) (\<lambda>eventID.
     pbind (pinstead (ErrMessage ''astits: parsing DVB time'' []) (parseDVBTime I)) (\<lambda>startTime.
     pbind (pwrap ''astits: parsing DVB duration seconds failed: '' (parseDVBDurationSeconds I)) (\<lambda>duration.
     pbind (fetchByte I) (\<lambda>b.
     pbind (skip I (-1)) (\<lambda>_.
     pbind (parseDescriptorsOf I) (\<lambda>ds.
     preturn \<lparr>ev_Descriptors = ds, ev_Duration = duration, ev_EventID = eventID,
       ev_HasFreeCSAMode = 0 < b AND 0x10, ev_RunningStatus = drop_bit 5 b, ev_StartTime = startTime\<rparr>))))))"

definition parseEITSection :: "'i BytesIterator \<Rightarrow> int \<Rightarrow> uint16 \<Rightarrow> ('i, EITData) parser" where
  "parseEITSection I offsetSectionsEnd tableIDExtension =
     pbind (fetchUint16 I) (\<lambda>transportStreamID.
     pbind (fetchUint16 I) (\<lambda>originalNetworkID.
     pbind (fetchByte I) (\<lambda>segmentLastSectionNumber.
     pbind (fetchByte I) (\<lambda>lastTableID.
     pbind (parseItems I offsetSectionsEnd (parseEITEvent I)) (\<lambda>events.
     preturn \<lparr>eit_Events = events, eit_LastTableID = lastTableID, eit_OriginalNetworkID = originalNetworkID,
       eit_SegmentLastSectionNumber = segmentLastSectionNumber, eit_ServiceID = tableIDExtension,
       eit_TransportStreamID = transportStreamID\<rparr>)))))"

section \<open>Time offset tables\<close>

record TOTData =
  tot_Descriptors :: "Descriptor list"
  tot_UTCTime :: int

definition parseTOTSection :: "'i BytesIterator \<Rightarrow> ('i, TOTData) parser" where
  "parseTOTSection I =
     pbind (pwrap ''astits: parsing DVB time failed: '' (parseDVBTime I)) (\<lambda>utcTime.
     pbind (parseDescriptorsOf I) (\<lambda>ds.
     preturn \<lparr>tot_Descriptors = ds, tot_UTCTime = utcTime\<rparr>))"

end
