(* ===== verification/Crc32.thy ===== *)
theory Crc32
  imports Prelude
begin

text \<open>
  \<^verbatim>\<open>crc32.go\<close>: the CRC of the tables of a transport stream, byte by byte and bit by
  bit as the code computes it. The lemmas relate it to a shift register over the message's bits,
  show that it may be computed in pieces, that a message followed by its own CRC has CRC zero, and
  that it detects every corruption confined to four consecutive bytes.
\<close>

section \<open>The code\<close>

definition crc32Polynomial :: uint32 where
  "crc32Polynomial = 0xffffffff"

text \<open>One turn of the inner loop of \<^verbatim>\<open>updateCRC32\<close>, over its two variables.\<close>

definition crc32Turn :: "uint32 \<times> byte \<Rightarrow> uint32 \<times> byte" where
  "crc32Turn = (\<lambda>(crc32, b).
     (if (0x80000000 \<le> crc32) \<noteq> (0x80 \<le> b)
      then (push_bit 1 crc32 XOR 0x04C11DB7, push_bit 1 b)
      else (push_bit 1 crc32, push_bit 1 b)))"

primrec updateCRC32 :: "uint32 \<Rightarrow> byte list \<Rightarrow> uint32" where
  "updateCRC32 crc32 [] = crc32"
| "updateCRC32 crc32 (b # bs) = updateCRC32 (fst ((crc32Turn ^^ 8) (crc32, b))) bs"

definition computeCRC32 :: "byte list \<Rightarrow> uint32" where
  "computeCRC32 bs = updateCRC32 crc32Polynomial bs"

text \<open>A \<^verbatim>\<open>uint32\<close> as the four bytes that \<^verbatim>\<open>b.Write(sectionCRC32)\<close> writes.\<close>

definition be32 :: "uint32 \<Rightarrow> byte list" where
  "be32 c = bits_to_bytes (bits_of 32 c)"

section \<open>A shift register over bits\<close>

text \<open>\<open>crcZero\<close> is a turn with message bit 0; \<open>crcBits\<close> feeds a bit string.\<close>

definition crcZero :: "uint32 \<Rightarrow> uint32" where
  "crcZero c = push_bit 1 c XOR (if bit c 31 then 0x04C11DB7 else 0)"

primrec crcBits :: "uint32 \<Rightarrow> bool list \<Rightarrow> uint32" where
  "crcBits c [] = c"
| "crcBits c (b # bs) = crcBits (crcZero (c XOR (if b then 0x80000000 else 0))) bs"

lemma crc32Turn_eq: "crc32Turn (c, b) = (crcBits c [bit b 7], push_bit 1 b)"
proof -
  have c: "0x80000000 \<le> c \<longleftrightarrow> bit c 31" using top_bit[of 31 c] by simp
  have b: "0x80 \<le> b \<longleftrightarrow> bit b 7" using top_bit[of 7 b] by simp
  show ?thesis
    by (cases "bit c 31"; cases "bit b 7") (simp_all add: crc32Turn_def crcZero_def c b word_eq_bits bit_simps)
qed

lemma crcBits_append: "crcBits c (xs @ ys) = crcBits (crcBits c xs) ys"
  by (induction xs arbitrary: c) simp_all

lemma crc32Turn_funpow:
  "n \<le> 8 \<Longrightarrow> (crc32Turn ^^ n) (c, b) = (crcBits c (take n (bits_of 8 b)), push_bit n b)"
proof (induction n)
  case 0
  then show ?case by simp
next
  case (Suc n)
  have "bits_of 8 b ! n = bit (push_bit n b) 7"
    using Suc.prems nth_bits_of[of n 8 b] by (simp add: bit_simps del: bits_of_numeral)
  then have "take (Suc n) (bits_of 8 b) = take n (bits_of 8 b) @ [bit (push_bit n b) 7]"
    using Suc.prems by (simp add: take_Suc_conv_app_nth del: bits_of_numeral)
  with Suc show ?case
    by (simp add: crc32Turn_eq crcBits_append push_bit_push_bit del: bits_of_numeral crcBits.simps)
qed

lemma crc32Turn_byte: "fst ((crc32Turn ^^ 8) (c, b)) = crcBits c (bits_of 8 b)"
  by (simp add: crc32Turn_funpow del: bits_of_numeral)

lemma updateCRC32_bits: "updateCRC32 c bs = crcBits c (bytes_to_bits bs)"
  by (induction bs arbitrary: c)
    (simp_all only: updateCRC32.simps crc32Turn_byte bytes_to_bits_simps crcBits_append crcBits.simps)

lemma updateCRC32_append: "updateCRC32 c (xs @ ys) = updateCRC32 (updateCRC32 c xs) ys"
  by (induction xs arbitrary: c) simp_all

section \<open>The register is invertible\<close>

text \<open>The polynomial has a constant term, so a turn shifts the top bit into bit 0.\<close>

lemma bit_crcZero_0: "bit (crcZero c) 0 = bit c 31"
  by (simp add: crcZero_def bit_simps)

lemma bit_push_bit_1: "n < 31 \<Longrightarrow> bit (push_bit 1 (c :: uint32)) (Suc n) = bit c n"
  by (simp add: bit_simps)

lemma crcZero_inj: "crcZero c = crcZero d \<longleftrightarrow> c = d"
proof
  assume eq: "crcZero c = crcZero d"
  then have top: "bit c 31 = bit d 31" by (metis bit_crcZero_0)
  with eq have sh: "push_bit 1 c = push_bit 1 d"
    by (simp add: crcZero_def)
  show "c = d"
  proof (rule bit_word_eqI)
    fix n assume "n < LENGTH(32)"
    then consider "n = 31" | "n < 31" by force
    then show "bit c n = bit d n"
      by cases (use top sh in \<open>auto simp flip: bit_push_bit_1\<close>)
  qed
qed simp

lemma crcBits_inj: "crcBits c xs = crcBits d xs \<longleftrightarrow> c = d"
  by (induction xs arbitrary: c d) (simp_all add: crcZero_inj)

text \<open>Bits that do not reach the top of the register pass through a turn unchanged.\<close>

lemma crcZero_xor: "\<not> bit y 31 \<Longrightarrow> crcZero (x XOR y) = crcZero x XOR push_bit 1 y"
  by (simp add: crcZero_def bit_simps xor.assoc xor.commute xor.left_commute push_bit_xor)

section \<open>Up to 32 message bits are one exclusive-or into the register\<close>

primrec align :: "bool list \<Rightarrow> uint32" where
  "align [] = 0"
| "align (b # bs) = (if b then 0x80000000 else 0) XOR drop_bit 1 (align bs)"

lemma bit_align: "length bs \<le> 32 \<Longrightarrow> n < 32 \<Longrightarrow> bit (align bs) n \<longleftrightarrow> 31 - n < length bs \<and> bs ! (31 - n)"
proof (induction bs arbitrary: n)
  case Nil
  then show ?case by simp
next
  case (Cons b bs)
  have top: "bit (0x80000000 :: uint32) n \<longleftrightarrow> n = 31"
    using bit_exp_iff[of 31 n, where 'a = uint32] Cons.prems by simp
  show ?case
  proof (cases "n = 31")
    case True
    then show ?thesis by (simp add: bit_simps)
  next
    case False
    with Cons.prems have "31 - n = Suc (31 - Suc n)" by simp
    with False Cons.prems Cons.IH[of "Suc n"] top show ?thesis
      by (auto simp: bit_simps)
  qed
qed

lemma crcBits_align: "length bs \<le> 32 \<Longrightarrow> crcBits c bs = (crcZero ^^ length bs) (c XOR align bs)"
proof (induction bs arbitrary: c)
  case Nil
  then show ?case by simp
next
  case (Cons b bs)
  let ?t = "if b then 0x80000000 else 0 :: uint32" and ?a = "align bs"
  have low: "push_bit 1 (drop_bit 1 ?a) = ?a"
  proof (rule bit_word_eqI)
    fix n assume "n < LENGTH(32)"
    with Cons.prems bit_align[of bs 0] show "bit (push_bit 1 (drop_bit 1 ?a)) n = bit ?a n"
      by (cases n) (auto simp: bit_simps)
  qed
  have "crcZero (c XOR ?t) XOR ?a = crcZero (c XOR (?t XOR drop_bit 1 ?a))"
    using crcZero_xor[of "drop_bit 1 ?a" "c XOR ?t"] low by (simp add: bit_simps xor.assoc)
  with Cons show ?case by (simp add: funpow_swap1)
qed

lemma crcZero_funpow_inj: "(crcZero ^^ n) c = (crcZero ^^ n) d \<longleftrightarrow> c = d"
  by (induction n) (simp_all add: crcZero_inj)

lemma align_inj:
  assumes "length xs = length ys" "length xs \<le> 32" "align xs = align ys"
  shows "xs = ys"
proof (rule nth_equalityI)
  show "length xs = length ys" by (rule assms(1))
  fix i assume i: "i < length xs"
  with assms have "bit (align xs) (31 - i) \<longleftrightarrow> xs ! i" "bit (align ys) (31 - i) \<longleftrightarrow> ys ! i"
    using bit_align[of xs "31 - i"] bit_align[of ys "31 - i"] by simp_all
  with assms(3) show "xs ! i = ys ! i" by simp
qed

lemma align_bits_of: "align (bits_of 32 c) = c"
  by (rule bit_word_eqI) (auto simp: bit_align nth_bits_of simp del: bits_of_numeral)

lemma crcZero_funpow_0: "(crcZero ^^ n) 0 = 0"
  by (induction n) (simp_all add: crcZero_def)

lemma crcBits_self: "crcBits c (bits_of 32 c) = 0"
proof -
  have "crcBits c (bits_of 32 c) = (crcZero ^^ 32) (c XOR c)"
    using crcBits_align[of "bits_of 32 c" c] by (metis align_bits_of length_bits_of order_refl)
  then show ?thesis by (simp only: xor_self_eq crcZero_funpow_0)
qed

lemma crc32_burst:
  assumes "length e = length e'" and "length e \<le> 4"
    and "computeCRC32 (xs @ e @ ys) = computeCRC32 (xs @ e' @ ys)"
  shows "e = e'"
proof -
  let ?b = "bytes_to_bits e" and ?b' = "bytes_to_bits e'" and ?c = "updateCRC32 crc32Polynomial xs"
  from assms(3) have "crcBits ?c ?b = crcBits ?c ?b'"
    by (simp add: computeCRC32_def updateCRC32_bits crcBits_append crcBits_inj)
  with assms(1,2) have "align ?b = align ?b'"
    by (simp add: crcBits_align crcZero_funpow_inj)
  with assms(1,2) have "?b = ?b'" by (intro align_inj) simp_all
  then show ?thesis by (metis bits_to_bytes_bytes)
qed

lemma crc32_self: "computeCRC32 (bs @ be32 (computeCRC32 bs)) = 0"
proof -
  have "bytes_to_bits (be32 c) = bits_of 32 c" for c
    unfolding be32_def by (rule bytes_bits_inv) (simp only: length_bits_of, simp)
  then show ?thesis
    by (simp only: computeCRC32_def updateCRC32_append updateCRC32_bits[of _ "be32 _"] crcBits_self)
qed

text \<open>The four bytes of a checksum and the word that the parser joins them to.\<close>

lemma be32_join:
  assumes "length xs = 4"
  shows "be32 (push_bit 24 (ucast (xs ! 0)) OR push_bit 16 (ucast (xs ! 1)) OR push_bit 8 (ucast (xs ! 2)) OR ucast (xs ! 3)) = xs"
proof -
  obtain a b c d where "xs = [a, b, c, d]" using assms by (auto simp: numeral_eq_Suc length_Suc_conv)
  then show ?thesis by (simp add: be32_def word_eq_bits bit_simps)
qed

section \<open>Properties\<close>

text \<open>
  \<^bold>\<open>C15\<close>. The CRC of the transport stream tables detects every corruption that is
  confined to four consecutive bytes: two messages of the same length that differ only in a window of at most
  four bytes have the same CRC only if they are equal.
\<close>

theorem crc32_detects_bursts:
  assumes "length e = length e'" and "length e \<le> 4"
    and "computeCRC32 (xs @ e @ ys) = computeCRC32 (xs @ e' @ ys)"
  shows "e = e'"
  using assms by (rule crc32_burst)

theorem crc32_detects_bursts_witness:
  "computeCRC32 ([0x47] @ [1, 2, 3, 4] @ [0x10]) \<noteq> computeCRC32 ([0x47] @ [1, 2, 3, 5] @ [0x10])"
  using crc32_detects_bursts[of "[1, 2, 3, 4]" "[1, 2, 3, 5]" "[0x47]" "[0x10]"] by auto

text \<open>
  \<^bold>\<open>C28\<close>. A message followed by its own CRC has CRC zero, the residue that receivers test for.
\<close>

theorem crc32_residue: "computeCRC32 (bs @ be32 (computeCRC32 bs)) = 0"
  by (rule crc32_self)

end
