(* ===== verification/Psi.thy ===== *)
theory Psi
  imports Tables Crc32
begin

text \<open>
  \<^verbatim>\<open>data_psi.go\<close>: sections of program specific information, with their headers, the
  tables they carry and their checksum.
\<close>

section \<open>Table types and identifiers\<close>

definition PSITableTypeBAT :: string where "PSITableTypeBAT = ''BAT''"
definition PSITableTypeDIT :: string where "PSITableTypeDIT = ''DIT''"
definition PSITableTypeEIT :: string where "PSITableTypeEIT = ''EIT''"
definition PSITableTypeNIT :: string where "PSITableTypeNIT = ''NIT''"
definition PSITableTypeNull :: string where "PSITableTypeNull = ''Null''"
definition PSITableTypePAT :: string where "PSITableTypePAT = ''PAT''"
definition PSITableTypePMT :: string where "PSITableTypePMT = ''PMT''"
definition PSITableTypeRST :: string where "PSITableTypeRST = ''RST''"
definition PSITableTypeSDT :: string where "PSITableTypeSDT = ''SDT''"
definition PSITableTypeSIT :: string where "PSITableTypeSIT = ''SIT''"
definition PSITableTypeST :: string where "PSITableTypeST = ''ST''"
definition PSITableTypeTDT :: string where "PSITableTypeTDT = ''TDT''"
definition PSITableTypeTOT :: string where "PSITableTypeTOT = ''TOT''"
definition PSITableTypeUnknown :: string where "PSITableTypeUnknown = ''Unknown''"

lemmas table_types = PSITableTypeBAT_def PSITableTypeDIT_def PSITableTypeEIT_def PSITableTypeNIT_def
  PSITableTypeNull_def PSITableTypePAT_def PSITableTypePMT_def PSITableTypeRST_def PSITableTypeSDT_def
  PSITableTypeSIT_def PSITableTypeST_def PSITableTypeTDT_def PSITableTypeTOT_def PSITableTypeUnknown_def

type_synonym PSITableID = uint16

definition PSITableIDPAT :: PSITableID where "PSITableIDPAT = 0x00"
definition PSITableIDPMT :: PSITableID where "PSITableIDPMT = 0x02"
definition PSITableIDBAT :: PSITableID where "PSITableIDBAT = 0x4a"
definition PSITableIDDIT :: PSITableID where "PSITableIDDIT = 0x7e"
definition PSITableIDRST :: PSITableID where "PSITableIDRST = 0x71"
definition PSITableIDSIT :: PSITableID where "PSITableIDSIT = 0x7f"
definition PSITableIDST :: PSITableID where "PSITableIDST = 0x72"
definition PSITableIDTDT :: PSITableID where "PSITableIDTDT = 0x70"
definition PSITableIDTOT :: PSITableID where "PSITableIDTOT = 0x73"
definition PSITableIDNull :: PSITableID where "PSITableIDNull = 0xff"
definition PSITableIDEITStart :: PSITableID where "PSITableIDEITStart = 0x4e"
definition PSITableIDEITEnd :: PSITableID where "PSITableIDEITEnd = 0x6f"
definition PSITableIDSDTVariant1 :: PSITableID where "PSITableIDSDTVariant1 = 0x42"
definition PSITableIDSDTVariant2 :: PSITableID where "PSITableIDSDTVariant2 = 0x46"
definition PSITableIDNITVariant1 :: PSITableID where "PSITableIDNITVariant1 = 0x40"
definition PSITableIDNITVariant2 :: PSITableID where "PSITableIDNITVariant2 = 0x41"

lemmas table_ids = PSITableIDPAT_def PSITableIDPMT_def PSITableIDBAT_def PSITableIDDIT_def PSITableIDRST_def
  PSITableIDSIT_def PSITableIDST_def PSITableIDTDT_def PSITableIDTOT_def PSITableIDNull_def
  PSITableIDEITStart_def PSITableIDEITEnd_def PSITableIDSDTVariant1_def PSITableIDSDTVariant2_def
  PSITableIDNITVariant1_def PSITableIDNITVariant2_def

definition PSITableID_Type :: "PSITableID \<Rightarrow> string" where
  "PSITableID_Type t =
     (if t = PSITableIDBAT then PSITableTypeBAT
      else if t \<ge> PSITableIDEITStart \<and> t \<le> PSITableIDEITEnd then PSITableTypeEIT
      else if t = PSITableIDDIT then PSITableTypeDIT
      else if t = PSITableIDNITVariant1 \<or> t = PSITableIDNITVariant2 then PSITableTypeNIT
      else if t = PSITableIDNull then PSITableTypeNull
      else if t = PSITableIDPAT then PSITableTypePAT
      else if t = PSITableIDPMT then PSITableTypePMT
      else if t = PSITableIDRST then PSITableTypeRST
      else if t = PSITableIDSDTVariant1 \<or> t = PSITableIDSDTVariant2 then PSITableTypeSDT
      else if t = PSITableIDSIT then PSITableTypeSIT
      else if t = PSITableIDST then PSITableTypeST
      else if t = PSITableIDTDT then PSITableTypeTDT
      else if t = PSITableIDTOT then PSITableTypeTOT
      else PSITableTypeUnknown)"

definition hasPSISyntaxHeader :: "PSITableID \<Rightarrow> bool" where
  "hasPSISyntaxHeader t \<longleftrightarrow>
     t = PSITableIDPAT \<or>
     t = PSITableIDPMT \<or>
     t = PSITableIDNITVariant1 \<or> t = PSITableIDNITVariant2 \<or>
     t = PSITableIDSDTVariant1 \<or> t = PSITableIDSDTVariant2 \<or>
     (t \<ge> PSITableIDEITStart \<and> t \<le> PSITableIDEITEnd)"

definition hasCRC32 :: "PSITableID \<Rightarrow> bool" where
  "hasCRC32 t \<longleftrightarrow>
     t = PSITableIDPAT \<or>
     t = PSITableIDPMT \<or>
     t = PSITableIDTOT \<or>
     t = PSITableIDNITVariant1 \<or> t = PSITableIDNITVariant2 \<or>
     t = PSITableIDSDTVariant1 \<or> t = PSITableIDSDTVariant2 \<or>
     (t \<ge> PSITableIDEITStart \<and> t \<le> PSITableIDEITEnd)"

definition isUnknown :: "PSITableID \<Rightarrow> bool" where
  "isUnknown t \<longleftrightarrow>
     t \<notin> {PSITableIDBAT, PSITableIDDIT, PSITableIDNITVariant1, PSITableIDNITVariant2, PSITableIDNull,
       PSITableIDPAT, PSITableIDPMT, PSITableIDRST, PSITableIDSDTVariant1, PSITableIDSDTVariant2,
       PSITableIDSIT, PSITableIDST, PSITableIDTDT, PSITableIDTOT} \<and>
     \<not> (t \<ge> PSITableIDEITStart \<and> t \<le> PSITableIDEITEnd)"

definition shouldStopPSIParsing :: "PSITableID \<Rightarrow> bool" where
  "shouldStopPSIParsing tableID \<longleftrightarrow> tableID = PSITableIDNull \<or> isUnknown tableID"

section \<open>Sections\<close>

text \<open>Pointers of the structs are options.\<close>

record PSISectionHeader =
  psh_PrivateBit :: bool
  psh_SectionLength :: uint16
  psh_SectionSyntaxIndicator :: bool
  psh_TableID :: PSITableID
  psh_TableType :: string

record PSISectionSyntaxHeader =
  ssh_CurrentNextIndicator :: bool
  ssh_LastSectionNumber :: uint8
  ssh_SectionNumber :: uint8
  ssh_TableIDExtension :: uint16
  ssh_VersionNumber :: uint8

record PSISectionSyntaxData =
  ssd_EIT :: "EITData option"
  ssd_NIT :: "NITData option"
  ssd_PAT :: "PATData option"
  ssd_PMT :: "PMTData option"
  ssd_SDT :: "SDTData option"
  ssd_TOT :: "TOTData option"

record PSISectionSyntax =
  syn_Data :: "PSISectionSyntaxData option"
  syn_Header :: "PSISectionSyntaxHeader option"

record PSISection =
  sec_CRC32 :: uint32
  sec_Header :: "PSISectionHeader option"
  sec_Syntax :: "PSISectionSyntax option"

record PSIData =
  psi_PointerField :: int
  psi_Sections :: "PSISection list"

definition emptyPSISectionSyntaxData :: PSISectionSyntaxData where
  "emptyPSISectionSyntaxData =
     \<lparr>ssd_EIT = None, ssd_NIT = None, ssd_PAT = None, ssd_PMT = None, ssd_SDT = None, ssd_TOT = None\<rparr>"

section \<open>Parsing\<close>

definition parseCRC32 :: "'i BytesIterator \<Rightarrow> ('i, uint32) parser" where
  "parseCRC32 I =
     pbind (fetchBytesNoCopy I 4) (\<lambda>bs.
     preturn (push_bit 24 (ucast (bs ! 0)) OR push_bit 16 (ucast (bs ! 1)) OR push_bit 8 (ucast (bs ! 2)) OR ucast (bs ! 3)))"

text \<open>The result: the header and the offsets start, sections start, sections end and end.\<close>

definition parsePSISectionHeader :: "'i BytesIterator \<Rightarrow> ('i, PSISectionHeader \<times> int \<times> int \<times> int \<times> int) parser" where
  "parsePSISectionHeader I =
     pbind (offset I) (\<lambda>offsetStart.
     pbind (fetchByte I) (\<lambda>b.
     let tableID = ucast b; tableType = PSITableID_Type tableID in
     if shouldStopPSIParsing tableID
     then preturn (\<lparr>psh_PrivateBit = False, psh_SectionLength = 0, psh_SectionSyntaxIndicator = False,
       psh_TableID = tableID, psh_TableType = tableType\<rparr>, offsetStart, 0, 0, 0)
     else
       pbind (fetchBytesNoCopy I 2) (\<lambda>bs.
       let sectionLength = push_bit 8 (ucast (bs ! 0 AND 0xf)) OR ucast (bs ! 1) in
       pbind (offset I) (\<lambda>offsetSectionsStart.
       let offsetEnd = offsetSectionsStart + uint sectionLength;
           offsetSectionsEnd = (if hasCRC32 tableID then offsetEnd - 4 else offsetEnd) in
       preturn (\<lparr>psh_PrivateBit = 0 < bs ! 0 AND 0x40, psh_SectionLength = sectionLength,
         psh_SectionSyntaxIndicator = 0 < bs ! 0 AND 0x80, psh_TableID = tableID, psh_TableType = tableType\<rparr>,
         offsetStart, offsetSectionsStart, offsetSectionsEnd, offsetEnd)))))"

definition parsePSISectionSyntaxHeader :: "'i BytesIterator \<Rightarrow> ('i, PSISectionSyntaxHeader) parser" where
  "parsePSISectionSyntaxHeader I =
     pbind (fetchUint16 I) (\<lambda>tableIDExtension.
     pbind (fetchByte I) (\<lambda>b.
     pbind (fetchByte I) (\<lambda>sectionNumber.
     pbind (fetchByte I) (\<lambda>lastSectionNumber.
     preturn \<lparr>ssh_CurrentNextIndicator = 0 < b AND 0x1, ssh_LastSectionNumber = lastSectionNumber,
       ssh_SectionNumber = sectionNumber, ssh_TableIDExtension = tableIDExtension,
       ssh_VersionNumber = drop_bit 1 (b AND 0x3f)\<rparr>))))"

definition parsePSISectionSyntaxData ::
    "'i BytesIterator \<Rightarrow> PSISectionHeader \<Rightarrow> PSISectionSyntaxHeader option \<Rightarrow> int \<Rightarrow> ('i, PSISectionSyntaxData) parser" where
  "parsePSISectionSyntaxData I h sh offsetSectionsEnd =
     (let t = psh_TableID h; d = emptyPSISectionSyntaxData in
      pbind
        (if t = PSITableIDNITVariant1 \<or> t = PSITableIDNITVariant2 then
           pbind (pwrap ''astits: parsing NIT section failed: ''
             (pderef sh (\<lambda>sh. parseNITSection I (ssh_TableIDExtension sh)))) (\<lambda>x. preturn (d\<lparr>ssd_NIT := Some x\<rparr>))
         else if t = PSITableIDPAT then
           pbind (pwrap ''astits: parsing PAT section failed: ''
             (pderef sh (\<lambda>sh. parsePATSection I offsetSectionsEnd (ssh_TableIDExtension sh)))) (\<lambda>x. preturn (d\<lparr>ssd_PAT := Some x\<rparr>))
         else if t = PSITableIDPMT then
           pbind (pwrap ''astits: parsing PMT section failed: ''
             (pderef sh (\<lambda>sh. parsePMTSection I offsetSectionsEnd (ssh_TableIDExtension sh)))) (\<lambda>x. preturn (d\<lparr>ssd_PMT := Some x\<rparr>))
         else if t = PSITableIDSDTVariant1 \<or> t = PSITableIDSDTVariant2 then
           pbind (pwrap ''astits: parsing PMT section failed: ''
             (pderef sh (\<lambda>sh. parseSDTSection I offsetSectionsEnd (ssh_TableIDExtension sh)))) (\<lambda>x. preturn (d\<lparr>ssd_SDT := Some x\<rparr>))
         else if t = PSITableIDTOT then
           pbind (pwrap ''astits: parsing TOT section failed: '' (parseTOTSection I)) (\<lambda>x. preturn (d\<lparr>ssd_TOT := Some x\<rparr>))
         else preturn d) (\<lambda>d.
      if t \<ge> PSITableIDEITStart \<and> t \<le> PSITableIDEITEnd
      then pbind (pwrap ''astits: parsing EIT section failed: ''
             (pderef sh (\<lambda>sh. parseEITSection I offsetSectionsEnd (ssh_TableIDExtension sh)))) (\<lambda>x. preturn (d\<lparr>ssd_EIT := Some x\<rparr>))
      else preturn d))"

definition parsePSISectionSyntax :: "'i BytesIterator \<Rightarrow> PSISectionHeader \<Rightarrow> int \<Rightarrow> ('i, PSISectionSyntax) parser" where
  "parsePSISectionSyntax I h offsetSectionsEnd =
     pbind (pwhen (hasPSISyntaxHeader (psh_TableID h)) None
       (psome (pwrap ''astits: parsing PSI section syntax header failed: '' (parsePSISectionSyntaxHeader I)))) (\<lambda>sh.
     pbind (pwrap ''astits: parsing PSI section syntax data failed: '' (parsePSISectionSyntaxData I h sh offsetSectionsEnd)) (\<lambda>d.
     preturn \<lparr>syn_Data = Some d, syn_Header = sh\<rparr>))"

text \<open>The checksum of a section: seek to it, read it, and compare it with that of the bytes before it.\<close>

definition parsePSISectionCRC32 :: "'i BytesIterator \<Rightarrow> int \<Rightarrow> int \<Rightarrow> ('i, uint32) parser" where
  "parsePSISectionCRC32 I offsetStart offsetSectionsEnd =
     pbind (seek I offsetSectionsEnd) (\<lambda>_.
     pbind (pwrap ''astits: parsing CRC32 failed: '' (parseCRC32 I)) (\<lambda>c.
     pbind (seek I offsetStart) (\<lambda>_.
     pbind (fetchBytesNoCopy I (offsetSectionsEnd - offsetStart)) (\<lambda>crc32Data.
     let crc32 = computeCRC32 crc32Data in
     if crc32 \<noteq> c then pfail (ErrMessage ''astits: Table CRC32 %x != computed CRC32 %x'' [uint c, uint crc32])
     else preturn c))))"

definition parsePSISection :: "'i BytesIterator \<Rightarrow> ('i, PSISection \<times> bool) parser" where
  "parsePSISection I =
     pbind (pwrap ''astits: parsing PSI section header failed: '' (parsePSISectionHeader I))
       (\<lambda>(h, offsetStart, _, offsetSectionsEnd, offsetEnd).
     if shouldStopPSIParsing (psh_TableID h)
     then preturn (\<lparr>sec_CRC32 = 0, sec_Header = Some h, sec_Syntax = None\<rparr>, True)
     else
       pbind (if psh_SectionLength h > 0
         then
           pbind (pwrap ''astits: parsing PSI section syntax failed: '' (parsePSISectionSyntax I h offsetSectionsEnd)) (\<lambda>syn.
           pbind (pwhen (hasCRC32 (psh_TableID h)) 0 (parsePSISectionCRC32 I offsetStart offsetSectionsEnd)) (\<lambda>c.
           preturn \<lparr>sec_CRC32 = c, sec_Header = Some h, sec_Syntax = Some syn\<rparr>))
         else preturn \<lparr>sec_CRC32 = 0, sec_Header = Some h, sec_Syntax = None\<rparr>) (\<lambda>s.
       pbind (seek I offsetEnd) (\<lambda>_.
       preturn (s, False))))"

definition parsePSIData :: "'i BytesIterator \<Rightarrow> ('i, PSIData) parser" where
  "parsePSIData I =
     pbind (fetchByte I) (\<lambda>b.
     pbind (skip I (uint b)) (\<lambda>_.
     pbind (pwhile (\<lambda>(sections, stop) i. bi_HasBytesLeft I i \<and> \<not> stop)
       (\<lambda>(sections, stop). pbind (pwrap ''astits: parsing PSI table failed: '' (parsePSISection I)) (\<lambda>(s, stop).
         preturn (sections @ [s], stop))) ([], False)) (\<lambda>(sections, _).
     preturn \<lparr>psi_PointerField = uint b, psi_Sections = sections\<rparr>)))"

section \<open>Writing\<close>

text \<open>\<^const>\<open>None\<close> is a panic: a nil pointer, or one in the length of a descriptor.\<close>

definition calcPSISectionLength :: "PSISection \<Rightarrow> uint16 option" where
  "calcPSISectionLength s =
     (case sec_Header s of None \<Rightarrow> None | Some h \<Rightarrow>
      let t = psh_TableID h;
          data = Option.bind (sec_Syntax s) syn_Data;
          table = (if t = PSITableIDPAT then map_option calcPATSectionLength (Option.bind data ssd_PAT)
            else if t = PSITableIDPMT then Option.bind (Option.bind data ssd_PMT) calcPMTSectionLength
            else Some 0) in
      map_option (\<lambda>n. (if hasPSISyntaxHeader t then 5 else 0) + n + (if hasCRC32 t then 4 else 0)) table)"

definition writePSISectionSyntaxHeader :: "'w BitsWriter \<Rightarrow> PSISectionSyntaxHeader \<Rightarrow> ('w, error, int) writer" where
  "writePSISectionSyntaxHeader W h =
     wbind (batch W [Wr (AU16 (ssh_TableIDExtension h)), WrN (AU8 0xff) 2, WrN (AU8 (ssh_VersionNumber h)) 5,
       Wr (ABool (ssh_CurrentNextIndicator h)), Wr (AU8 (ssh_SectionNumber h)), Wr (AU8 (ssh_LastSectionNumber h))] None) (\<lambda>b.
     wdone 5 b)"

definition writePSISectionSyntaxData ::
    "'w BitsWriter \<Rightarrow> PSISectionSyntaxData option \<Rightarrow> PSITableID \<Rightarrow> ('w, error, int) writer" where
  "writePSISectionSyntaxData W d tableID =
     (if tableID = PSITableIDPAT then wderef d (\<lambda>d. wderef (ssd_PAT d) (writePATSection W))
      else if tableID = PSITableIDPMT then wderef d (\<lambda>d. wderef (ssd_PMT d) (writePMTSection W))
      else wreturn 0)"

definition writePSISectionSyntax :: "'w BitsWriter \<Rightarrow> PSISection \<Rightarrow> ('w, error, int) writer" where
  "writePSISectionSyntax W s =
     wderef (sec_Header s) (\<lambda>h.
     wbind (wwhen (hasPSISyntaxHeader (psh_TableID h)) 0
       (wderef (sec_Syntax s) (\<lambda>syn. wderef (syn_Header syn) (writePSISectionSyntaxHeader W)))) (\<lambda>n.
     wderef (sec_Syntax s) (\<lambda>syn.
     wbind (writePSISectionSyntaxData W (syn_Data syn) (psh_TableID h)) (\<lambda>m.
     wreturn (n + m)))))"

text \<open>
  The write callback folds the bytes that leave the writer into the checksum. A deferred call
  removes the callback on every path.
\<close>

definition wsetCallback ::
    "'w BitsWriter \<Rightarrow> ((uint32 \<Rightarrow> byte list \<Rightarrow> uint32) \<times> uint32) option \<Rightarrow> ('w, error, unit) writer" where
  "wsetCallback W cb = (\<lambda>w. (Inr (), bw_SetWriteCallback W cb w))"

definition wcaptured :: "'w BitsWriter \<Rightarrow> ('w, error, uint32) writer" where
  "wcaptured W = (\<lambda>w. (Inr (bw_Captured W w), w))"

definition wdefer :: "('w \<Rightarrow> 'w) \<Rightarrow> ('w, 'e, 'a) writer \<Rightarrow> ('w, 'e, 'a) writer" where
  "wdefer f m = (\<lambda>w. case m w of (r, w') \<Rightarrow> (r, f w'))"

definition writePSISection :: "'w BitsWriter \<Rightarrow> PSISection \<Rightarrow> ('w, error, int) writer" where
  "writePSISection W s =
     wderef (sec_Header s) (\<lambda>h.
     let t = psh_TableID h in
     if t \<noteq> PSITableIDPAT \<and> t \<noteq> PSITableIDPMT
     then wfail (ErrMessage (''writePSISection: table '' @ PSITableID_Type t @ '' is not implemented'') [])
     else
       wderef (calcPSISectionLength s) (\<lambda>sectionLength.
       wdefer (if hasCRC32 t then bw_SetWriteCallback W None else (\<lambda>w. w))
       (wbind (wwhen (hasCRC32 t) () (wsetCallback W (Some (updateCRC32, crc32Polynomial)))) (\<lambda>_.
        wbind (batch W [Wr (AU8 (ucast t)), Wr (ABool (psh_SectionSyntaxIndicator h)), Wr (ABool (psh_PrivateBit h)),
          WrN (AU8 0xff) 2, WrN (AU16 sectionLength) 12] None) (\<lambda>b.
        wbind (wwhen (psh_SectionLength h > 0) (b, 3)
          (wbind (writePSISectionSyntax W s) (\<lambda>n.
           if hasCRC32 t
           then wbind (wcaptured W) (\<lambda>sectionCRC32.
                wbind (batch W [Wr (AU32 sectionCRC32)] b) (\<lambda>b.
                wreturn (b, 3 + n + 4)))
           else wreturn (b, 3 + n)))) (\<lambda>(b, bytesWritten).
        wdone bytesWritten b))))))"

definition writePSIData :: "'w BitsWriter \<Rightarrow> PSIData \<Rightarrow> ('w, error, int) writer" where
  "writePSIData W d =
     wbind (batch W (Wr (AU8 (word_of_int (psi_PointerField d))) # replicate (nat (psi_PointerField d)) (Wr (AU8 0))) None) (\<lambda>b.
     wbind (wdone () b) (\<lambda>_.
     wfor (psi_Sections d) (\<lambda>s bytesWritten. wbind (writePSISection W s) (\<lambda>n. wreturn (bytesWritten + n)))
       (1 + psi_PointerField d)))"

end
