(* ===== verification/Clock_Reference.thy ===== *)
theory Clock_Reference
  imports Prelude
begin

text \<open>
  \<^verbatim>\<open>clock_reference.go\<close>: clock references and their conversion to nanoseconds, in
  Go's 64-bit signed arithmetic.
\<close>

record ClockReference =
  cr_Base :: int64
  cr_Extension :: int64

definition newClockReference :: "int64 \<Rightarrow> int64 \<Rightarrow> ClockReference" where
  "newClockReference base extension = \<lparr>cr_Base = base, cr_Extension = extension\<rparr>"

text \<open>Go's signed division: truncated towards zero, the quotient wrapped to 64 bits.\<close>

definition int64_div :: "int64 \<Rightarrow> int64 \<Rightarrow> int64" where
  "int64_div a b = word_of_int (sint a sdiv sint b)"

text \<open>\<^verbatim>\<open>time.Duration\<close> is an \<^verbatim>\<open>int64\<close> of nanoseconds.\<close>

definition cr_Duration :: "ClockReference \<Rightarrow> int64" where
  "cr_Duration p = int64_div (cr_Base p * 1000000000) 90000 + int64_div (cr_Extension p * 1000000000) 27000000"

text \<open>\<^verbatim>\<open>time.Unix(0, ns)\<close> as its nanoseconds since the epoch.\<close>

definition cr_Time :: "ClockReference \<Rightarrow> int" where
  "cr_Time p = sint (cr_Duration p)"

section \<open>No overflow on the wire's range\<close>

lemma sint_word_of_int_small: "0 \<le> k \<Longrightarrow> k < 2 ^ 63 \<Longrightarrow> sint (word_of_int k :: int64) = k"
  by (simp add: signed_take_bit_int_eq_self sint_sbintrunc')

lemma int64_div_small:
  assumes "0 \<le> a" "a < 2 ^ 63" "0 < b" "b < 2 ^ 63"
  shows "int64_div (word_of_int a) (word_of_int b) = word_of_int (a div b)"
  using assms by (cases "a = 0") (simp_all add: int64_div_def sint_word_of_int_small signed_divide_int_def)

lemma cr_Duration_int:
  assumes "uint (cr_Base p) < 2 ^ 33" "uint (cr_Extension p) < 2 ^ 9"
  shows "sint (cr_Duration p) =
    uint (cr_Base p) * 1000000000 div 90000 + uint (cr_Extension p) * 1000000000 div 27000000"
proof -
  let ?b = "uint (cr_Base p)" and ?e = "uint (cr_Extension p)"
  have b: "cr_Base p * 1000000000 = word_of_int (?b * 1000000000)"
    and e: "cr_Extension p * 1000000000 = word_of_int (?e * 1000000000)" by simp_all
  have "int64_div (cr_Base p * 1000000000) 90000 = word_of_int (?b * 1000000000 div 90000)"
    using int64_div_small[of "?b * 1000000000" 90000] assms(1) unfolding b by simp
  moreover have "int64_div (cr_Extension p * 1000000000) 27000000 = word_of_int (?e * 1000000000 div 27000000)"
    using int64_div_small[of "?e * 1000000000" 27000000] assms(2) unfolding e by simp
  ultimately have "cr_Duration p = word_of_int (?b * 1000000000 div 90000 + ?e * 1000000000 div 27000000)"
    by (simp add: cr_Duration_def)
  moreover have "?b * 1000000000 div 90000 + ?e * 1000000000 div 27000000 < 2 ^ 63" using assms by simp
  moreover have "0 \<le> ?b * 1000000000 div 90000 + ?e * 1000000000 div 27000000"
    by (intro add_nonneg_nonneg pos_imp_zdiv_nonneg_iff[THEN iffD2]) simp_all
  ultimately show ?thesis by (simp only: sint_word_of_int_small)
qed

lemma mult_div_bounds:
  assumes "0 < (b :: int)"
  shows "b * (a div b) \<le> a" and "a < b * (a div b) + b"
  using assms mult_div_mod_eq[of b a] pos_mod_bound[of b a] pos_mod_sign[of b a] by linarith+

section \<open>Properties\<close>

text \<open>
  \<^bold>\<open>C27\<close>. For every clock reference that fits the wire formats (33 bits of base, 9 of
  extension) the conversion to nanoseconds does not overflow: with \<open>d\<close> the duration, the
  exact time \<open>base / 90 kHz + extension / 27 MHz\<close>, counted in 27ths of a nanosecond, lies
  in \<open>[27 d, 27 d + 54)\<close>, so the result is never too large and less than 2 ns too small.
\<close>

theorem Duration_exact:
  assumes "uint (cr_Base p) < 2 ^ 33" and "uint (cr_Extension p) < 2 ^ 9"
  shows "27 * sint (cr_Duration p) \<le> 300000 * uint (cr_Base p) + 1000 * uint (cr_Extension p) \<and>
    300000 * uint (cr_Base p) + 1000 * uint (cr_Extension p) < 27 * sint (cr_Duration p) + 54"
  unfolding cr_Duration_int[OF assms]
  using mult_div_bounds[of 90000 "uint (cr_Base p) * 1000000000"]
    mult_div_bounds[of 27000000 "uint (cr_Extension p) * 1000000000"] by simp

theorem Duration_exact_witness:
  "27 * sint (cr_Duration (newClockReference 5726623060 341)) \<le> 300000 * 5726623060 + 1000 * 341 \<and>
    300000 * 5726623060 + 1000 * 341 < 27 * sint (cr_Duration (newClockReference 5726623060 341)) + 54"
  using Duration_exact[of "newClockReference 5726623060 341"] by (simp add: newClockReference_def)

end
