(* ===== verification/Clock_Codec.thy ===== *)
theory Clock_Codec
  imports Clock_Reference Codec
begin

text \<open>
  The wire formats of clock references: the PCR of adaptation fields (\<^verbatim>\<open>packet.go\<close>)
  and the PTS, DTS and ESCR of PES headers (\<^verbatim>\<open>data_pes.go\<close>). Each format is stated
  once as a bit string; the serialiser is shown to emit it and the parser to read it back.
\<close>

section \<open>The code\<close>

definition pcrBytesSize :: int where
  "pcrBytesSize = 6"

definition ptsOrDTSByteLength :: int where
  "ptsOrDTSByteLength = 5"

definition escrLength :: int where
  "escrLength = 6"

definition parsePCR :: "'i BytesIterator \<Rightarrow> ('i, ClockReference) parser" where
  "parsePCR I =
     pbind (fetchBytesNoCopy I 6) (\<lambda>bs.
     let pcr = push_bit 40 (ucast (bs ! 0)) OR push_bit 32 (ucast (bs ! 1)) OR push_bit 24 (ucast (bs ! 2)) OR
               push_bit 16 (ucast (bs ! 3)) OR push_bit 8 (ucast (bs ! 4)) OR (ucast (bs ! 5) :: uint64)
     in preturn (newClockReference (drop_bit 15 pcr) (pcr AND 0x1ff)))"

definition writePCR :: "'w BitsWriter \<Rightarrow> ClockReference \<Rightarrow> ('w, error, int) writer" where
  "writePCR W cr =
     wbind (batch W [WrN (AU64 (cr_Base cr)) 33, WrN (AU8 0xff) 6, WrN (AU64 (cr_Extension cr)) 9] None) (\<lambda>b.
     wdone pcrBytesSize b)"

text \<open>Go gives \<^verbatim>\<open>&\<close>, \<^verbatim>\<open><<\<close> and \<^verbatim>\<open>>>\<close> one precedence, left to right.\<close>

definition parsePTSOrDTS :: "'i BytesIterator \<Rightarrow> ('i, ClockReference) parser" where
  "parsePTSOrDTS I =
     pbind (fetchBytesNoCopy I 5) (\<lambda>bs.
     preturn (newClockReference
       (push_bit 30 (drop_bit 1 (ucast (bs ! 0)) AND 0x7) OR push_bit 22 (ucast (bs ! 1)) OR
        push_bit 15 (drop_bit 1 (ucast (bs ! 2)) AND 0x7f) OR push_bit 7 (ucast (bs ! 3)) OR
        (drop_bit 1 (ucast (bs ! 4)) AND 0x7f)) 0))"

definition writePTSOrDTS :: "'w BitsWriter \<Rightarrow> uint8 \<Rightarrow> ClockReference \<Rightarrow> ('w, error, int) writer" where
  "writePTSOrDTS W flag cr =
     wbind (batch W
       [WrN (AU8 flag) 4,
        WrN (AU64 (signed_drop_bit 30 (cr_Base cr))) 3, Wr (ABool True),
        WrN (AU64 (signed_drop_bit 15 (cr_Base cr))) 15, Wr (ABool True),
        WrN (AU64 (cr_Base cr)) 15, Wr (ABool True)] None) (\<lambda>b.
     wdone ptsOrDTSByteLength b)"

definition parseESCR :: "'i BytesIterator \<Rightarrow> ('i, ClockReference) parser" where
  "parseESCR I =
     pbind (fetchBytesNoCopy I 6) (\<lambda>bs.
     let escr = push_bit 39 (drop_bit 3 (ucast (bs ! 0)) AND 0x7) OR push_bit 37 (ucast (bs ! 0) AND 0x3) OR
                push_bit 29 (ucast (bs ! 1)) OR push_bit 24 (drop_bit 3 (ucast (bs ! 2))) OR
                push_bit 22 (ucast (bs ! 2) AND 0x3) OR push_bit 14 (ucast (bs ! 3)) OR
                push_bit 9 (drop_bit 3 (ucast (bs ! 4))) OR push_bit 7 (ucast (bs ! 4) AND 0x3) OR
                (drop_bit 1 (ucast (bs ! 5)) :: uint64)
     in preturn (newClockReference (drop_bit 9 escr) (escr AND 0x1ff)))"

definition writeESCR :: "'w BitsWriter \<Rightarrow> ClockReference \<Rightarrow> ('w, error, int) writer" where
  "writeESCR W cr =
     wbind (batch W
       [WrN (AU8 0xff) 2,
        WrN (AU64 (signed_drop_bit 30 (cr_Base cr))) 3, Wr (ABool True),
        WrN (AU64 (signed_drop_bit 15 (cr_Base cr))) 15, Wr (ABool True),
        WrN (AU64 (cr_Base cr)) 15, Wr (ABool True),
        WrN (AU64 (cr_Extension cr)) 9, Wr (ABool True)] None) (\<lambda>b.
     wdone escrLength b)"

section \<open>The formats\<close>

definition pcr_bits :: "ClockReference \<Rightarrow> bool list" where
  "pcr_bits cr = bits_of 33 (cr_Base cr) @ [True, True, True, True, True, True] @ bits_of 9 (cr_Extension cr)"

definition stamp_bits :: "int64 \<Rightarrow> bool list" where
  "stamp_bits base = bits_of 3 (drop_bit 30 base) @ [True] @ bits_of 15 (drop_bit 15 base) @ [True] @ bits_of 15 base @ [True]"

definition pts_bits :: "uint8 \<Rightarrow> ClockReference \<Rightarrow> bool list" where
  "pts_bits flag cr = bits_of 4 flag @ stamp_bits (cr_Base cr)"

definition escr_bits :: "ClockReference \<Rightarrow> bool list" where
  "escr_bits cr = [True, True] @ stamp_bits (cr_Base cr) @ bits_of 9 (cr_Extension cr) @ [True]"

text \<open>The references that fit: 33 bits of base, 9 of extension.\<close>

definition fits_pcr :: "ClockReference \<Rightarrow> bool" where
  "fits_pcr cr \<longleftrightarrow> fits 33 (cr_Base cr) \<and> fits 9 (cr_Extension cr)"

definition fits_pts :: "ClockReference \<Rightarrow> bool" where
  "fits_pts cr \<longleftrightarrow> fits 33 (cr_Base cr) \<and> cr_Extension cr = 0"

lemma length_clock_bits [simp]:
  "length (pcr_bits cr) = 48" "length (pts_bits flag cr) = 40" "length (escr_bits cr) = 48"
  by (simp_all add: pcr_bits_def pts_bits_def escr_bits_def stamp_bits_def)

lemma bits_of_ones: "bits_of 6 (0xff :: uint8) = [True, True, True, True, True, True]" "bits_of 2 (0xff :: uint8) = [True, True]"
  "bits_of 5 (0xff :: uint8) = [True, True, True, True, True]" "bits_of 3 (0xff :: uint8) = [True, True, True]"
  "bits_of 4 (0xff :: uint8) = [True, True, True, True]"
  by (simp_all add: numeral_eq_Suc)

lemma bits_of_signed_shift:
  "bits_of 3 (signed_drop_bit 30 (x :: int64)) = bits_of 3 (drop_bit 30 x)"
  "bits_of 15 (signed_drop_bit 15 (x :: int64)) = bits_of 15 (drop_bit 15 x)"
  by (simp_all add: bit_simps)

context bits_writer
begin

lemma emits_writePCR: "emits view (writePCR W cr) (pcr_bits cr) 6"
proof -
  have "emits view (writePCR W cr)
      (concat (map wcmd_bits [WrN (AU64 (cr_Base cr)) 33, WrN (AU8 0xff) 6, WrN (AU64 (cr_Extension cr)) 9]) @ [])
      pcrBytesSize"
    unfolding writePCR_def by (intro emits_wbind[OF emits_batch] emits_wdone)
  then show ?thesis
    by (simp add: pcr_bits_def bits_of_ones pcrBytesSize_def del: bits_of_numeral)
qed

lemma emits_writePTSOrDTS: "emits view (writePTSOrDTS W flag cr) (pts_bits flag cr) 5"
proof -
  have "emits view (writePTSOrDTS W flag cr)
      (concat (map wcmd_bits [WrN (AU8 flag) 4,
        WrN (AU64 (signed_drop_bit 30 (cr_Base cr))) 3, Wr (ABool True),
        WrN (AU64 (signed_drop_bit 15 (cr_Base cr))) 15, Wr (ABool True),
        WrN (AU64 (cr_Base cr)) 15, Wr (ABool True)]) @ []) ptsOrDTSByteLength"
    unfolding writePTSOrDTS_def by (intro emits_wbind[OF emits_batch] emits_wdone)
  then show ?thesis
    by (simp add: pts_bits_def stamp_bits_def ptsOrDTSByteLength_def bits_of_signed_shift del: bits_of_numeral)
qed

lemma emits_writeESCR: "emits view (writeESCR W cr) (escr_bits cr) 6"
proof -
  have "emits view (writeESCR W cr)
      (concat (map wcmd_bits [WrN (AU8 0xff) 2,
        WrN (AU64 (signed_drop_bit 30 (cr_Base cr))) 3, Wr (ABool True),
        WrN (AU64 (signed_drop_bit 15 (cr_Base cr))) 15, Wr (ABool True),
        WrN (AU64 (cr_Base cr)) 15, Wr (ABool True),
        WrN (AU64 (cr_Extension cr)) 9, Wr (ABool True)]) @ []) escrLength"
    unfolding writeESCR_def by (intro emits_wbind[OF emits_batch] emits_wdone)
  then show ?thesis
    by (simp add: escr_bits_def stamp_bits_def escrLength_def bits_of_signed_shift bits_of_ones del: bits_of_numeral)
qed

end

section \<open>Reading the formats\<close>

lemma reads_parsePCR:
  assumes "fits_pcr cr"
  shows "reads (parsePCR refIterator) bs off (bits_to_bytes (pcr_bits cr)) cr"
proof (cases cr)
  case (fields b e)
  with assms have "33 \<le> k \<Longrightarrow> \<not> bit b k" "9 \<le> k \<Longrightarrow> \<not> bit e k" for k
    by (auto simp: fits_pcr_def dest: fits_bit)
  then show ?thesis
    unfolding parsePCR_def Let_def fields
    by (intro reads_fetch_return)
      (simp_all add: newClockReference_def pcr_bits_def word_eq_bits bit_simps)
qed

lemma reads_parsePTSOrDTS:
  assumes "fits_pts cr"
  shows "reads (parsePTSOrDTS refIterator) bs off (bits_to_bytes (pts_bits flag cr)) cr"
proof (cases cr)
  case (fields b e)
  with assms have "33 \<le> k \<Longrightarrow> \<not> bit b k" "e = 0" for k
    by (auto simp: fits_pts_def dest: fits_bit)
  then show ?thesis
    unfolding parsePTSOrDTS_def fields
    by (intro reads_fetch_return)
      (simp_all add: newClockReference_def pts_bits_def stamp_bits_def word_eq_bits bit_simps)
qed

lemma reads_parseESCR:
  assumes "fits_pcr cr"
  shows "reads (parseESCR refIterator) bs off (bits_to_bytes (escr_bits cr)) cr"
proof (cases cr)
  case (fields b e)
  with assms have "33 \<le> k \<Longrightarrow> \<not> bit b k" "9 \<le> k \<Longrightarrow> \<not> bit e k" for k
    by (auto simp: fits_pcr_def dest: fits_bit)
  then show ?thesis
    unfolding parseESCR_def Let_def fields
    by (intro reads_fetch_return)
      (simp_all add: newClockReference_def escr_bits_def stamp_bits_def word_eq_bits bit_simps)
qed

section \<open>Any iterator, any input\<close>

context bytes_iterator
begin

lemma sim_parsePCR: "sim I (parsePCR I) (parsePCR refIterator)"
  unfolding parsePCR_def by (intro sim_intros sim_ops)

lemma sim_parsePTSOrDTS: "sim I (parsePTSOrDTS I) (parsePTSOrDTS refIterator)"
  unfolding parsePTSOrDTS_def by (intro sim_intros sim_ops)

lemma sim_parseESCR: "sim I (parseESCR I) (parseESCR refIterator)"
  unfolding parseESCR_def by (intro sim_intros sim_ops)

end

lemma advances_parsePCR: "advances 0 (parsePCR refIterator)"
  unfolding parsePCR_def by (intro advances_intros) simp

lemma advances_parsePTSOrDTS: "advances 5 (parsePTSOrDTS refIterator)"
  unfolding parsePTSOrDTS_def by (intro advances_first advances_fetchBytesNoCopy advances_preturn) simp_all

lemma advances_parseESCR: "advances 0 (parseESCR refIterator)"
  unfolding parseESCR_def by (intro advances_intros) simp

end
