(* ===== verification/Pes.thy ===== *)
theory Pes
  imports Clock_Codec
begin

text \<open>
  \<^verbatim>\<open>data_pes.go\<close>: packetised elementary streams, parsed by
  \<^verbatim>\<open>parsePESData\<close> and written, one transport packet at a time, by
  \<^verbatim>\<open>writePESData\<close>.
\<close>

section \<open>Data\<close>

definition PTSDTSIndicatorBothPresent :: uint8 where
  "PTSDTSIndicatorBothPresent = 3"

definition PTSDTSIndicatorOnlyPTS :: uint8 where
  "PTSDTSIndicatorOnlyPTS = 2"

definition StreamIDPaddingStream :: uint8 where
  "StreamIDPaddingStream = 190"

definition StreamIDPrivateStream2 :: uint8 where
  "StreamIDPrivateStream2 = 191"

definition TrickModeControlFastForward :: uint8 where
  "TrickModeControlFastForward = 0"

definition TrickModeControlFastReverse :: uint8 where
  "TrickModeControlFastReverse = 3"

definition TrickModeControlFreezeFrame :: uint8 where
  "TrickModeControlFreezeFrame = 2"

definition TrickModeControlSlowMotion :: uint8 where
  "TrickModeControlSlowMotion = 1"

definition TrickModeControlSlowReverse :: uint8 where
  "TrickModeControlSlowReverse = 4"

definition pesHeaderLength :: int where
  "pesHeaderLength = 6"

definition dsmTrickModeLength :: int where
  "dsmTrickModeLength = 1"

record DSMTrickMode =
  tm_FieldID :: uint8
  tm_FrequencyTruncation :: uint8
  tm_IntraSliceRefresh :: uint8
  tm_RepeatControl :: uint8
  tm_TrickModeControl :: uint8

record PESOptionalHeader =
  oh_AdditionalCopyInfo :: uint8
  oh_CRC :: uint16
  oh_DataAlignmentIndicator :: bool
  oh_DSMTrickMode :: "DSMTrickMode option"
  oh_DTS :: "ClockReference option"
  oh_ESCR :: "ClockReference option"
  oh_ESRate :: uint32
  oh_Extension2Data :: "byte list"
  oh_Extension2Length :: uint8
  oh_HasAdditionalCopyInfo :: bool
  oh_HasCRC :: bool
  oh_HasDSMTrickMode :: bool
  oh_HasESCR :: bool
  oh_HasESRate :: bool
  oh_HasExtension :: bool
  oh_HasExtension2 :: bool
  oh_HasOptionalFields :: bool
  oh_HasPackHeaderField :: bool
  oh_HasPrivateData :: bool
  oh_HasProgramPacketSequenceCounter :: bool
  oh_HasPSTDBuffer :: bool
  oh_HeaderLength :: uint8
  oh_IsCopyrighted :: bool
  oh_IsOriginal :: bool
  oh_MarkerBits :: uint8
  oh_MPEG1OrMPEG2ID :: uint8
  oh_OriginalStuffingLength :: uint8
  oh_PacketSequenceCounter :: uint8
  oh_PackField :: uint8
  oh_Priority :: bool
  oh_PrivateData :: "byte list"
  oh_PSTDBufferScale :: uint8
  oh_PSTDBufferSize :: uint16
  oh_PTS :: "ClockReference option"
  oh_PTSDTSIndicator :: uint8
  oh_ScramblingControl :: uint8

record PESHeader =
  pes_OptionalHeader :: "PESOptionalHeader option"
  pes_PacketLength :: uint16
  pes_StreamID :: uint8

record PESData =
  pes_Data :: "byte list"
  pes_Header :: PESHeader

text \<open>Go's zero value \<^verbatim>\<open>PESOptionalHeader{}\<close>.\<close>

definition zeroPESOptionalHeader :: PESOptionalHeader where
  "zeroPESOptionalHeader = \<lparr>
     oh_AdditionalCopyInfo = 0, oh_CRC = 0, oh_DataAlignmentIndicator = False, oh_DSMTrickMode = None,
     oh_DTS = None, oh_ESCR = None, oh_ESRate = 0, oh_Extension2Data = [], oh_Extension2Length = 0,
     oh_HasAdditionalCopyInfo = False, oh_HasCRC = False, oh_HasDSMTrickMode = False, oh_HasESCR = False,
     oh_HasESRate = False, oh_HasExtension = False, oh_HasExtension2 = False, oh_HasOptionalFields = False,
     oh_HasPackHeaderField = False, oh_HasPrivateData = False, oh_HasProgramPacketSequenceCounter = False,
     oh_HasPSTDBuffer = False, oh_HeaderLength = 0, oh_IsCopyrighted = False, oh_IsOriginal = False,
     oh_MarkerBits = 0, oh_MPEG1OrMPEG2ID = 0, oh_OriginalStuffingLength = 0, oh_PacketSequenceCounter = 0,
     oh_PackField = 0, oh_Priority = False, oh_PrivateData = [], oh_PSTDBufferScale = 0,
     oh_PSTDBufferSize = 0, oh_PTS = None, oh_PTSDTSIndicator = 0, oh_ScramblingControl = 0\<rparr>"

definition IsVideoStream :: "PESHeader \<Rightarrow> bool" where
  "IsVideoStream h \<longleftrightarrow> pes_StreamID h = 0xe0 \<or> pes_StreamID h = 0xfd"

definition hasPESOptionalHeader :: "uint8 \<Rightarrow> bool" where
  "hasPESOptionalHeader streamID \<longleftrightarrow> streamID \<noteq> StreamIDPaddingStream \<and> streamID \<noteq> StreamIDPrivateStream2"

section \<open>Parsing\<close>

definition parseDSMTrickMode :: "byte \<Rightarrow> DSMTrickMode" where
  "parseDSMTrickMode i =
     (let c = drop_bit 5 i;
          m = \<lparr>tm_FieldID = 0, tm_FrequencyTruncation = 0, tm_IntraSliceRefresh = 0, tm_RepeatControl = 0,
               tm_TrickModeControl = c\<rparr> in
      if c = TrickModeControlFastForward \<or> c = TrickModeControlFastReverse
      then m\<lparr>tm_FieldID := drop_bit 3 i AND 0x3, tm_IntraSliceRefresh := drop_bit 2 i AND 0x1,
             tm_FrequencyTruncation := i AND 0x3\<rparr>
      else if c = TrickModeControlFreezeFrame then m\<lparr>tm_FieldID := drop_bit 3 i AND 0x3\<rparr>
      else if c = TrickModeControlSlowMotion \<or> c = TrickModeControlSlowReverse
      then m\<lparr>tm_RepeatControl := i AND 0x1f\<rparr>
      else m)"

text \<open>The PTS and the DTS of \<^verbatim>\<open>parsePESOptionalHeader\<close>.\<close>

definition parsePESTimestamps ::
    "'i BytesIterator \<Rightarrow> uint8 \<Rightarrow> ('i, ClockReference option \<times> ClockReference option) parser" where
  "parsePESTimestamps I indicator =
     (if indicator = PTSDTSIndicatorOnlyPTS
      then pbind (pwrap ''astits: parsing PTS failed: '' (parsePTSOrDTS I)) (\<lambda>pts. preturn (Some pts, None))
      else if indicator = PTSDTSIndicatorBothPresent
      then pbind (pwrap ''astits: parsing PTS failed: '' (parsePTSOrDTS I)) (\<lambda>pts.
           pbind (pwrap ''astits: parsing PTS failed: '' (parsePTSOrDTS I)) (\<lambda>dts.
           preturn (Some pts, Some dts)))
      else preturn (None, None))"

text \<open>The part of \<^verbatim>\<open>parsePESOptionalHeader\<close> under \<^verbatim>\<open>if h.HasExtension\<close>.\<close>

definition parsePESExtension2 :: "'i BytesIterator \<Rightarrow> ('i, uint8 \<times> byte list) parser" where
  "parsePESExtension2 I =
     pbind (pwrap ''astits: fetching next bytes failed: '' (plift (bi_NextByte I))) (\<lambda>b.
     let len = b AND 0x7f in
     pbind (fetchBytes I (uint len)) (\<lambda>d.
     preturn (len, d)))"

definition parsePESExtension :: "'i BytesIterator \<Rightarrow> PESOptionalHeader \<Rightarrow> ('i, PESOptionalHeader) parser" where
  "parsePESExtension I h =
     pbind (fetchByte I) (\<lambda>b.
     let hasPrivateData = 0 < b AND 0x80; hasPackHeaderField = 0 < b AND 0x40;
         hasProgramPacketSequenceCounter = 0 < b AND 0x20; hasPSTDBuffer = 0 < b AND 0x10;
         hasExtension2 = 0 < b AND 0x1 in
     pbind (pwhen hasPrivateData [] (fetchBytes I 16)) (\<lambda>private.
     pbind (pwhen hasPackHeaderField 0 (fetchByte I)) (\<lambda>pack.
     pbind (pwhen hasProgramPacketSequenceCounter (0, 0, 0)
       (pbind (fetchBytesNoCopy I 2) (\<lambda>bs.
        preturn (bs ! 0 AND 0x7f, drop_bit 6 (bs ! 1) AND 0x1, bs ! 1 AND 0x3f)))) (\<lambda>counter.
     pbind (pwhen hasPSTDBuffer (0, 0)
       (pbind (fetchBytesNoCopy I 2) (\<lambda>bs.
        preturn (drop_bit 5 (bs ! 0) AND 0x1, push_bit 8 (ucast (bs ! 0) AND 0x1f) OR ucast (bs ! 1))))) (\<lambda>pstd.
     pbind (pwhen hasExtension2 (0, []) (parsePESExtension2 I)) (\<lambda>ext2.
     preturn (h\<lparr>oh_HasPrivateData := hasPrivateData, oh_HasPackHeaderField := hasPackHeaderField,
       oh_HasProgramPacketSequenceCounter := hasProgramPacketSequenceCounter,
       oh_HasPSTDBuffer := hasPSTDBuffer, oh_HasExtension2 := hasExtension2,
       oh_PrivateData := private, oh_PackField := pack,
       oh_PacketSequenceCounter := fst counter, oh_MPEG1OrMPEG2ID := fst (snd counter),
       oh_OriginalStuffingLength := snd (snd counter),
       oh_PSTDBufferScale := fst pstd, oh_PSTDBufferSize := snd pstd,
       oh_Extension2Length := fst ext2, oh_Extension2Data := snd ext2\<rparr>)))))))"

text \<open>The fixed three bytes, then the optional fields in order; with the offset of the data.\<close>

definition parsePESOptionalHeader :: "'i BytesIterator \<Rightarrow> ('i, PESOptionalHeader \<times> int) parser" where
  "parsePESOptionalHeader I =
     pbind (fetchByte I) (\<lambda>b0.
     pbind (fetchByte I) (\<lambda>b1.
     pbind (fetchByte I) (\<lambda>b2.
     pbind (offset I) (\<lambda>o'.
     let dataStart = o' + uint b2; indicator = drop_bit 6 b1 AND 0x3;
         hasESCR = 0 < b1 AND 0x20; hasESRate = 0 < b1 AND 0x10; hasDSMTrickMode = 0 < b1 AND 0x8;
         hasAdditionalCopyInfo = 0 < b1 AND 0x4; hasCRC = 0 < b1 AND 0x2; hasExtension = 0 < b1 AND 0x1 in
     pbind (parsePESTimestamps I indicator) (\<lambda>stamps.
     pbind (pwhen hasESCR None (psome (pwrap ''astits: parsing ESCR failed: '' (parseESCR I)))) (\<lambda>escr.
     pbind (pwhen hasESRate 0
       (pbind (fetchBytesNoCopy I 3) (\<lambda>bs.
        preturn (push_bit 15 (ucast (bs ! 0) AND 0x7f) OR push_bit 7 (ucast (bs ! 1)) OR drop_bit 1 (ucast (bs ! 2)))))) (\<lambda>rate.
     pbind (pwhen hasDSMTrickMode None (pbind (fetchByte I) (\<lambda>b. preturn (Some (parseDSMTrickMode b))))) (\<lambda>trick.
     pbind (pwhen hasAdditionalCopyInfo 0 (pbind (fetchByte I) (\<lambda>b. preturn (b AND 0x7f)))) (\<lambda>copyInfo.
     pbind (pwhen hasCRC 0
       (pbind (fetchBytesNoCopy I 2) (\<lambda>bs. preturn (drop_bit 8 (ucast (bs ! 0)) OR ucast (bs ! 1))))) (\<lambda>crc.
     let h = zeroPESOptionalHeader\<lparr>
       oh_MarkerBits := drop_bit 6 b0, oh_ScramblingControl := drop_bit 4 b0 AND 0x3,
       oh_Priority := 0 < b0 AND 0x8, oh_DataAlignmentIndicator := 0 < b0 AND 0x4,
       oh_IsCopyrighted := 0 < b0 AND 0x2, oh_IsOriginal := 0 < b0 AND 0x1,
       oh_PTSDTSIndicator := indicator, oh_HasESCR := hasESCR, oh_HasESRate := hasESRate,
       oh_HasDSMTrickMode := hasDSMTrickMode, oh_HasAdditionalCopyInfo := hasAdditionalCopyInfo,
       oh_HasCRC := hasCRC, oh_HasExtension := hasExtension, oh_HeaderLength := b2,
       oh_PTS := fst stamps, oh_DTS := snd stamps, oh_ESCR := escr, oh_ESRate := rate,
       oh_DSMTrickMode := trick, oh_AdditionalCopyInfo := copyInfo, oh_CRC := crc\<rparr> in
     pbind (pwhen hasExtension h (parsePESExtension I h)) (\<lambda>h.
     preturn (h, dataStart))))))))))))"

text \<open>The header with the offsets where the data start and end.\<close>

definition parsePESHeader :: "'i BytesIterator \<Rightarrow> ('i, PESHeader \<times> int \<times> int) parser" where
  "parsePESHeader I =
     pbind (fetchByte I) (\<lambda>b.
     pbind (fetchBytesNoCopy I 2) (\<lambda>bs.
     let packetLength = push_bit 8 (ucast (bs ! 0)) OR ucast (bs ! 1) in
     pbind (if packetLength > 0 then pbind (offset I) (\<lambda>o'. preturn (o' + uint packetLength)) else pget (bi_Len I)) (\<lambda>dataEnd.
     if hasPESOptionalHeader b
     then pbind (pwrap ''astits: parsing PES optional header failed: '' (parsePESOptionalHeader I)) (\<lambda>(oh, dataStart).
       preturn (\<lparr>pes_OptionalHeader = Some oh, pes_PacketLength = packetLength, pes_StreamID = b\<rparr>, dataStart, dataEnd))
     else pbind (offset I) (\<lambda>dataStart.
       preturn (\<lparr>pes_OptionalHeader = None, pes_PacketLength = packetLength, pes_StreamID = b\<rparr>, dataStart, dataEnd)))))"

definition parsePESData :: "'i BytesIterator \<Rightarrow> ('i, PESData) parser" where
  "parsePESData I =
     pbind (seek I 3) (\<lambda>_.
     pbind (pwrap ''astits: parsing PES header failed: '' (parsePESHeader I)) (\<lambda>(h, dataStart, dataEnd).
     pbind (seek I dataStart) (\<lambda>_.
     pbind (fetchBytes I (dataEnd - dataStart)) (\<lambda>d.
     preturn \<lparr>pes_Data = d, pes_Header = h\<rparr>))))"

section \<open>Writing\<close>

text \<open>\<^verbatim>\<open>uint8\<close> arithmetic: the sum wraps.\<close>

definition calcPESOptionalHeaderDataLength :: "PESOptionalHeader \<Rightarrow> uint8" where
  "calcPESOptionalHeaderDataLength h =
     (if oh_PTSDTSIndicator h = PTSDTSIndicatorOnlyPTS then 5
      else if oh_PTSDTSIndicator h = PTSDTSIndicatorBothPresent then 2 * 5 else 0)
     + (if oh_HasESCR h then 6 else 0)
     + (if oh_HasESRate h then 3 else 0)
     + (if oh_HasDSMTrickMode h then 1 else 0)
     + (if oh_HasAdditionalCopyInfo h then 1 else 0)
     + (if oh_HasExtension h
        then 1 + (if oh_HasPrivateData h then 16 else 0)
          + (if oh_HasProgramPacketSequenceCounter h then 2 else 0)
          + (if oh_HasPSTDBuffer h then 2 else 0)
          + (if oh_HasExtension2 h then 1 + word_of_nat (length (oh_Extension2Data h)) else 0)
        else 0)"

definition calcPESOptionalHeaderLength :: "PESOptionalHeader option \<Rightarrow> uint8" where
  "calcPESOptionalHeaderLength h =
     (case h of None \<Rightarrow> 0 | Some h \<Rightarrow> 3 + calcPESOptionalHeaderDataLength h)"

definition calcPESDataLength :: "PESHeader \<Rightarrow> byte list \<Rightarrow> bool \<Rightarrow> int \<Rightarrow> int \<times> int" where
  "calcPESDataLength h payloadLeft isPayloadStart bytesAvailable =
     (let totalBytes = pesHeaderLength +
            (if isPayloadStart then uint (calcPESOptionalHeaderLength (pes_OptionalHeader h)) else 0);
          bytesAvailable = bytesAvailable - totalBytes
      in (totalBytes,
          if int (length payloadLeft) < bytesAvailable then int (length payloadLeft) else bytesAvailable))"

definition writeDSMTrickMode :: "'w BitsWriter \<Rightarrow> DSMTrickMode \<Rightarrow> ('w, error, int) writer" where
  "writeDSMTrickMode W m =
     (let c = tm_TrickModeControl m in
      wbind (batch W (WrN (AU8 c) 3 #
        (if c = TrickModeControlFastForward \<or> c = TrickModeControlFastReverse
         then [WrN (AU8 (tm_FieldID m)) 2, Wr (ABool (tm_IntraSliceRefresh m = 1)), WrN (AU8 (tm_FrequencyTruncation m)) 2]
         else if c = TrickModeControlFreezeFrame then [WrN (AU8 (tm_FieldID m)) 2, WrN (AU8 0xff) 3]
         else if c = TrickModeControlSlowMotion \<or> c = TrickModeControlSlowReverse
         then [WrN (AU8 (tm_RepeatControl m)) 5]
         else [WrN (AU8 0xff) 5])) None) (\<lambda>b.
      wdone dsmTrickModeLength b))"

text \<open>The writes of \<^verbatim>\<open>writePESOptionalHeader\<close> under \<^verbatim>\<open>if h.HasExtension\<close>, and their size.\<close>

definition pesExtensionWrites :: "PESOptionalHeader \<Rightarrow> wcmd list" where
  "pesExtensionWrites h =
     [Wr (ABool (oh_HasPrivateData h)), Wr (ABool False),
      Wr (ABool (oh_HasProgramPacketSequenceCounter h)), Wr (ABool (oh_HasPSTDBuffer h)),
      WrN (AU8 0xff) 3, Wr (ABool (oh_HasExtension2 h))] @
     (if oh_HasPrivateData h then [WrBytesN (oh_PrivateData h) 16 0] else []) @
     (if oh_HasProgramPacketSequenceCounter h
      then [Wr (ABool True), WrN (AU8 (oh_PacketSequenceCounter h)) 7, Wr (ABool True),
            WrN (AU8 (oh_MPEG1OrMPEG2ID h)) 1, WrN (AU8 (oh_OriginalStuffingLength h)) 6] else []) @
     (if oh_HasPSTDBuffer h
      then [WrN (AU8 1) 2, WrN (AU8 (oh_PSTDBufferScale h)) 1, WrN (AU16 (oh_PSTDBufferSize h)) 13] else []) @
     (if oh_HasExtension2 h
      then [Wr (ABool True), WrN (AU8 (word_of_nat (length (oh_Extension2Data h)))) 7, Wr (ABytes (oh_Extension2Data h))]
      else [])"

definition pesExtensionSize :: "PESOptionalHeader \<Rightarrow> int" where
  "pesExtensionSize h = 1 + (if oh_HasPrivateData h then 16 else 0)
     + (if oh_HasProgramPacketSequenceCounter h then 2 else 0) + (if oh_HasPSTDBuffer h then 2 else 0)
     + (if oh_HasExtension2 h then 1 + int (length (oh_Extension2Data h)) else 0)"

definition writePESOptionalHeader :: "'w BitsWriter \<Rightarrow> PESOptionalHeader option \<Rightarrow> ('w, error, int) writer" where
  "writePESOptionalHeader W oh = (case oh of None \<Rightarrow> wreturn 0 | Some h \<Rightarrow>
     wbind (batch W
       [WrN (AU8 2) 2, WrN (AU8 (oh_ScramblingControl h)) 2, Wr (ABool (oh_Priority h)),
        Wr (ABool (oh_DataAlignmentIndicator h)), Wr (ABool (oh_IsCopyrighted h)), Wr (ABool (oh_IsOriginal h)),
        WrN (AU8 (oh_PTSDTSIndicator h)) 2, Wr (ABool (oh_HasESCR h)), Wr (ABool (oh_HasESRate h)),
        Wr (ABool (oh_HasDSMTrickMode h)), Wr (ABool (oh_HasAdditionalCopyInfo h)), Wr (ABool False),
        Wr (ABool (oh_HasExtension h)), Wr (AU8 (calcPESOptionalHeaderDataLength h))] None) (\<lambda>b.
     wbind (wwhen (oh_PTSDTSIndicator h = PTSDTSIndicatorOnlyPTS) 0
       (wderef (oh_PTS h) (writePTSOrDTS W 2))) (\<lambda>n1.
     wbind (wwhen (oh_PTSDTSIndicator h = PTSDTSIndicatorBothPresent) 0
       (wbind (wderef (oh_PTS h) (writePTSOrDTS W 3)) (\<lambda>n.
        wbind (wderef (oh_DTS h) (writePTSOrDTS W 1)) (\<lambda>n'. wreturn (n + n'))))) (\<lambda>n2.
     wbind (wwhen (oh_HasESCR h) 0 (wderef (oh_ESCR h) (writeESCR W))) (\<lambda>n3.
     wbind (batch W (if oh_HasESRate h
       then [Wr (ABool True), WrN (AU32 (oh_ESRate h)) 22, Wr (ABool True)] else []) b) (\<lambda>b.
     wbind (wwhen (oh_HasDSMTrickMode h) 0 (wderef (oh_DSMTrickMode h) (writeDSMTrickMode W))) (\<lambda>n4.
     wbind (batch W
       ((if oh_HasAdditionalCopyInfo h then [Wr (ABool True), WrN (AU8 (oh_AdditionalCopyInfo h)) 7] else []) @
        (if oh_HasExtension h then pesExtensionWrites h else [])) b) (\<lambda>b.
     wdone (3 + n1 + n2 + n3 + (if oh_HasESRate h then 3 else 0) + n4
       + (if oh_HasAdditionalCopyInfo h then 1 else 0)
       + (if oh_HasExtension h then pesExtensionSize h else 0)) b))))))))"

text \<open>The packet length that \<^verbatim>\<open>writePESHeader\<close> writes: 0 for video, and when it does not fit 16 bits.\<close>

definition pesPacketLength :: "PESHeader \<Rightarrow> int \<Rightarrow> int" where
  "pesPacketLength h payloadSize =
     (if IsVideoStream h then 0
      else let n = payloadSize + (if hasPESOptionalHeader (pes_StreamID h)
             then uint (calcPESOptionalHeaderLength (pes_OptionalHeader h)) else 0)
        in if n > 0xffff then 0 else n)"

definition writePESHeader :: "'w BitsWriter \<Rightarrow> PESHeader \<Rightarrow> int \<Rightarrow> ('w, error, int) writer" where
  "writePESHeader W h payloadSize =
     wbind (batch W
       [WrN (AU32 1) 24, Wr (AU8 (pes_StreamID h)), Wr (AU16 (word_of_int (pesPacketLength h payloadSize)))] None) (\<lambda>b.
     wbind (wwhen (hasPESOptionalHeader (pes_StreamID h)) 0 (writePESOptionalHeader W (pes_OptionalHeader h))) (\<lambda>n.
     wdone (pesHeaderLength + n) b))"

text \<open>
  The bytes written in all and the bytes of payload among them; an error comes with the counts so
  far. A negative slice bound panics.
\<close>

definition writePESData ::
    "'w BitsWriter \<Rightarrow> PESHeader \<Rightarrow> byte list \<Rightarrow> bool \<Rightarrow> int \<Rightarrow> ('w, (int \<times> int) \<times> error, int \<times> int) writer" where
  "writePESData W h payloadLeft isPayloadStart bytesAvailable =
     wbind (wcount (0, 0) (wwhen isPayloadStart 0 (writePESHeader W h (int (length payloadLeft))))) (\<lambda>totalBytesWritten.
     let n = bytesAvailable - totalBytesWritten;
         payloadBytesWritten = (if n > int (length payloadLeft) then int (length payloadLeft) else n) in
     if payloadBytesWritten < 0 then wfail ((totalBytesWritten, payloadBytesWritten), Panic)
     else
     wbind (wcount (totalBytesWritten, payloadBytesWritten)
       (wwrite W (Wr (ABytes (take (nat payloadBytesWritten) payloadLeft))))) (\<lambda>_.
     wreturn (totalBytesWritten + payloadBytesWritten, payloadBytesWritten)))"

end
