(* ===== verification/Pes_Codec.thy ===== *)
theory Pes_Codec
  imports Pes
begin

text \<open>
  The wire format of PES headers: what \<^verbatim>\<open>writePESHeader\<close> emits, and that
  \<^verbatim>\<open>parsePESData\<close> reads it back together with the data that follow.
\<close>

section \<open>Any iterator of the contract\<close>

context bytes_iterator
begin

lemma sim_parsePESTimestamps: "sim I (parsePESTimestamps I ind) (parsePESTimestamps refIterator ind)"
  unfolding parsePESTimestamps_def by (intro sim_intros sim_ops sim_parsePTSOrDTS)

lemma sim_parsePESExtension: "sim I (parsePESExtension I h) (parsePESExtension refIterator h)"
  unfolding parsePESExtension_def parsePESExtension2_def by (intro sim_intros sim_ops)

lemma sim_parsePESOptionalHeader: "sim I (parsePESOptionalHeader I) (parsePESOptionalHeader refIterator)"
  unfolding parsePESOptionalHeader_def
  by (intro sim_intros sim_ops sim_parsePESTimestamps sim_parseESCR sim_parsePESExtension)

lemma sim_parsePESHeader: "sim I (parsePESHeader I) (parsePESHeader refIterator)"
  unfolding parsePESHeader_def by (intro sim_intros sim_ops sim_parsePESOptionalHeader)

lemma sim_parsePESData: "sim I (parsePESData I) (parsePESData refIterator)"
  unfolding parsePESData_def by (intro sim_intros sim_ops sim_parsePESHeader)

end

section \<open>Trick modes\<close>

definition trick_bits :: "DSMTrickMode \<Rightarrow> bool list" where
  "trick_bits m = bits_of 3 (tm_TrickModeControl m) @
     (if tm_TrickModeControl m = TrickModeControlFastForward \<or> tm_TrickModeControl m = TrickModeControlFastReverse
      then bits_of 2 (tm_FieldID m) @ [tm_IntraSliceRefresh m = 1] @ bits_of 2 (tm_FrequencyTruncation m)
      else if tm_TrickModeControl m = TrickModeControlFreezeFrame then bits_of 2 (tm_FieldID m) @ [True, True, True]
      else if tm_TrickModeControl m = TrickModeControlSlowMotion \<or> tm_TrickModeControl m = TrickModeControlSlowReverse
      then bits_of 5 (tm_RepeatControl m)
      else [True, True, True, True, True])"

definition wf_trick :: "DSMTrickMode \<Rightarrow> bool" where
  "wf_trick m \<longleftrightarrow> fits 3 (tm_TrickModeControl m) \<and>
     (if tm_TrickModeControl m = TrickModeControlFastForward \<or> tm_TrickModeControl m = TrickModeControlFastReverse
      then fits 2 (tm_FieldID m) \<and> fits 1 (tm_IntraSliceRefresh m) \<and> fits 2 (tm_FrequencyTruncation m) \<and> tm_RepeatControl m = 0
      else if tm_TrickModeControl m = TrickModeControlFreezeFrame
      then fits 2 (tm_FieldID m) \<and> tm_IntraSliceRefresh m = 0 \<and> tm_FrequencyTruncation m = 0 \<and> tm_RepeatControl m = 0
      else tm_FieldID m = 0 \<and> tm_IntraSliceRefresh m = 0 \<and> tm_FrequencyTruncation m = 0 \<and>
        (if tm_TrickModeControl m = TrickModeControlSlowMotion \<or> tm_TrickModeControl m = TrickModeControlSlowReverse
         then fits 5 (tm_RepeatControl m) else tm_RepeatControl m = 0))"

lemma length_trick_bits [simp]: "length (trick_bits m) = 8"
  by (simp add: trick_bits_def)

lemma fits_1_iff: "fits 1 (x :: uint8) \<Longrightarrow> x = 1 \<longleftrightarrow> bit x 0"
  using fits_bit[of 1 x] by (simp add: word_eq_bits)

lemma trick_control: "fits 3 c \<Longrightarrow> drop_bit 5 (byte8 (bit c 2) (bit c 1) (bit c 0) d e f g h) = c"
  using fits_bit[of 3 c] by (simp add: word_eq_bits bit_simps)

lemmas trick_controls = TrickModeControlFastForward_def TrickModeControlFastReverse_def
  TrickModeControlFreezeFrame_def TrickModeControlSlowMotion_def TrickModeControlSlowReverse_def

lemma parse_trick_byte:
  assumes "wf_trick m"
  shows "\<exists>b. bits_to_bytes (trick_bits m) = [b] \<and> parseDSMTrickMode b = m"
proof (cases m)
  case (fields fid freq intra rep c)
  have c: "fits 3 c" using assms by (simp add: wf_trick_def fields)
  note parse = parseDSMTrickMode_def trick_control[OF c]
  consider (fast) "c = TrickModeControlFastForward \<or> c = TrickModeControlFastReverse"
    | (freeze) "c = TrickModeControlFreezeFrame"
    | (slow) "c = TrickModeControlSlowMotion \<or> c = TrickModeControlSlowReverse"
    | (other) "c \<notin> {TrickModeControlFastForward, TrickModeControlFastReverse, TrickModeControlFreezeFrame,
        TrickModeControlSlowMotion, TrickModeControlSlowReverse}" by auto
  then show ?thesis
  proof cases
    case fast
    then have wf: "fits 2 fid" "fits 1 intra" "fits 2 freq" "rep = 0" using assms by (simp_all add: wf_trick_def fields)
    let ?b = "byte8 (bit c 2) (bit c 1) (bit c 0) (bit fid 1) (bit fid 0) (intra = 1) (bit freq 1) (bit freq 0)"
    have "parseDSMTrickMode ?b = m" unfolding parse using fast wf fits_1_iff[OF wf(2)]
        fits_bit[OF wf(1)] fits_bit[OF wf(2)] fits_bit[OF wf(3)]
      by (simp add: fields Let_def) (simp add: word_eq_bits bit_simps)
    with fast show ?thesis by (simp add: trick_bits_def fields)
  next
    case freeze
    then have wf: "fits 2 fid" "intra = 0" "freq = 0" "rep = 0"
      using assms by (simp_all add: wf_trick_def fields trick_controls)
    let ?b = "byte8 (bit c 2) (bit c 1) (bit c 0) (bit fid 1) (bit fid 0) True True True"
    have "parseDSMTrickMode ?b = m" unfolding parse using freeze wf fits_bit[OF wf(1)]
      by (simp add: fields Let_def trick_controls) (simp add: word_eq_bits bit_simps)
    with freeze show ?thesis by (simp add: trick_bits_def fields trick_controls)
  next
    case slow
    then have wf: "fits 5 rep" "intra = 0" "freq = 0" "fid = 0"
      using assms by (auto simp: wf_trick_def fields trick_controls split: if_splits)
    let ?b = "byte8 (bit c 2) (bit c 1) (bit c 0) (bit rep 4) (bit rep 3) (bit rep 2) (bit rep 1) (bit rep 0)"
    have "rep = ?b AND 0x1f" using fits_bit[OF wf(1)] by (simp add: word_eq_bits bit_simps)
    then have "parseDSMTrickMode ?b = m" unfolding parse using slow wf
      by (auto simp: fields Let_def trick_controls)
    with slow show ?thesis by (auto simp: trick_bits_def fields trick_controls)
  next
    case other
    then have wf: "rep = 0" "intra = 0" "freq = 0" "fid = 0"
      using assms by (auto simp: wf_trick_def fields split: if_splits)
    let ?b = "byte8 (bit c 2) (bit c 1) (bit c 0) True True True True True"
    have "parseDSMTrickMode ?b = m" unfolding parse using other wf by (simp add: fields Let_def)
    with other show ?thesis by (simp add: trick_bits_def fields)
  qed
qed

section \<open>The extension\<close>

definition counter_bits :: "PESOptionalHeader \<Rightarrow> bool list" where
  "counter_bits h = [True] @ bits_of 7 (oh_PacketSequenceCounter h) @ [True] @
     bits_of 1 (oh_MPEG1OrMPEG2ID h) @ bits_of 6 (oh_OriginalStuffingLength h)"

definition pstd_bits :: "PESOptionalHeader \<Rightarrow> bool list" where
  "pstd_bits h = [False, True] @ bits_of 1 (oh_PSTDBufferScale h) @ bits_of 13 (oh_PSTDBufferSize h)"

definition ext2_bits :: "PESOptionalHeader \<Rightarrow> bool list" where
  "ext2_bits h = [True] @ bits_of 7 (word_of_nat (length (oh_Extension2Data h)) :: uint8) @ bytes_to_bits (oh_Extension2Data h)"

definition pes_ext_bits :: "PESOptionalHeader \<Rightarrow> bool list" where
  "pes_ext_bits h =
     [oh_HasPrivateData h, False, oh_HasProgramPacketSequenceCounter h, oh_HasPSTDBuffer h, True, True, True, oh_HasExtension2 h] @
     (if oh_HasPrivateData h then bytes_to_bits (oh_PrivateData h) else []) @
     (if oh_HasProgramPacketSequenceCounter h then counter_bits h else []) @
     (if oh_HasPSTDBuffer h then pstd_bits h else []) @
     (if oh_HasExtension2 h then ext2_bits h else [])"

text \<open>An extension that is present carries its fields, one that is not has none.\<close>

definition wf_pes_ext :: "PESOptionalHeader \<Rightarrow> bool" where
  "wf_pes_ext h \<longleftrightarrow>
     (\<not> oh_HasExtension h \<longrightarrow> \<not> oh_HasPrivateData h \<and> \<not> oh_HasProgramPacketSequenceCounter h \<and>
        \<not> oh_HasPSTDBuffer h \<and> \<not> oh_HasExtension2 h) \<and>
     \<not> oh_HasPackHeaderField h \<and> oh_PackField h = 0 \<and>
     (if oh_HasPrivateData h then length (oh_PrivateData h) = 16 else oh_PrivateData h = []) \<and>
     (if oh_HasProgramPacketSequenceCounter h
      then fits 7 (oh_PacketSequenceCounter h) \<and> fits 1 (oh_MPEG1OrMPEG2ID h) \<and> fits 6 (oh_OriginalStuffingLength h)
      else oh_PacketSequenceCounter h = 0 \<and> oh_MPEG1OrMPEG2ID h = 0 \<and> oh_OriginalStuffingLength h = 0) \<and>
     (if oh_HasPSTDBuffer h then fits 1 (oh_PSTDBufferScale h) \<and> fits 13 (oh_PSTDBufferSize h)
      else oh_PSTDBufferScale h = 0 \<and> oh_PSTDBufferSize h = 0) \<and>
     (if oh_HasExtension2 h then length (oh_Extension2Data h) < 128 else oh_Extension2Data h = []) \<and>
     oh_Extension2Length h = word_of_nat (length (oh_Extension2Data h))"

lemma length_counter_bits [simp]: "length (counter_bits h) = 16" "length (pstd_bits h) = 16"
    "length (ext2_bits h) = 8 + 8 * length (oh_Extension2Data h)"
  by (simp_all add: counter_bits_def pstd_bits_def ext2_bits_def)

lemma length_pes_ext_bits: "wf_pes_ext h \<Longrightarrow> int (length (pes_ext_bits h)) = 8 * pesExtensionSize h"
  by (auto simp: pes_ext_bits_def pesExtensionSize_def wf_pes_ext_def)

lemma pesExtensionWrites_bits:
  "wf_pes_ext h \<Longrightarrow> concat (map wcmd_bits (pesExtensionWrites h)) = pes_ext_bits h"
  by (auto simp: wf_pes_ext_def pesExtensionWrites_def pes_ext_bits_def counter_bits_def pstd_bits_def ext2_bits_def)

lemma reads_private16: "(if c then length d = 16 else d = []) \<Longrightarrow>
    reads (pwhen c [] (fetchBytes refIterator 16)) bs off (if c then d else []) d"
  by (auto simp: pwhen_def reads_preturn intro: reads_fetchBytes)

lemma reads_counter:
  assumes "if c then fits 7 (oh_PacketSequenceCounter h) \<and> fits 1 (oh_MPEG1OrMPEG2ID h) \<and> fits 6 (oh_OriginalStuffingLength h)
      else oh_PacketSequenceCounter h = 0 \<and> oh_MPEG1OrMPEG2ID h = 0 \<and> oh_OriginalStuffingLength h = 0"
  shows "reads (pwhen c (0, 0, 0) (pbind (fetchBytesNoCopy refIterator 2) (\<lambda>bs.
        preturn (bs ! 0 AND 0x7f, drop_bit 6 (bs ! 1) AND 0x1, bs ! 1 AND 0x3f)))) bs off
      (if c then bits_to_bytes (counter_bits h) else [])
      (oh_PacketSequenceCounter h, oh_MPEG1OrMPEG2ID h, oh_OriginalStuffingLength h)"
proof (cases c)
  case True
  with assms have "fits 7 (oh_PacketSequenceCounter h)" "fits 1 (oh_MPEG1OrMPEG2ID h)" "fits 6 (oh_OriginalStuffingLength h)" by auto
  note [simp] = this[THEN fits_bit]
  show ?thesis using True
    by (simp only: pwhen_def if_True, intro reads_fetch_return) (simp_all add: counter_bits_def word_eq_bits bit_simps)
qed (use assms in \<open>simp add: pwhen_def reads_preturn\<close>)

lemma reads_pstd:
  assumes "if c then fits 1 (oh_PSTDBufferScale h) \<and> fits 13 (oh_PSTDBufferSize h)
      else oh_PSTDBufferScale h = 0 \<and> oh_PSTDBufferSize h = 0"
  shows "reads (pwhen c (0, 0) (pbind (fetchBytesNoCopy refIterator 2) (\<lambda>bs.
        preturn (drop_bit 5 (bs ! 0) AND 0x1, push_bit 8 (ucast (bs ! 0) AND 0x1f) OR ucast (bs ! 1))))) bs off
      (if c then bits_to_bytes (pstd_bits h) else []) (oh_PSTDBufferScale h, oh_PSTDBufferSize h)"
proof (cases c)
  case True
  with assms have "fits 1 (oh_PSTDBufferScale h)" "fits 13 (oh_PSTDBufferSize h)" by auto
  note [simp] = this[THEN fits_bit]
  show ?thesis using True
    by (simp only: pwhen_def if_True, intro reads_fetch_return) (simp_all add: pstd_bits_def word_eq_bits bit_simps)
qed (use assms in \<open>simp add: pwhen_def reads_preturn\<close>)

lemma reads_ext2:
  assumes "if c then length (oh_Extension2Data h) < 128 else oh_Extension2Data h = []"
  shows "reads (pwhen c (0, []) (parsePESExtension2 refIterator)) bs off
      (if c then bits_to_bytes (ext2_bits h) else []) (word_of_nat (length (oh_Extension2Data h)), oh_Extension2Data h)"
proof (cases c)
  case True
  let ?d = "oh_Extension2Data h" and ?l = "word_of_nat (length (oh_Extension2Data h)) :: uint8"
  let ?b = "byte8 True (bit ?l 6) (bit ?l 5) (bit ?l 4) (bit ?l 3) (bit ?l 2) (bit ?l 1) (bit ?l 0)"
  have small: "length ?d < 128" using assms True by simp
  then have l: "uint ?l = int (length ?d)" using word_of_int_inverse[OF refl, of "int (length ?d)", where 'a = 8] by simp
  have "fits 7 ?l" unfolding fits_def using small l by (simp add: word_less_def)
  then have b: "?b AND 0x7f = ?l" using fits_bit[of 7 ?l] by (simp add: word_eq_bits bit_simps)
  have "reads (parsePESExtension2 refIterator) bs off ([?b] @ ?d @ []) (?b AND 0x7f, ?d)"
    unfolding parsePESExtension2_def Let_def
    by (intro reads_pbind[OF reads_pwrap[OF reads_NextByte]] reads_pbind[OF reads_fetchBytes] reads_preturn) (simp only: b l)
  then show ?thesis using True b by (simp add: pwhen_def ext2_bits_def)
qed (use assms in \<open>simp add: pwhen_def reads_preturn\<close>)

text \<open>The fields of the extension, as the parser finds them in a header that has none.\<close>

definition drop_pes_ext :: "PESOptionalHeader \<Rightarrow> PESOptionalHeader" where
  "drop_pes_ext h = h\<lparr>oh_HasPrivateData := False, oh_HasPackHeaderField := False,
     oh_HasProgramPacketSequenceCounter := False, oh_HasPSTDBuffer := False, oh_HasExtension2 := False,
     oh_PrivateData := [], oh_PackField := 0, oh_PacketSequenceCounter := 0, oh_MPEG1OrMPEG2ID := 0,
     oh_OriginalStuffingLength := 0, oh_PSTDBufferScale := 0, oh_PSTDBufferSize := 0,
     oh_Extension2Length := 0, oh_Extension2Data := []\<rparr>"

lemma reads_parsePESExtension:
  assumes "wf_pes_ext h"
  shows "reads (parsePESExtension refIterator (drop_pes_ext h)) bs off (bits_to_bytes (pes_ext_bits h)) h"
proof -
  note wf = assms[unfolded wf_pes_ext_def]
  have bytes: "bits_to_bytes (pes_ext_bits h) =
      [byte8 (oh_HasPrivateData h) False (oh_HasProgramPacketSequenceCounter h) (oh_HasPSTDBuffer h) True True True (oh_HasExtension2 h)] @
      (if oh_HasPrivateData h then oh_PrivateData h else []) @ [] @
      (if oh_HasProgramPacketSequenceCounter h then bits_to_bytes (counter_bits h) else []) @
      (if oh_HasPSTDBuffer h then bits_to_bytes (pstd_bits h) else []) @
      (if oh_HasExtension2 h then bits_to_bytes (ext2_bits h) else []) @ []"
    by (simp add: pes_ext_bits_def bits_to_bytes_aligned)
  show ?thesis
    unfolding parsePESExtension_def Let_def bytes
    apply (rule reads_pbind[OF reads_fetchByte])
    apply (simp only: flag_bit bit_byte8_simps)
    apply (rule reads_pbind[OF reads_private16], use wf in blast)
    apply (rule reads_pbind[where a = 0], simp only: pwhen_def if_False, rule reads_preturn)
    apply (rule reads_pbind[OF reads_counter], use wf in blast)
    apply (rule reads_pbind[OF reads_pstd], use wf in blast)
    apply (rule reads_pbind[OF reads_ext2], use wf in blast)
    apply (rule reads_conv[OF reads_preturn refl])
    using wf by (cases h) (simp add: drop_pes_ext_def)
qed

section \<open>The optional header\<close>

definition pes_stamp_bits :: "PESOptionalHeader \<Rightarrow> bool list" where
  "pes_stamp_bits h =
     (if oh_PTSDTSIndicator h = PTSDTSIndicatorOnlyPTS then pts_bits 2 (the (oh_PTS h)) else []) @
     (if oh_PTSDTSIndicator h = PTSDTSIndicatorBothPresent then pts_bits 3 (the (oh_PTS h)) @ pts_bits 1 (the (oh_DTS h)) else [])"

definition pes_opt_bits :: "PESOptionalHeader \<Rightarrow> bool list" where
  "pes_opt_bits h =
     [True, False] @ bits_of 2 (oh_ScramblingControl h) @
     [oh_Priority h, oh_DataAlignmentIndicator h, oh_IsCopyrighted h, oh_IsOriginal h] @
     bits_of 2 (oh_PTSDTSIndicator h) @
     [oh_HasESCR h, oh_HasESRate h, oh_HasDSMTrickMode h, oh_HasAdditionalCopyInfo h, False, oh_HasExtension h] @
     bits_of 8 (calcPESOptionalHeaderDataLength h) @
     pes_stamp_bits h @
     (if oh_HasESCR h then escr_bits (the (oh_ESCR h)) else []) @
     (if oh_HasESRate h then [True] @ bits_of 22 (oh_ESRate h) @ [True] else []) @
     (if oh_HasDSMTrickMode h then trick_bits (the (oh_DSMTrickMode h)) else []) @
     (if oh_HasAdditionalCopyInfo h then [True] @ bits_of 7 (oh_AdditionalCopyInfo h) else []) @
     (if oh_HasExtension h then pes_ext_bits h else [])"

definition wf_pes_stamps :: "PESOptionalHeader \<Rightarrow> bool" where
  "wf_pes_stamps h \<longleftrightarrow>
     (if oh_PTSDTSIndicator h = PTSDTSIndicatorOnlyPTS then (\<exists>p. oh_PTS h = Some p \<and> fits_pts p) \<and> oh_DTS h = None
      else if oh_PTSDTSIndicator h = PTSDTSIndicatorBothPresent
      then (\<exists>p. oh_PTS h = Some p \<and> fits_pts p) \<and> (\<exists>d. oh_DTS h = Some d \<and> fits_pts d)
      else oh_PTS h = None \<and> oh_DTS h = None)"

definition wf_pes_opt :: "PESOptionalHeader \<Rightarrow> bool" where
  "wf_pes_opt h \<longleftrightarrow> oh_MarkerBits h = 2 \<and> fits 2 (oh_ScramblingControl h) \<and> fits 2 (oh_PTSDTSIndicator h) \<and>
     oh_HeaderLength h = calcPESOptionalHeaderDataLength h \<and> \<not> oh_HasOptionalFields h \<and>
     wf_pes_stamps h \<and>
     (if oh_HasESCR h then \<exists>cr. oh_ESCR h = Some cr \<and> fits_pcr cr else oh_ESCR h = None) \<and>
     (if oh_HasESRate h then fits 22 (oh_ESRate h) else oh_ESRate h = 0) \<and>
     (if oh_HasDSMTrickMode h then \<exists>m. oh_DSMTrickMode h = Some m \<and> wf_trick m else oh_DSMTrickMode h = None) \<and>
     (if oh_HasAdditionalCopyInfo h then fits 7 (oh_AdditionalCopyInfo h) else oh_AdditionalCopyInfo h = 0) \<and>
     \<not> oh_HasCRC h \<and> oh_CRC h = 0 \<and> wf_pes_ext h"

text \<open>The size of the optional fields, which fits the byte that announces it.\<close>

definition pes_data_size :: "PESOptionalHeader \<Rightarrow> int" where
  "pes_data_size h =
     (if oh_PTSDTSIndicator h = PTSDTSIndicatorOnlyPTS then 5
      else if oh_PTSDTSIndicator h = PTSDTSIndicatorBothPresent then 10 else 0)
     + (if oh_HasESCR h then 6 else 0) + (if oh_HasESRate h then 3 else 0)
     + (if oh_HasDSMTrickMode h then 1 else 0) + (if oh_HasAdditionalCopyInfo h then 1 else 0)
     + (if oh_HasExtension h then pesExtensionSize h else 0)"

lemma pes_ext_size_bounds: "wf_pes_ext h \<Longrightarrow> 1 \<le> pesExtensionSize h \<and> pesExtensionSize h \<le> 149"
  by (auto simp: pesExtensionSize_def wf_pes_ext_def split: if_splits)

lemma pes_data_size_bounds: "wf_pes_opt h \<Longrightarrow> 0 \<le> pes_data_size h \<and> pes_data_size h \<le> 170"
  using pes_ext_size_bounds[of h] by (simp add: pes_data_size_def wf_pes_opt_def)

lemma calc_pes: "calcPESOptionalHeaderDataLength h = word_of_int (pes_data_size h)"
  by (simp add: calcPESOptionalHeaderDataLength_def pes_data_size_def pesExtensionSize_def)

lemma uint_calc_pes: "wf_pes_opt h \<Longrightarrow> uint (calcPESOptionalHeaderDataLength h) = pes_data_size h"
  unfolding calc_pes using pes_data_size_bounds[of h] by (simp add: word_of_int_inverse)

lemma uint_calc_pes_opt: "wf_pes_opt h \<Longrightarrow> uint (calcPESOptionalHeaderLength (Some h)) = 3 + pes_data_size h"
  using pes_data_size_bounds[of h]
    word_of_int_inverse[OF refl, of "3 + pes_data_size h", where 'a = 8]
  by (simp add: calcPESOptionalHeaderLength_def calc_pes)

lemma indicator_distinct: "PTSDTSIndicatorOnlyPTS \<noteq> PTSDTSIndicatorBothPresent"
  by (simp add: PTSDTSIndicatorOnlyPTS_def PTSDTSIndicatorBothPresent_def)

lemma length_pes_opt_bits:
  assumes "wf_pes_opt h"
  shows "int (length (pes_opt_bits h)) = 8 * (3 + pes_data_size h)"
  using assms length_pes_ext_bits[of h] indicator_distinct
  by (simp add: pes_opt_bits_def pes_stamp_bits_def pes_data_size_def wf_pes_opt_def)

context bits_writer
begin

lemma emits_writeDSMTrickMode: "emits view (writeDSMTrickMode W m) (trick_bits m) 1"
proof -
  have "emits view (writeDSMTrickMode W m)
      (concat (map wcmd_bits (WrN (AU8 (tm_TrickModeControl m)) 3 #
        (if tm_TrickModeControl m = TrickModeControlFastForward \<or> tm_TrickModeControl m = TrickModeControlFastReverse
         then [WrN (AU8 (tm_FieldID m)) 2, Wr (ABool (tm_IntraSliceRefresh m = 1)), WrN (AU8 (tm_FrequencyTruncation m)) 2]
         else if tm_TrickModeControl m = TrickModeControlFreezeFrame then [WrN (AU8 (tm_FieldID m)) 2, WrN (AU8 0xff) 3]
         else if tm_TrickModeControl m = TrickModeControlSlowMotion \<or> tm_TrickModeControl m = TrickModeControlSlowReverse
         then [WrN (AU8 (tm_RepeatControl m)) 5]
         else [WrN (AU8 0xff) 5]))) @ []) dsmTrickModeLength"
    unfolding writeDSMTrickMode_def Let_def by (intro emits_wbind[OF emits_batch] emits_wdone)
  then show ?thesis
    by (rule emits_conv) (simp_all add: trick_bits_def dsmTrickModeLength_def bits_of_ones del: bits_of_numeral)
qed

lemma emits_deref:
  "(if c then \<exists>x. p = Some x \<and> Q x else p = None) \<Longrightarrow> (\<And>x. Q x \<Longrightarrow> emits view (k x) (enc x) n) \<Longrightarrow>
    emits view (wwhen c 0 (wderef p k)) (if c then enc (the p) else []) (if c then n else 0)"
  by (auto simp: wwhen_def wderef_def emits_wreturn)

lemma emits_pes_stamps:
  assumes "wf_pes_stamps h"
  shows "emits view (wwhen (oh_PTSDTSIndicator h = PTSDTSIndicatorOnlyPTS) 0 (wderef (oh_PTS h) (writePTSOrDTS W 2)))
      (if oh_PTSDTSIndicator h = PTSDTSIndicatorOnlyPTS then pts_bits 2 (the (oh_PTS h)) else [])
      (if oh_PTSDTSIndicator h = PTSDTSIndicatorOnlyPTS then 5 else 0)" (is ?one)
    and "emits view (wwhen (oh_PTSDTSIndicator h = PTSDTSIndicatorBothPresent) 0
       (wbind (wderef (oh_PTS h) (writePTSOrDTS W 3)) (\<lambda>n.
        wbind (wderef (oh_DTS h) (writePTSOrDTS W 1)) (\<lambda>n'. wreturn (n + n')))))
      (if oh_PTSDTSIndicator h = PTSDTSIndicatorBothPresent then pts_bits 3 (the (oh_PTS h)) @ pts_bits 1 (the (oh_DTS h)) else [])
      (if oh_PTSDTSIndicator h = PTSDTSIndicatorBothPresent then 10 else 0)" (is ?two)
proof -
  show ?one
    using assms by (auto simp: wf_pes_stamps_def wwhen_def wderef_def emits_wreturn emits_writePTSOrDTS)
  have "emits view (wbind (writePTSOrDTS W 3 p) (\<lambda>n. wbind (writePTSOrDTS W 1 d) (\<lambda>n'. wreturn (n + n'))))
      (pts_bits 3 p @ pts_bits 1 d @ []) (5 + 5)" for p d
    by (intro emits_wbind[OF emits_writePTSOrDTS] emits_wreturn)
  with assms indicator_distinct show ?two
    by (auto simp: wf_pes_stamps_def wwhen_def wderef_def emits_wreturn)
qed

lemma emits_writePESOptionalHeader:
  assumes "wf_pes_opt h"
  shows "emits view (writePESOptionalHeader W (Some h)) (pes_opt_bits h) (3 + pes_data_size h)"
proof -
  let ?head = "[WrN (AU8 2) 2, WrN (AU8 (oh_ScramblingControl h)) 2, Wr (ABool (oh_Priority h)),
        Wr (ABool (oh_DataAlignmentIndicator h)), Wr (ABool (oh_IsCopyrighted h)), Wr (ABool (oh_IsOriginal h)),
        WrN (AU8 (oh_PTSDTSIndicator h)) 2, Wr (ABool (oh_HasESCR h)), Wr (ABool (oh_HasESRate h)),
        Wr (ABool (oh_HasDSMTrickMode h)), Wr (ABool (oh_HasAdditionalCopyInfo h)), Wr (ABool False),
        Wr (ABool (oh_HasExtension h)), Wr (AU8 (calcPESOptionalHeaderDataLength h))]"
  let ?rate = "if oh_HasESRate h then [Wr (ABool True), WrN (AU32 (oh_ESRate h)) 22, Wr (ABool True)] else []"
  let ?tail = "(if oh_HasAdditionalCopyInfo h then [Wr (ABool True), WrN (AU8 (oh_AdditionalCopyInfo h)) 7] else []) @
        (if oh_HasExtension h then pesExtensionWrites h else [])"
  note wf = assms[unfolded wf_pes_opt_def]
  from wf have stamps: "wf_pes_stamps h" and ext: "wf_pes_ext h" by blast+
  have escr: "emits view (wwhen (oh_HasESCR h) 0 (wderef (oh_ESCR h) (writeESCR W)))
      (if oh_HasESCR h then escr_bits (the (oh_ESCR h)) else []) (if oh_HasESCR h then 6 else 0)"
    using wf by (intro emits_deref[where Q = fits_pcr] emits_writeESCR) blast
  have trick: "emits view (wwhen (oh_HasDSMTrickMode h) 0 (wderef (oh_DSMTrickMode h) (writeDSMTrickMode W)))
      (if oh_HasDSMTrickMode h then trick_bits (the (oh_DSMTrickMode h)) else []) (if oh_HasDSMTrickMode h then 1 else 0)"
    using wf by (intro emits_deref[where Q = wf_trick] emits_writeDSMTrickMode) blast
  have "emits view (writePESOptionalHeader W (Some h))
     (concat (map wcmd_bits ?head) @
      (if oh_PTSDTSIndicator h = PTSDTSIndicatorOnlyPTS then pts_bits 2 (the (oh_PTS h)) else []) @
      (if oh_PTSDTSIndicator h = PTSDTSIndicatorBothPresent then pts_bits 3 (the (oh_PTS h)) @ pts_bits 1 (the (oh_DTS h)) else []) @
      (if oh_HasESCR h then escr_bits (the (oh_ESCR h)) else []) @
      concat (map wcmd_bits ?rate) @
      (if oh_HasDSMTrickMode h then trick_bits (the (oh_DSMTrickMode h)) else []) @
      concat (map wcmd_bits ?tail) @ [])
     (3 + (if oh_PTSDTSIndicator h = PTSDTSIndicatorOnlyPTS then 5 else 0)
        + (if oh_PTSDTSIndicator h = PTSDTSIndicatorBothPresent then 10 else 0)
        + (if oh_HasESCR h then 6 else 0) + (if oh_HasESRate h then 3 else 0) + (if oh_HasDSMTrickMode h then 1 else 0)
        + (if oh_HasAdditionalCopyInfo h then 1 else 0) + (if oh_HasExtension h then pesExtensionSize h else 0))"
    unfolding writePESOptionalHeader_def option.case
    by (intro emits_wbind[OF emits_batch] emits_wbind[OF emits_pes_stamps(1)[OF stamps]]
        emits_wbind[OF emits_pes_stamps(2)[OF stamps]] emits_wbind[OF escr] emits_wbind[OF trick] emits_wdone)
  then show ?thesis
    by (rule emits_conv)
      (use indicator_distinct in \<open>simp_all add: pes_opt_bits_def pes_stamp_bits_def pes_data_size_def pesExtensionWrites_bits[OF ext]\<close>)
qed

end

lemma reads_parsePESTimestamps:
  assumes "wf_pes_stamps h"
  shows "reads (parsePESTimestamps refIterator (oh_PTSDTSIndicator h)) bs off (bits_to_bytes (pes_stamp_bits h)) (oh_PTS h, oh_DTS h)"
proof -
  have one: "reads (pbind (pwrap msg (parsePTSOrDTS refIterator)) (\<lambda>pts. preturn (Some pts, None))) bs off
      (bits_to_bytes (pts_bits f p) @ []) (Some p, None)" if "fits_pts p" for p f msg
    by (intro reads_pbind[OF reads_pwrap[OF reads_parsePTSOrDTS[OF that]]] reads_preturn)
  have two: "reads (pbind (pwrap msg (parsePTSOrDTS refIterator)) (\<lambda>pts.
        pbind (pwrap msg (parsePTSOrDTS refIterator)) (\<lambda>dts. preturn (Some pts, Some dts)))) bs off
      (bits_to_bytes (pts_bits f p) @ bits_to_bytes (pts_bits f' d) @ []) (Some p, Some d)"
    if "fits_pts p" "fits_pts d" for p d f f' msg
    by (intro reads_pbind[OF reads_pwrap[OF reads_parsePTSOrDTS]] reads_preturn that)
  show ?thesis
    using assms indicator_distinct one two
    by (auto simp: parsePESTimestamps_def wf_pes_stamps_def pes_stamp_bits_def bits_to_bytes_aligned reads_preturn)
qed

lemma reads_parseESCR_opt:
  "(if c then \<exists>cr. p = Some cr \<and> fits_pcr cr else p = None) \<Longrightarrow>
    reads (pwhen c None (psome (pwrap msg (parseESCR refIterator)))) bs off
      (if c then bits_to_bytes (escr_bits (the p)) else []) p"
  by (auto simp: pwhen_def intro!: reads_preturn reads_psome reads_pwrap reads_parseESCR)

lemma reads_ESRate:
  assumes "if c then fits 22 r else r = 0"
  shows "reads (pwhen c 0 (pbind (fetchBytesNoCopy refIterator 3) (\<lambda>bs.
        preturn (push_bit 15 (ucast (bs ! 0) AND 0x7f) OR push_bit 7 (ucast (bs ! 1)) OR drop_bit 1 (ucast (bs ! 2)))))) bs off
      (if c then bits_to_bytes ([True] @ bits_of 22 r @ [True]) else []) (r :: uint32)"
proof (cases c)
  case True
  with assms have "fits 22 r" by simp
  note [simp] = this[THEN fits_bit]
  show ?thesis using True
    by (simp only: pwhen_def if_True, intro reads_fetch_return) (simp_all add: word_eq_bits bit_simps)
qed (use assms in \<open>simp add: pwhen_def reads_preturn\<close>)

lemma reads_byte_return: "y = f b \<Longrightarrow> reads (pbind (fetchByte refIterator) (\<lambda>b. preturn (f b))) bs off [b] y"
  using reads_pbind[OF reads_fetchByte, of "\<lambda>b. preturn (f b)" b bs off "[]" y] reads_preturn[of "f b"] by simp

lemma reads_trick:
  assumes "if c then \<exists>m. p = Some m \<and> wf_trick m else p = None"
  shows "reads (pwhen c None (pbind (fetchByte refIterator) (\<lambda>b. preturn (Some (parseDSMTrickMode b))))) bs off
      (if c then bits_to_bytes (trick_bits (the p)) else []) p"
proof (cases c)
  case True
  with assms obtain m where m: "p = Some m" "wf_trick m" by auto
  from parse_trick_byte[OF m(2)] obtain b where "bits_to_bytes (trick_bits m) = [b]" "parseDSMTrickMode b = m" by blast
  with True m(1) show ?thesis by (simp add: pwhen_def reads_byte_return)
qed (use assms in \<open>simp add: pwhen_def reads_preturn\<close>)

lemma reads_copyInfo:
  assumes "if c then fits 7 x else x = 0"
  shows "reads (pwhen c 0 (pbind (fetchByte refIterator) (\<lambda>b. preturn (b AND 0x7f)))) bs off
      (if c then bits_to_bytes ([True] @ bits_of 7 x) else []) (x :: byte)"
proof (cases c)
  case True
  let ?b = "byte8 True (bit x 6) (bit x 5) (bit x 4) (bit x 3) (bit x 2) (bit x 1) (bit x 0)"
  from True assms have "fits 7 x" by simp
  then have "x = ?b AND 0x7f" using fits_bit[of 7 x] by (simp add: word_eq_bits bit_simps)
  with True reads_byte_return[of x "\<lambda>b. b AND 0x7f" ?b bs off] show ?thesis by (simp add: pwhen_def)
qed (use assms in \<open>simp add: pwhen_def reads_preturn\<close>)

lemma reads_pes_ext_opt:
  assumes "wf_pes_ext h" "g = drop_pes_ext h"
  shows "reads (pwhen (oh_HasExtension h) g (parsePESExtension refIterator g)) bs off
      (if oh_HasExtension h then bits_to_bytes (pes_ext_bits h) else []) h"
proof (cases "oh_HasExtension h")
  case True
  with reads_parsePESExtension[OF assms(1)] assms(2) show ?thesis by (simp add: pwhen_def)
next
  case False
  with assms(1) have "drop_pes_ext h = h" by (cases h) (auto simp: drop_pes_ext_def wf_pes_ext_def)
  with False assms(2) show ?thesis by (simp add: pwhen_def reads_preturn)
qed

lemma pes_stamp_bits_aligned: "length (pes_stamp_bits h) mod 8 = 0"
  by (simp add: pes_stamp_bits_def)

text \<open>The three fixed bytes.\<close>

definition pes_byte0 :: "PESOptionalHeader \<Rightarrow> byte" where
  "pes_byte0 h = byte8 True False (bit (oh_ScramblingControl h) 1) (bit (oh_ScramblingControl h) 0)
     (oh_Priority h) (oh_DataAlignmentIndicator h) (oh_IsCopyrighted h) (oh_IsOriginal h)"

definition pes_byte1 :: "PESOptionalHeader \<Rightarrow> byte" where
  "pes_byte1 h = byte8 (bit (oh_PTSDTSIndicator h) 1) (bit (oh_PTSDTSIndicator h) 0) (oh_HasESCR h) (oh_HasESRate h)
     (oh_HasDSMTrickMode h) (oh_HasAdditionalCopyInfo h) False (oh_HasExtension h)"

lemma pes_byte_fields:
  assumes "wf_pes_opt h"
  shows "drop_bit 6 (pes_byte0 h) = 2" "drop_bit 4 (pes_byte0 h) AND 0x3 = oh_ScramblingControl h"
    "drop_bit 6 (pes_byte1 h) AND 0x3 = oh_PTSDTSIndicator h"
proof -
  from assms have "fits 2 (oh_ScramblingControl h)" "fits 2 (oh_PTSDTSIndicator h)" by (simp_all add: wf_pes_opt_def)
  note [simp] = this[THEN fits_bit]
  show "drop_bit 6 (pes_byte0 h) = 2" "drop_bit 4 (pes_byte0 h) AND 0x3 = oh_ScramblingControl h"
    "drop_bit 6 (pes_byte1 h) AND 0x3 = oh_PTSDTSIndicator h"
    by (simp_all add: pes_byte0_def pes_byte1_def word_eq_bits bit_simps)
qed

lemma pes_opt_bytes:
  assumes "wf_pes_opt h"
  shows "bits_to_bytes (pes_opt_bits h) = [pes_byte0 h] @ [pes_byte1 h] @ [calcPESOptionalHeaderDataLength h] @ [] @
    bits_to_bytes (pes_stamp_bits h) @
    (if oh_HasESCR h then bits_to_bytes (escr_bits (the (oh_ESCR h))) else []) @
    (if oh_HasESRate h then bits_to_bytes ([True] @ bits_of 22 (oh_ESRate h) @ [True]) else []) @
    (if oh_HasDSMTrickMode h then bits_to_bytes (trick_bits (the (oh_DSMTrickMode h))) else []) @
    (if oh_HasAdditionalCopyInfo h then bits_to_bytes ([True] @ bits_of 7 (oh_AdditionalCopyInfo h)) else []) @ [] @
    (if oh_HasExtension h then bits_to_bytes (pes_ext_bits h) else []) @ []"
  by (simp add: pes_opt_bits_def bits_to_bytes_aligned pes_stamp_bits_aligned pes_byte0_def pes_byte1_def byte8_bits)

lemma reads_parsePESOptionalHeader:
  assumes "wf_pes_opt h"
  shows "reads (parsePESOptionalHeader refIterator) bs off (bits_to_bytes (pes_opt_bits h)) (h, off + 3 + pes_data_size h)"
proof -
  note wf = assms[unfolded wf_pes_opt_def] and fields = pes_byte_fields[OF assms]
  from wf have stamps: "wf_pes_stamps h" and ext: "wf_pes_ext h" by blast+
  show ?thesis
    unfolding parsePESOptionalHeader_def Let_def pes_opt_bytes[OF assms]
    apply (rule reads_pbind[OF reads_fetchByte])
    apply (rule reads_pbind[OF reads_fetchByte])
    apply (rule reads_pbind[OF reads_fetchByte])
    apply (rule reads_pbind[OF reads_offset])
    apply (simp only: fields flag_bit)
    apply (simp only: pes_byte0_def[of h] pes_byte1_def[of h] bit_byte8_simps)
    apply (rule reads_pbind[OF reads_parsePESTimestamps[OF stamps]])
    apply (rule reads_pbind[OF reads_parseESCR_opt], use wf in blast)
    apply (rule reads_pbind[OF reads_ESRate], use wf in blast)
    apply (rule reads_pbind[OF reads_trick], use wf in blast)
    apply (rule reads_pbind[OF reads_copyInfo], use wf in blast)
    apply (rule reads_pbind[where a = 0], simp only: pwhen_def if_False, rule reads_preturn)
    apply (rule reads_pbind[OF reads_pes_ext_opt[OF ext]])
     apply (use wf in \<open>cases h; simp add: drop_pes_ext_def zeroPESOptionalHeader_def wf_pes_ext_def\<close>)
    apply (rule reads_conv[OF reads_preturn refl])
    by (simp add: uint_calc_pes[OF assms])
qed

section \<open>The PES packet\<close>

definition pes_head_bits :: "PESHeader \<Rightarrow> int \<Rightarrow> bool list" where
  "pes_head_bits h n = bits_of 24 (1 :: uint32) @ bits_of 8 (pes_StreamID h) @ bits_of 16 (word_of_int (pesPacketLength h n) :: uint16) @
     (if hasPESOptionalHeader (pes_StreamID h) then pes_opt_bits (the (pes_OptionalHeader h)) else [])"

definition wf_pes :: "PESHeader \<Rightarrow> bool" where
  "wf_pes h \<longleftrightarrow> (if hasPESOptionalHeader (pes_StreamID h)
     then \<exists>oh. pes_OptionalHeader h = Some oh \<and> wf_pes_opt oh else pes_OptionalHeader h = None)"

definition pes_opt_size :: "PESHeader \<Rightarrow> int" where
  "pes_opt_size h = (if hasPESOptionalHeader (pes_StreamID h) then 3 + pes_data_size (the (pes_OptionalHeader h)) else 0)"

definition pes_head_size :: "PESHeader \<Rightarrow> int" where
  "pes_head_size h = 6 + pes_opt_size h"

lemma pes_opt_size_bounds: "wf_pes h \<Longrightarrow> 0 \<le> pes_opt_size h \<and> pes_opt_size h \<le> 173"
  using pes_data_size_bounds by (auto simp: pes_opt_size_def wf_pes_def)

lemma pes_opt_size_calc: "wf_pes h \<Longrightarrow> uint (calcPESOptionalHeaderLength (pes_OptionalHeader h)) = pes_opt_size h"
  by (auto simp: wf_pes_def pes_opt_size_def uint_calc_pes_opt calcPESOptionalHeaderLength_def[of None] split: if_splits)

lemma length_pes_head_bits: "wf_pes h \<Longrightarrow> int (length (pes_head_bits h n)) = 8 * pes_head_size h"
  using length_pes_opt_bits
  by (auto simp: pes_head_bits_def pes_head_size_def pes_opt_size_def wf_pes_def split: if_splits)

lemma pes_head_bits_aligned: "wf_pes h \<Longrightarrow> length (pes_head_bits h n) mod 8 = 0"
  using length_pes_head_bits[of h n] by presburger

text \<open>The packet length that is written: of the rest of the packet, or 0.\<close>

lemma pesPacketLength_cases:
  "wf_pes h \<Longrightarrow> 0 \<le> n \<Longrightarrow> pesPacketLength h n = pes_opt_size h + n \<and> pes_opt_size h + n \<le> 0xffff \<or> pesPacketLength h n = 0"
  using pes_opt_size_calc[of h]
  by (auto simp: pesPacketLength_def pes_opt_size_def Let_def)

lemma uint_pesPacketLength:
  "wf_pes h \<Longrightarrow> 0 \<le> n \<Longrightarrow> uint (word_of_int (pesPacketLength h n) :: uint16) = pesPacketLength h n"
  using pesPacketLength_cases[of h n] pes_opt_size_bounds[of h] by (auto simp: word_of_int_inverse)

context bits_writer
begin

lemma emits_writePESHeader:
  assumes "wf_pes h"
  shows "emits view (writePESHeader W h n) (pes_head_bits h n) (pes_head_size h)"
proof -
  let ?cmds = "[WrN (AU32 1) 24, Wr (AU8 (pes_StreamID h)), Wr (AU16 (word_of_int (pesPacketLength h n)))]"
  have opt: "emits view (wwhen (hasPESOptionalHeader (pes_StreamID h)) 0 (writePESOptionalHeader W (pes_OptionalHeader h)))
      (if hasPESOptionalHeader (pes_StreamID h) then pes_opt_bits (the (pes_OptionalHeader h)) else []) (pes_opt_size h)"
    using assms by (auto simp: wf_pes_def wwhen_def pes_opt_size_def emits_wreturn emits_writePESOptionalHeader split: if_splits)
  have "emits view (writePESHeader W h n)
      (concat (map wcmd_bits ?cmds) @
       (if hasPESOptionalHeader (pes_StreamID h) then pes_opt_bits (the (pes_OptionalHeader h)) else []) @ [])
      (pesHeaderLength + pes_opt_size h)"
    unfolding writePESHeader_def by (intro emits_wbind[OF emits_batch] emits_wbind[OF opt] emits_wdone)
  then show ?thesis
    by (rule emits_conv) (simp_all add: pes_head_bits_def pes_head_size_def pesHeaderLength_def del: bits_of_numeral)
qed

text \<open>The first packet of a PES packet, and the packets after it.\<close>

lemma emits_writePESData_start:
  fixes d :: "byte list"
  assumes "wf_pes h" "pes_head_size h \<le> avail"
  defines "k \<equiv> min (avail - pes_head_size h) (int (length d))"
  shows "emits view (writePESData W h d True avail) (pes_head_bits h (int (length d)) @ bytes_to_bits (take (nat k) d))
    (pes_head_size h + k, k)"
proof -
  have k: "(if int (length d) < avail - pes_head_size h then int (length d) else avail - pes_head_size h) = k"
    by (simp add: k_def)
  have k0: "\<not> k < 0" using assms(2) by (simp add: k_def)
  have "emits view (writePESData W h d True avail)
      (pes_head_bits h (int (length d)) @ wcmd_bits (Wr (ABytes (take (nat k) d))) @ []) (pes_head_size h + k, k)"
    unfolding writePESData_def Let_def wwhen_def if_True
    apply (rule emits_wbind[OF emits_wcount[OF emits_writePESHeader[OF assms(1)]]])
    apply (simp only: k k0 if_False)
    by (intro emits_wbind[OF emits_wcount[OF emits_wwrite]] emits_wreturn)
  then show ?thesis by simp
qed

lemma emits_writePESData_rest:
  fixes d :: "byte list"
  assumes "0 \<le> avail"
  defines "k \<equiv> min avail (int (length d))"
  shows "emits view (writePESData W h d False avail) (bytes_to_bits (take (nat k) d)) (k, k)"
proof -
  have k: "(if int (length d) < avail - 0 then int (length d) else avail - 0) = k"
    by (simp add: k_def)
  have k0: "\<not> k < 0" using assms(1) by (simp add: k_def)
  have "emits view (writePESData W h d False avail) ([] @ wcmd_bits (Wr (ABytes (take (nat k) d))) @ []) (0 + k, k)"
    unfolding writePESData_def Let_def wwhen_def if_False
    apply (rule emits_wbind[OF emits_wcount[OF emits_wreturn]])
    apply (simp only: k k0 if_False)
    by (intro emits_wbind[OF emits_wcount[OF emits_wwrite]] emits_wreturn)
  then show ?thesis by simp
qed

end

section \<open>Reading a PES packet back\<close>

lemma reads_packetLength:
  "reads (pbind (fetchBytesNoCopy refIterator 2) (\<lambda>bs. preturn (push_bit 8 (ucast (bs ! 0)) OR ucast (bs ! 1)))) bs off
    (bits_to_bytes (bits_of 16 (w :: uint16))) w"
  by (intro reads_fetch_return) (simp_all add: word_eq_bits bit_simps)

lemma bits_to_bytes_16:
  "bits_to_bytes (bits_of 16 (w :: uint16)) = [b0, b1] \<Longrightarrow> push_bit 8 (ucast b0) OR ucast b1 = w"
  by (auto simp: word_eq_bits bit_simps)

definition pes_bytes :: "PESHeader \<Rightarrow> byte list \<Rightarrow> byte list" where
  "pes_bytes h d = bits_to_bytes (pes_head_bits h (int (length d))) @ d"

lemma pes_bytes_eq:
  "wf_pes h \<Longrightarrow> pes_bytes h d = [0, 0, 1] @ ([pes_StreamID h] @
    bits_to_bytes (bits_of 16 (word_of_int (pesPacketLength h (int (length d))) :: uint16)) @
    (if hasPESOptionalHeader (pes_StreamID h) then bits_to_bytes (pes_opt_bits (the (pes_OptionalHeader h))) else [])) @ d"
proof -
  have "bits_to_bytes (bits_of 24 (1 :: uint32)) = [0, 0, 1]" by (simp add: word_eq_bits bit_simps)
  then show ?thesis
    by (simp add: pes_bytes_def pes_head_bits_def bits_to_bytes_aligned byte8_bits del: bits_of_numeral)
      (simp add: byte8_bits)
qed

lemma length_pes_bytes: "wf_pes h \<Longrightarrow> int (length (pes_bytes h d)) = pes_head_size h + int (length d)"
  using length_pes_head_bits[of h "int (length d)"] by (simp add: pes_bytes_def zdiv_int)

text \<open>The end of the data: by the packet length, or by the end of the slice.\<close>

lemma reads_pes_dataEnd:
  fixes h n
  defines "w \<equiv> word_of_int (pesPacketLength h n) :: uint16"
  assumes "wf_pes h" and "int (length bs) = pes_head_size h + n" and "0 \<le> n"
  shows "reads (if w > 0 then pbind (offset refIterator) (\<lambda>o'. preturn (o' + uint w)) else pget (bi_Len refIterator))
      bs 6 [] (pes_head_size h + n)"
proof (cases "w > 0")
  case True
  then have "pesPacketLength h n \<noteq> 0" by (auto simp: w_def)
  with pesPacketLength_cases[OF assms(2,4)] uint_pesPacketLength[OF assms(2,4)]
  have "uint w = pes_opt_size h + n" by (auto simp: w_def)
  then have "reads (pbind (offset refIterator) (\<lambda>o'. preturn (o' + uint w))) bs 6 ([] @ []) (pes_head_size h + n)"
    by (intro reads_pbind[OF reads_offset] reads_conv[OF reads_preturn refl]) (simp add: pes_head_size_def)
  with True show ?thesis by simp
next
  case False
  with reads_Len[of bs 6] assms(3) show ?thesis by simp
qed

lemma reads_pes_opt:
  assumes "wf_pes h"
  shows "reads (if hasPESOptionalHeader (pes_StreamID h)
     then pbind (pwrap msg (parsePESOptionalHeader refIterator)) (\<lambda>(oh, dataStart).
       preturn (\<lparr>pes_OptionalHeader = Some oh, pes_PacketLength = w, pes_StreamID = pes_StreamID h\<rparr>, dataStart, dataEnd))
     else pbind (offset refIterator) (\<lambda>dataStart.
       preturn (\<lparr>pes_OptionalHeader = None, pes_PacketLength = w, pes_StreamID = pes_StreamID h\<rparr>, dataStart, dataEnd)))
     bs 6 (if hasPESOptionalHeader (pes_StreamID h) then bits_to_bytes (pes_opt_bits (the (pes_OptionalHeader h))) else [])
     (h\<lparr>pes_PacketLength := w\<rparr>, pes_head_size h, dataEnd)"
proof (cases "hasPESOptionalHeader (pes_StreamID h)")
  case True
  with assms obtain oh where oh: "pes_OptionalHeader h = Some oh" "wf_pes_opt oh" by (auto simp: wf_pes_def)
  have "reads (pbind (pwrap msg (parsePESOptionalHeader refIterator)) (\<lambda>(oh, dataStart).
     preturn (\<lparr>pes_OptionalHeader = Some oh, pes_PacketLength = w, pes_StreamID = pes_StreamID h\<rparr>, dataStart, dataEnd)))
     bs 6 (bits_to_bytes (pes_opt_bits oh) @ []) (h\<lparr>pes_PacketLength := w\<rparr>, pes_head_size h, dataEnd)"
    using True oh
    by (intro reads_pbind[OF reads_pwrap[OF reads_parsePESOptionalHeader[OF oh(2)]]])
      (cases h, simp add: reads_def preturn_def pes_head_size_def pes_opt_size_def)
  with True oh show ?thesis by simp
next
  case False
  have "reads (pbind (offset refIterator) (\<lambda>dataStart.
     preturn (\<lparr>pes_OptionalHeader = None, pes_PacketLength = w, pes_StreamID = pes_StreamID h\<rparr>, dataStart, dataEnd)))
     bs 6 ([] @ []) (h\<lparr>pes_PacketLength := w\<rparr>, pes_head_size h, dataEnd)"
    using False assms
    by (intro reads_pbind[OF reads_offset] reads_conv[OF reads_preturn refl])
      (cases h, simp add: pes_head_size_def pes_opt_size_def wf_pes_def)
  with False show ?thesis by simp
qed

lemma reads_parsePESHeader:
  assumes "wf_pes h" and "int (length bs) = pes_head_size h + n" and "0 \<le> n"
  shows "reads (parsePESHeader refIterator) bs 3
    ([pes_StreamID h] @ bits_to_bytes (bits_of 16 (word_of_int (pesPacketLength h n) :: uint16)) @
     (if hasPESOptionalHeader (pes_StreamID h) then bits_to_bytes (pes_opt_bits (the (pes_OptionalHeader h))) else []))
    (h\<lparr>pes_PacketLength := word_of_int (pesPacketLength h n)\<rparr>, pes_head_size h, pes_head_size h + n)"
proof -
  let ?w = "word_of_int (pesPacketLength h n) :: uint16"
  obtain b0 b1 where b: "bits_to_bytes (bits_of 16 ?w) = [b0, b1]" by simp
  note w = bits_to_bytes_16[OF b]
  have "reads (parsePESHeader refIterator) bs 3 ([pes_StreamID h] @ [b0, b1] @ [] @
     (if hasPESOptionalHeader (pes_StreamID h) then bits_to_bytes (pes_opt_bits (the (pes_OptionalHeader h))) else []))
    (h\<lparr>pes_PacketLength := ?w\<rparr>, pes_head_size h, pes_head_size h + n)"
    unfolding parsePESHeader_def Let_def
    apply (rule reads_pbind[OF reads_fetchByte])
    apply (rule reads_pbind[OF reads_fetchBytesNoCopy], simp)
    apply (simp only: nth_Cons_0 nth_Cons_Suc One_nat_def w)
    apply (rule reads_pbind)
     apply (use reads_pes_dataEnd[OF assms] in simp)
    by (use reads_pes_opt[OF assms(1), where w = ?w and dataEnd = "pes_head_size h + n" and bs = bs
        and msg = "''astits: parsing PES optional header failed: ''"] in simp)
  then show ?thesis by (simp only: b append_Nil)
qed

lemma parsePESData_ref:
  assumes "wf_pes h"
  shows "parseBytes refIterator (parsePESData refIterator) (pes_bytes h d) = Some (Inr
    \<lparr>pes_Data = d, pes_Header = h\<lparr>pes_PacketLength := word_of_int (pesPacketLength h (int (length d)))\<rparr>\<rparr>)"
proof -
  let ?bs = "pes_bytes h d" and ?n = "int (length d)"
  let ?hd = "[pes_StreamID h] @ bits_to_bytes (bits_of 16 (word_of_int (pesPacketLength h ?n) :: uint16)) @
     (if hasPESOptionalHeader (pes_StreamID h) then bits_to_bytes (pes_opt_bits (the (pes_OptionalHeader h))) else [])"
  have at: "stands ?bs 3 ?hd"
    unfolding stands_def pes_bytes_eq[OF assms] by (intro exI[of _ "[0, 0, 1]"] exI[of _ d]) simp
  obtain off where hd: "pwrap msg (parsePESHeader refIterator) (?bs, 3) =
      Some (Inr ((h\<lparr>pes_PacketLength := word_of_int (pesPacketLength h ?n)\<rparr>, pes_head_size h, pes_head_size h + ?n), ?bs, off))" for msg
    using reads_parsePESHeader[OF assms length_pes_bytes[OF assms, of d]] at by (fastforce simp: reads_def pwrap_Inr)
  have n: "nat (pes_head_size h) = length (bits_to_bytes (pes_head_bits h ?n))" "0 \<le> pes_head_size h"
    using length_pes_head_bits[OF assms, of ?n] by (simp_all add: zdiv_int)
  have "drop (nat (pes_head_size h)) ?bs = d" by (simp add: n(1) pes_bytes_def)
  with n(2) length_pes_bytes[OF assms, of d] show ?thesis
    by (simp add: parseBytes_def parsePESData_def pbind_def seek_def pmove_def hd fetchBytes_def plift_def
        pwrap_def[where p = "\<lambda>i. Some (bi_NextBytes _ _ i)"] preturn_def)
qed

section \<open>Properties\<close>

text \<open>
  \<^bold>\<open>C7\<close>. Writing a PES packet and parsing it back. For every well-formed header (its
  optional header consistent with its flags; without the unsupported CRC and pack header fields),
  \<^verbatim>\<open>writePESData\<close> with enough room writes the header and all of the data, and
  \<^verbatim>\<open>parsePESData\<close> returns the same header, with the packet length that was written,
  and the same data.
\<close>

theorem pes_roundtrip:
  assumes "astikit I W view" and "wf_pes h" and "pes_head_size h + int (length d) \<le> avail"
  shows "\<exists>bs. writeBytes W (writePESData W h d True avail) = (Inr (int (length bs), int (length d)), bs) \<and>
    parseBytes I (parsePESData I) bs = Some (Inr
      \<lparr>pes_Data = d, pes_Header = h\<lparr>pes_PacketLength := word_of_int (pesPacketLength h (int (length d)))\<rparr>\<rparr>)"
proof -
  note I = astikit.axioms(1)[OF assms(1)] and W = astikit.axioms(2)[OF assms(1)]
  have k: "min (avail - pes_head_size h) (int (length d)) = int (length d)" using assms(3) by simp
  have "writeBytes W (writePESData W h d True avail) = (Inr (int (length (pes_bytes h d)), int (length d)), pes_bytes h d)"
    using bits_writer.writeBytes_emits[OF W bits_writer.emits_writePESData_start[OF W assms(2), of avail d]] assms(3)
      length_pes_bytes[OF assms(2), of d] pes_head_bits_aligned[OF assms(2)]
    by (simp add: k pes_bytes_def bits_to_bytes_aligned)
  moreover have "parseBytes I (parsePESData I) (pes_bytes h d) = Some (Inr
      \<lparr>pes_Data = d, pes_Header = h\<lparr>pes_PacketLength := word_of_int (pesPacketLength h (int (length d)))\<rparr>\<rparr>)"
    by (rule bytes_iterator.parseBytes_transfer[OF I bytes_iterator.sim_parsePESData[OF I] parsePESData_ref[OF assms(2)]]) simp
  ultimately show ?thesis by blast
qed

text \<open>
  \<^bold>\<open>C32\<close>. What \<^verbatim>\<open>calcPESDataLength\<close> announces for the first packet. For a well-formed header that fits into
  the bytes available, \<^verbatim>\<open>writePESData\<close> with the same arguments writes as many payload bytes as the second
  result says. The first result is not the total that the comment promises but the bytes of the header: the total
  written is the sum of the two results, and equal to the first only when no payload byte fits or none is left.
\<close>

theorem calcPESDataLength_first:
  assumes "bits_writer W view" and "wf_pes h" and "pes_head_size h \<le> avail"
  shows "\<exists>total payload. fst (writeBytes W (writePESData W h d True avail)) = Inr (total, payload) \<and>
    snd (calcPESDataLength h d True avail) = payload \<and> fst (calcPESDataLength h d True avail) = total - payload \<and>
    (fst (calcPESDataLength h d True avail) = total \<longleftrightarrow> d = [] \<or> avail = pes_head_size h)"
  using bits_writer.writeBytes_emits[OF assms(1) bits_writer.emits_writePESData_start[OF assms, of d]]
    pes_opt_size_calc[OF assms(2)] assms(3)
  by (auto simp: calcPESDataLength_def Let_def pesHeaderLength_def pes_head_size_def min_def)

text \<open>
  \<^bold>\<open>C33\<close>. What \<^verbatim>\<open>calcPESDataLength\<close> announces for the packets after the first, for any number of bytes
  available. \<^verbatim>\<open>writePESData\<close> writes nothing but payload: all that is left or all that fits. The first result is
  6, the size of a header that is not written, and the second leaves room for it: it is smaller than what is
  written by the part of these six bytes that the payload reaches into, hence right exactly when the payload that
  is left ends at least six bytes before the room does, and six bytes short when it fills the room.
\<close>

theorem calcPESDataLength_later:
  assumes "bits_writer W view" and "0 \<le> avail"
  shows "\<exists>n. fst (writeBytes W (writePESData W h d False avail)) = Inr (n, n) \<and> n = min avail (int (length d)) \<and>
    fst (calcPESDataLength h d False avail) = 6 \<and>
    snd (calcPESDataLength h d False avail) = n - max 0 (min 6 (int (length d) - (avail - 6))) \<and>
    (snd (calcPESDataLength h d False avail) = n \<longleftrightarrow> int (length d) \<le> avail - 6)"
  using bits_writer.writeBytes_emits[OF assms(1) bits_writer.emits_writePESData_rest[OF assms, of h d]] assms(2)
  by (auto simp: calcPESDataLength_def Let_def pesHeaderLength_def min_def max_def)

section \<open>Witnesses\<close>

definition samplePESOptionalHeader :: PESOptionalHeader where
  "samplePESOptionalHeader = zeroPESOptionalHeader\<lparr>oh_MarkerBits := 2, oh_PTSDTSIndicator := 3,
     oh_PTS := Some (newClockReference 5726623061 0), oh_DTS := Some (newClockReference 5726623060 0),
     oh_HasDSMTrickMode := True, oh_DSMTrickMode := Some \<lparr>tm_FieldID = 2, tm_FrequencyTruncation = 1,
       tm_IntraSliceRefresh = 1, tm_RepeatControl = 0, tm_TrickModeControl = 3\<rparr>,
     oh_HasExtension := True, oh_HasPSTDBuffer := True, oh_PSTDBufferScale := 1, oh_PSTDBufferSize := 5461,
     oh_HasExtension2 := True, oh_Extension2Length := 3, oh_Extension2Data := [1, 2, 3], oh_HeaderLength := 18\<rparr>"

definition samplePESHeader :: PESHeader where
  "samplePESHeader = \<lparr>pes_OptionalHeader = Some samplePESOptionalHeader, pes_PacketLength = 26, pes_StreamID = 0xc0\<rparr>"

lemma samplePES: "wf_pes samplePESHeader" "pes_head_size samplePESHeader = 27" "pesPacketLength samplePESHeader 5 = 26"
proof -
  have n: "(word_of_nat 3 :: uint8) = 3" by simp
  have sz: "pes_data_size samplePESOptionalHeader = 18"
    by (simp add: pes_data_size_def pesExtensionSize_def samplePESOptionalHeader_def zeroPESOptionalHeader_def
        PTSDTSIndicatorOnlyPTS_def PTSDTSIndicatorBothPresent_def)
  have wf: "wf_pes_opt samplePESOptionalHeader"
    unfolding wf_pes_opt_def calc_pes sz
    by (simp add: samplePESOptionalHeader_def zeroPESOptionalHeader_def wf_pes_stamps_def wf_pes_ext_def wf_trick_def
        trick_controls fits_def fits_pts_def newClockReference_def PTSDTSIndicatorOnlyPTS_def PTSDTSIndicatorBothPresent_def)
  have opt: "hasPESOptionalHeader 0xc0"
    by (simp add: hasPESOptionalHeader_def StreamIDPaddingStream_def StreamIDPrivateStream2_def)
  show "wf_pes samplePESHeader" "pes_head_size samplePESHeader = 27"
    using wf opt sz by (simp_all add: wf_pes_def samplePESHeader_def pes_head_size_def pes_opt_size_def)
  show "pesPacketLength samplePESHeader 5 = 26"
    using opt uint_calc_pes_opt[OF wf] sz by (simp add: pesPacketLength_def samplePESHeader_def IsVideoStream_def)
qed

theorem pes_roundtrip_witness:
  "\<exists>bs. writeBytes refWriter (writePESData refWriter samplePESHeader [9, 8, 7, 6, 5] True 184) = (Inr (int (length bs), 5), bs) \<and>
    parseBytes refIterator (parsePESData refIterator) bs = Some (Inr \<lparr>pes_Data = [9, 8, 7, 6, 5], pes_Header = samplePESHeader\<rparr>)"
  using pes_roundtrip[OF ref_astikit.astikit_axioms samplePES(1), of "[9, 8, 7, 6, 5]" 184] samplePES
  by (simp add: samplePESHeader_def)

theorem calcPESDataLength_first_witness:
  "fst (writeBytes refWriter (writePESData refWriter samplePESHeader (replicate 500 7) True 184)) = Inr (184, 157) \<and>
    calcPESDataLength samplePESHeader (replicate 500 7) True 184 = (27, 157)"
proof -
  have "calcPESDataLength samplePESHeader (replicate 500 7) True 184 = (27, 157)"
    using samplePES(2) pes_opt_size_calc[OF samplePES(1)] by (simp add: calcPESDataLength_def pes_head_size_def pesHeaderLength_def)
  with calcPESDataLength_first[OF ref_writer.bits_writer_axioms samplePES(1), of 184 "replicate 500 7"] samplePES(2)
  show ?thesis by auto
qed

theorem calcPESDataLength_later_witness:
  "fst (writeBytes refWriter (writePESData refWriter samplePESHeader (replicate 180 7) False 184)) = Inr (180, 180) \<and>
    calcPESDataLength samplePESHeader (replicate 180 7) False 184 = (6, 178)"
  using calcPESDataLength_later[OF ref_writer.bits_writer_axioms, of 184 samplePESHeader "replicate 180 7"] by (auto simp: prod_eq_iff)

end
