(* ===== verification/Packet.thy ===== *)
theory Packet
  imports Clock_Codec
begin

text \<open>
  \<^verbatim>\<open>packet.go\<close>: transport packets, their header and adaptation field, as
  \<^verbatim>\<open>parsePacket\<close> reads them and \<^verbatim>\<open>writePacket\<close> writes them. A pointer
  field is an option, nil being \<^const>\<open>None\<close>;
  the header of a packet, which every packet made by this package has, is not.
\<close>

section \<open>Data\<close>

definition MpegTsPacketSize :: int where
  "MpegTsPacketSize = 188"

definition mpegTsPacketHeaderSize :: int where
  "mpegTsPacketHeaderSize = 3"

definition syncByte :: byte where
  "syncByte = 0x47"

record PacketHeader =
  ph_ContinuityCounter :: uint8
  ph_HasAdaptationField :: bool
  ph_HasPayload :: bool
  ph_PayloadUnitStartIndicator :: bool
  ph_PID :: uint16
  ph_TransportErrorIndicator :: bool
  ph_TransportPriority :: bool
  ph_TransportScramblingControl :: uint8

record PacketAdaptationExtensionField =
  ae_DTSNextAccessUnit :: "ClockReference option"
  ae_HasLegalTimeWindow :: bool
  ae_HasPiecewiseRate :: bool
  ae_HasSeamlessSplice :: bool
  ae_LegalTimeWindowIsValid :: bool
  ae_LegalTimeWindowOffset :: uint16
  ae_Length :: int
  ae_PiecewiseRate :: uint32
  ae_SpliceType :: uint8

record PacketAdaptationField =
  af_AdaptationExtensionField :: "PacketAdaptationExtensionField option"
  af_DiscontinuityIndicator :: bool
  af_ElementaryStreamPriorityIndicator :: bool
  af_HasAdaptationExtensionField :: bool
  af_HasOPCR :: bool
  af_HasPCR :: bool
  af_HasTransportPrivateData :: bool
  af_HasSplicingCountdown :: bool
  af_Length :: int
  af_IsOneByteStuffing :: bool
  af_StuffingLength :: int
  af_OPCR :: "ClockReference option"
  af_PCR :: "ClockReference option"
  af_RandomAccessIndicator :: bool
  af_SpliceCountdown :: int
  af_TransportPrivateDataLength :: int
  af_TransportPrivateData :: "byte list"

record Packet =
  p_AdaptationField :: "PacketAdaptationField option"
  p_Header :: PacketHeader
  p_Payload :: "byte list"

text \<open>Go's zero values \<^verbatim>\<open>PacketAdaptationExtensionField{}\<close> and \<^verbatim>\<open>PacketAdaptationField{}\<close>.\<close>

definition zeroAdaptationExtensionField :: PacketAdaptationExtensionField where
  "zeroAdaptationExtensionField = \<lparr>
     ae_DTSNextAccessUnit = None, ae_HasLegalTimeWindow = False, ae_HasPiecewiseRate = False,
     ae_HasSeamlessSplice = False, ae_LegalTimeWindowIsValid = False, ae_LegalTimeWindowOffset = 0,
     ae_Length = 0, ae_PiecewiseRate = 0, ae_SpliceType = 0\<rparr>"

definition zeroAdaptationField :: PacketAdaptationField where
  "zeroAdaptationField = \<lparr>
     af_AdaptationExtensionField = None, af_DiscontinuityIndicator = False,
     af_ElementaryStreamPriorityIndicator = False, af_HasAdaptationExtensionField = False,
     af_HasOPCR = False, af_HasPCR = False, af_HasTransportPrivateData = False,
     af_HasSplicingCountdown = False, af_Length = 0, af_IsOneByteStuffing = False,
     af_StuffingLength = 0, af_OPCR = None, af_PCR = None, af_RandomAccessIndicator = False,
     af_SpliceCountdown = 0, af_TransportPrivateDataLength = 0, af_TransportPrivateData = []\<rparr>"

section \<open>Parsing\<close>

definition parsePacketHeader :: "'i BytesIterator \<Rightarrow> ('i, PacketHeader) parser" where
  "parsePacketHeader I =
     pbind (fetchBytesNoCopy I 3) (\<lambda>bs.
     preturn \<lparr>
       ph_ContinuityCounter = bs ! 2 AND 0xf,
       ph_HasAdaptationField = 0 < bs ! 2 AND 0x20,
       ph_HasPayload = 0 < bs ! 2 AND 0x10,
       ph_PayloadUnitStartIndicator = 0 < bs ! 0 AND 0x40,
       ph_PID = push_bit 8 (ucast (bs ! 0 AND 0x1f)) OR ucast (bs ! 1),
       ph_TransportErrorIndicator = 0 < bs ! 0 AND 0x80,
       ph_TransportPriority = 0 < bs ! 0 AND 0x20,
       ph_TransportScramblingControl = drop_bit 6 (bs ! 2) AND 0x3\<rparr>)"

text \<open>
  The adaptation extension of \<^verbatim>\<open>parsePacketAdaptationField\<close>. The byte with the splice
  type is read twice: the iterator is moved back before the DTS is parsed.
\<close>

definition parseSeamlessSplice :: "'i BytesIterator \<Rightarrow> ('i, uint8 \<times> ClockReference option) parser" where
  "parseSeamlessSplice I =
     pbind (fetchByte I) (\<lambda>b.
     pbind (skip I (-1)) (\<lambda>_.
     pbind (pwrap ''astits: parsing DTS failed: '' (parsePTSOrDTS I)) (\<lambda>dts.
     preturn (drop_bit 4 (b AND 0xf0), Some dts))))"

definition parseAdaptationExtensionField ::
    "'i BytesIterator \<Rightarrow> ('i, PacketAdaptationExtensionField) parser" where
  "parseAdaptationExtensionField I =
     pbind (fetchByte I) (\<lambda>b.
     let length = uint b in
     if \<not> length > 0 then preturn (zeroAdaptationExtensionField\<lparr>ae_Length := length\<rparr>)
     else
     pbind (fetchByte I) (\<lambda>b.
     let hasLegalTimeWindow = 0 < b AND 0x80; hasPiecewiseRate = 0 < b AND 0x40; hasSeamlessSplice = 0 < b AND 0x20 in
     pbind (pwhen hasLegalTimeWindow (False, 0)
       (pbind (fetchBytesNoCopy I 2) (\<lambda>bs.
        preturn (0 < bs ! 0 AND 0x80, push_bit 8 (ucast (bs ! 0 AND 0x7f)) OR ucast (bs ! 1))))) (\<lambda>ltw.
     pbind (pwhen hasPiecewiseRate 0
       (pbind (fetchBytesNoCopy I 3) (\<lambda>bs.
        preturn (push_bit 16 (ucast (bs ! 0 AND 0x3f)) OR push_bit 8 (ucast (bs ! 1)) OR ucast (bs ! 2))))) (\<lambda>rate.
     pbind (pwhen hasSeamlessSplice (0, None) (parseSeamlessSplice I)) (\<lambda>splice.
     preturn \<lparr>
       ae_DTSNextAccessUnit = snd splice, ae_HasLegalTimeWindow = hasLegalTimeWindow,
       ae_HasPiecewiseRate = hasPiecewiseRate, ae_HasSeamlessSplice = hasSeamlessSplice,
       ae_LegalTimeWindowIsValid = fst ltw, ae_LegalTimeWindowOffset = snd ltw, ae_Length = length,
       ae_PiecewiseRate = rate, ae_SpliceType = fst splice\<rparr>)))))"

text \<open>The part of \<^verbatim>\<open>parsePacketAdaptationField\<close> under \<^verbatim>\<open>if a.Length > 0\<close>.\<close>

definition parseAdaptationFieldBody :: "'i BytesIterator \<Rightarrow> ('i, PacketAdaptationField) parser" where
  "parseAdaptationFieldBody I =
     pbind (fetchByte I) (\<lambda>b.
     let hasPCR = 0 < b AND 0x10; hasOPCR = 0 < b AND 0x08; hasSplicingCountdown = 0 < b AND 0x04;
         hasTransportPrivateData = 0 < b AND 0x02; hasAdaptationExtensionField = 0 < b AND 0x01 in
     pbind (pwhen hasPCR None (psome (pwrap ''astits: parsing PCR failed: '' (parsePCR I)))) (\<lambda>pcr.
     pbind (pwhen hasOPCR None (psome (pwrap ''astits: parsing PCR failed: '' (parsePCR I)))) (\<lambda>opcr.
     pbind (pwhen hasSplicingCountdown 0 (pbind (fetchByte I) (\<lambda>c. preturn (uint c)))) (\<lambda>countdown.
     pbind (pwhen hasTransportPrivateData (0, [])
       (pbind (fetchByte I) (\<lambda>l.
        pbind (pwhen (uint l > 0) [] (fetchBytes I (uint l))) (\<lambda>d.
        preturn (uint l, d))))) (\<lambda>private.
     pbind (pwhen hasAdaptationExtensionField None (psome (parseAdaptationExtensionField I))) (\<lambda>ext.
     preturn \<lparr>
       af_AdaptationExtensionField = ext, af_DiscontinuityIndicator = 0 < b AND 0x80,
       af_ElementaryStreamPriorityIndicator = 0 < b AND 0x20,
       af_HasAdaptationExtensionField = hasAdaptationExtensionField, af_HasOPCR = hasOPCR,
       af_HasPCR = hasPCR, af_HasTransportPrivateData = hasTransportPrivateData,
       af_HasSplicingCountdown = hasSplicingCountdown, af_Length = 0, af_IsOneByteStuffing = False,
       af_StuffingLength = 0, af_OPCR = opcr, af_PCR = pcr, af_RandomAccessIndicator = 0 < b AND 0x40,
       af_SpliceCountdown = countdown, af_TransportPrivateDataLength = fst private,
       af_TransportPrivateData = snd private\<rparr>))))))"

definition parsePacketAdaptationField :: "'i BytesIterator \<Rightarrow> ('i, PacketAdaptationField) parser" where
  "parsePacketAdaptationField I =
     pbind (fetchByte I) (\<lambda>b.
     let length = uint b in
     pbind (offset I) (\<lambda>afStartOffset.
     pbind (pwhen (length > 0) zeroAdaptationField (parseAdaptationFieldBody I)) (\<lambda>a.
     pbind (offset I) (\<lambda>o'.
     preturn (a\<lparr>af_Length := length, af_StuffingLength := length - (o' - afStartOffset)\<rparr>)))))"

text \<open>\<^const>\<open>None\<close> is the panic on a nil adaptation field.\<close>

definition payloadOffset :: "int \<Rightarrow> PacketHeader \<Rightarrow> PacketAdaptationField option \<Rightarrow> int option" where
  "payloadOffset offsetStart h a =
     (let offset = offsetStart + 3 in
      if ph_HasAdaptationField h then map_option (\<lambda>a. offset + (1 + af_Length a)) a else Some offset)"

text \<open>\<^verbatim>\<open>parsePacket\<close> from the header on.\<close>

definition parsePacketContents :: "'i BytesIterator \<Rightarrow> int \<Rightarrow> ('i, Packet) parser" where
  "parsePacketContents I offsetStart =
     pbind (pwrap ''astits: parsing packet header failed: '' (parsePacketHeader I)) (\<lambda>h.
     pbind (pwhen (ph_HasAdaptationField h) None
       (psome (pwrap ''astits: parsing packet adaptation field failed: '' (parsePacketAdaptationField I)))) (\<lambda>a.
     pbind (pwhen (ph_HasPayload h) []
       (case payloadOffset offsetStart h a of
          None \<Rightarrow> pfail Panic
        | Some off \<Rightarrow> pbind (seek I off) (\<lambda>_. dump I))) (\<lambda>payload.
     preturn \<lparr>p_AdaptationField = a, p_Header = h, p_Payload = payload\<rparr>)))"

definition parsePacket :: "'i BytesIterator \<Rightarrow> ('i, Packet) parser" where
  "parsePacket I =
     pbind (pwrap ''astits: getting next byte failed: '' (plift (bi_NextByte I))) (\<lambda>b.
     if b \<noteq> syncByte then pfail ErrPacketMustStartWithASyncByte
     else
     pbind (pget (bi_Len I)) (\<lambda>len.
     pbind (seek I (len - MpegTsPacketSize + 1)) (\<lambda>_.
     pbind (offset I) (parsePacketContents I))))"

section \<open>Writing\<close>

definition writePacketHeader :: "'w BitsWriter \<Rightarrow> PacketHeader \<Rightarrow> ('w, error, int) writer" where
  "writePacketHeader W h =
     wbind (batch W
       [Wr (ABool (ph_TransportErrorIndicator h)),
        Wr (ABool (ph_PayloadUnitStartIndicator h)),
        Wr (ABool (ph_TransportPriority h)),
        WrN (AU16 (ph_PID h)) 13,
        WrN (AU8 (ph_TransportScramblingControl h)) 2,
        Wr (ABool (ph_HasAdaptationField h)),
        Wr (ABool (ph_HasPayload h)),
        WrN (AU8 (ph_ContinuityCounter h)) 4] None) (\<lambda>b.
     wdone mpegTsPacketHeaderSize b)"

definition calcPacketAdaptationFieldExtensionLength :: "PacketAdaptationExtensionField \<Rightarrow> uint8" where
  "calcPacketAdaptationFieldExtensionLength afe =
     1 + (if ae_HasLegalTimeWindow afe then 2 else 0)
       + (if ae_HasPiecewiseRate afe then 3 else 0)
       + (if ae_HasSeamlessSplice afe then 5 else 0)"

text \<open>\<^verbatim>\<open>uint8\<close> arithmetic; \<^const>\<open>None\<close> is the panic on a nil extension field.\<close>

definition calcPacketAdaptationFieldLength :: "PacketAdaptationField \<Rightarrow> uint8 option" where
  "calcPacketAdaptationFieldLength af =
     map_option (\<lambda>ext.
       1 + (if af_HasPCR af then 6 else 0)
         + (if af_HasOPCR af then 6 else 0)
         + (if af_HasSplicingCountdown af then 1 else 0)
         + (if af_HasTransportPrivateData af then 1 + word_of_nat (length (af_TransportPrivateData af)) else 0)
         + ext
         + word_of_int (af_StuffingLength af))
     (if af_HasAdaptationExtensionField af
      then map_option (\<lambda>afe. 1 + calcPacketAdaptationFieldExtensionLength afe) (af_AdaptationExtensionField af)
      else Some 0)"

definition writePacketAdaptationFieldExtension ::
    "'w BitsWriter \<Rightarrow> PacketAdaptationExtensionField \<Rightarrow> ('w, error, int) writer" where
  "writePacketAdaptationFieldExtension W afe =
     wbind (batch W
       ([Wr (AU8 (calcPacketAdaptationFieldExtensionLength afe)),
         Wr (ABool (ae_HasLegalTimeWindow afe)),
         Wr (ABool (ae_HasPiecewiseRate afe)),
         Wr (ABool (ae_HasSeamlessSplice afe)),
         WrN (AU8 0xff) 5] @
        (if ae_HasLegalTimeWindow afe
         then [Wr (ABool (ae_LegalTimeWindowIsValid afe)), WrN (AU16 (ae_LegalTimeWindowOffset afe)) 15] else []) @
        (if ae_HasPiecewiseRate afe
         then [WrN (AU8 0xff) 2, WrN (AU32 (ae_PiecewiseRate afe)) 22] else [])) None) (\<lambda>b.
     let bytesWritten = 2 + (if ae_HasLegalTimeWindow afe then 2 else 0) + (if ae_HasPiecewiseRate afe then 3 else 0) in
     wbind (wwhen (ae_HasSeamlessSplice afe) 0
       (wderef (ae_DTSNextAccessUnit afe) (writePTSOrDTS W (ae_SpliceType afe)))) (\<lambda>n.
     wdone (bytesWritten + n) b))"

definition writePacketAdaptationField :: "'w BitsWriter \<Rightarrow> PacketAdaptationField \<Rightarrow> ('w, error, int) writer" where
  "writePacketAdaptationField W af =
     (if af_IsOneByteStuffing af then wbind (batch W [Wr (AU8 0)] None) (\<lambda>b. wreturn 1)
      else
      wderef (calcPacketAdaptationFieldLength af) (\<lambda>length'.
      wbind (batch W
        [Wr (AU8 length'),
         Wr (ABool (af_DiscontinuityIndicator af)),
         Wr (ABool (af_RandomAccessIndicator af)),
         Wr (ABool (af_ElementaryStreamPriorityIndicator af)),
         Wr (ABool (af_HasPCR af)),
         Wr (ABool (af_HasOPCR af)),
         Wr (ABool (af_HasSplicingCountdown af)),
         Wr (ABool (af_HasTransportPrivateData af)),
         Wr (ABool (af_HasAdaptationExtensionField af))] None) (\<lambda>b.
      wbind (wwhen (af_HasPCR af) 0 (wderef (af_PCR af) (writePCR W))) (\<lambda>n1.
      wbind (wwhen (af_HasOPCR af) 0 (wderef (af_OPCR af) (writePCR W))) (\<lambda>n2.
      wbind (batch W
        ((if af_HasSplicingCountdown af then [Wr (AU8 (word_of_int (af_SpliceCountdown af)))] else []) @
         (if af_HasTransportPrivateData af
          then Wr (AU8 (word_of_int (af_TransportPrivateDataLength af))) #
            (if af_TransportPrivateDataLength af > 0 then [Wr (ABytes (af_TransportPrivateData af))] else [])
          else [])) b) (\<lambda>b.
      wbind (wwhen (af_HasAdaptationExtensionField af) 0
        (wderef (af_AdaptationExtensionField af) (writePacketAdaptationFieldExtension W))) (\<lambda>n3.
      wbind (batch W (replicate (nat (af_StuffingLength af)) (Wr (AU8 0xff))) b) (\<lambda>b.
      wdone
        (2 + n1 + n2 + (if af_HasSplicingCountdown af then 1 else 0)
           + (if af_HasTransportPrivateData af then 1 + int (length (af_TransportPrivateData af)) else 0)
           + n3 + int (nat (af_StuffingLength af))) b))))))))"

text \<open>The last loop of \<^verbatim>\<open>writePacket\<close>: \<open>n\<close> more bytes of 0xff.\<close>

primrec writePadding :: "'w BitsWriter \<Rightarrow> nat \<Rightarrow> int \<Rightarrow> ('w, int \<times> error, int) writer" where
  "writePadding W 0 written = wreturn written"
| "writePadding W (Suc n) written =
     wbind (wcount written (wwrite W (Wr (AU8 0xff)))) (\<lambda>_. writePadding W n (written + 1))"

text \<open>An error is returned with the bytes written so far, as the code does.\<close>

definition writePacket :: "'w BitsWriter \<Rightarrow> Packet \<Rightarrow> int \<Rightarrow> ('w, int \<times> error, int) writer" where
  "writePacket W p targetPacketSize =
     wbind (wcount 0 (wwrite W (Wr (AU8 syncByte)))) (\<lambda>_.
     wbind (wcount 1 (writePacketHeader W (p_Header p))) (\<lambda>n.
     let written = 1 + n in
     wbind (wwhen (ph_HasAdaptationField (p_Header p)) 0
       (wcount written (wderef (p_AdaptationField p) (writePacketAdaptationField W)))) (\<lambda>n.
     let written = written + n; len = int (length (p_Payload p)) in
     if targetPacketSize - written < len
     then wfail (0, ErrMessage ''writePacket: can't write %d bytes of payload: only %d is available''
       [len, targetPacketSize - written])
     else
     wbind (wwhen (ph_HasPayload (p_Header p)) written
       (wbind (wcount written (wwrite W (Wr (ABytes (p_Payload p))))) (\<lambda>_. wreturn (written + len)))) (\<lambda>written.
     writePadding W (nat (targetPacketSize - written)) written))))"

definition newStuffingAdaptationField :: "int \<Rightarrow> PacketAdaptationField" where
  "newStuffingAdaptationField bytesToStuff =
     (if bytesToStuff = 1 then zeroAdaptationField\<lparr>af_IsOneByteStuffing := True\<rparr>
      else zeroAdaptationField\<lparr>af_StuffingLength := bytesToStuff - 2\<rparr>)"

end
