(* ===== verification/Data.thy ===== *)
theory Data
  imports Psi Pes_Codec Packet
begin

text \<open>
  \<^verbatim>\<open>data.go\<close> and \<^verbatim>\<open>toData\<close> of \<^verbatim>\<open>data_psi.go\<close>: the payload of a unit of
  packets, parsed as tables or as a PES packet by its PID and its first bytes.
\<close>

section \<open>Data\<close>

definition PIDPAT :: uint16 where "PIDPAT = 0x0"
definition PIDCAT :: uint16 where "PIDCAT = 0x1"
definition PIDTSDT :: uint16 where "PIDTSDT = 0x2"
definition PIDNull :: uint16 where "PIDNull = 0x1fff"

record DemuxerData =
  dd_EIT :: "EITData option"
  dd_FirstPacket :: Packet
  dd_NIT :: "NITData option"
  dd_PAT :: "PATData option"
  dd_PES :: "PESData option"
  dd_PID :: uint16
  dd_PMT :: "PMTData option"
  dd_SDT :: "SDTData option"
  dd_TOT :: "TOTData option"

record MuxerData =
  md_PID :: uint16
  md_AdaptationField :: "PacketAdaptationField option"
  md_PES :: PESData

definition newDemuxerData :: "Packet \<Rightarrow> uint16 \<Rightarrow> DemuxerData" where
  "newDemuxerData firstPacket pid = \<lparr>dd_EIT = None, dd_FirstPacket = firstPacket, dd_NIT = None, dd_PAT = None,
     dd_PES = None, dd_PID = pid, dd_PMT = None, dd_SDT = None, dd_TOT = None\<rparr>"

section \<open>The data of tables\<close>

text \<open>What one section adds; \<^const>\<open>None\<close> is a nil dereference.\<close>

definition sectionToData :: "Packet \<Rightarrow> uint16 \<Rightarrow> PSISection \<Rightarrow> DemuxerData list option" where
  "sectionToData firstPacket pid s =
     (case sec_Header s of None \<Rightarrow> None | Some h \<Rightarrow>
      let t = psh_TableID h; d = newDemuxerData firstPacket pid;
          data = Option.bind (sec_Syntax s) syn_Data in
      if t = PSITableIDNITVariant1 \<or> t = PSITableIDNITVariant2 then map_option (\<lambda>x. [d\<lparr>dd_NIT := ssd_NIT x\<rparr>]) data
      else if t = PSITableIDPAT then map_option (\<lambda>x. [d\<lparr>dd_PAT := ssd_PAT x\<rparr>]) data
      else if t = PSITableIDPMT then map_option (\<lambda>x. [d\<lparr>dd_PMT := ssd_PMT x\<rparr>]) data
      else if t = PSITableIDSDTVariant1 \<or> t = PSITableIDSDTVariant2 then map_option (\<lambda>x. [d\<lparr>dd_SDT := ssd_SDT x\<rparr>]) data
      else if t = PSITableIDTOT then map_option (\<lambda>x. [d\<lparr>dd_TOT := ssd_TOT x\<rparr>]) data
      else if t \<ge> PSITableIDEITStart \<and> t \<le> PSITableIDEITEnd then map_option (\<lambda>x. [d\<lparr>dd_EIT := ssd_EIT x\<rparr>]) data
      else Some [])"

primrec sectionsToData :: "Packet \<Rightarrow> uint16 \<Rightarrow> PSISection list \<Rightarrow> DemuxerData list option" where
  "sectionsToData firstPacket pid [] = Some []"
| "sectionsToData firstPacket pid (s # ss) =
     (case (sectionToData firstPacket pid s, sectionsToData firstPacket pid ss) of
       (Some xs, Some ys) \<Rightarrow> Some (xs @ ys) | _ \<Rightarrow> None)"

definition toData :: "PSIData \<Rightarrow> Packet \<Rightarrow> uint16 \<Rightarrow> DemuxerData list option" where
  "toData d firstPacket pid = sectionsToData firstPacket pid (psi_Sections d)"

section \<open>Parsing a unit\<close>

text \<open>The caller's parser: an error, or data and whether to skip the default one.\<close>

type_synonym PacketsParser = "Packet list \<Rightarrow> error + DemuxerData list \<times> bool"

definition isPSIPayload :: "uint16 \<Rightarrow> programMap \<Rightarrow> bool" where
  "isPSIPayload pid pm \<longleftrightarrow> pid = PIDPAT \<or> pm_exists pm pid \<or>
     ((pid \<ge> 0x10 \<and> pid \<le> 0x14) \<or> (pid \<ge> 0x1e \<and> pid \<le> 0x1f))"

definition isPESPayload :: "byte list \<Rightarrow> bool" where
  "isPESPayload i \<longleftrightarrow> \<not> length i < 3 \<and>
     push_bit 16 (ucast (i ! 0)) OR push_bit 8 (ucast (i ! 1)) OR ucast (i ! 2) = (1 :: uint32)"

text \<open>The default parsing of a unit, appending to what the caller's parser returned.\<close>

definition parseUnit ::
    "'i BytesIterator \<Rightarrow> Packet list \<Rightarrow> programMap \<Rightarrow> DemuxerData list \<Rightarrow> (error + DemuxerData list) option" where
  "parseUnit I ps pm ds =
     (let bs = concat (map p_Payload ps) in
      if ps = [] then Some (Inl Panic)
      else
        let p = hd ps; pid = ph_PID (p_Header p) in
        if pid = PIDCAT then Some (Inr ds)
        else if isPSIPayload pid pm then
          map_option (\<lambda>r. case r of
              Inl e \<Rightarrow> Inl (wrapError ''astits: parsing PSI data failed: '' e)
            | Inr psiData \<Rightarrow> (case toData psiData p pid of None \<Rightarrow> Inl Panic | Some ds \<Rightarrow> Inr ds))
          (parseBytes I (parsePSIData I) bs)
        else if isPESPayload bs then
          map_option (\<lambda>r. case r of
              Inl e \<Rightarrow> Inl (wrapError ''astits: parsing PES data failed: '' e)
            | Inr pesData \<Rightarrow> Inr (ds @ [(newDemuxerData p pid)\<lparr>dd_PES := Some pesData\<rparr>]))
          (parseBytes I (parsePESData I) bs)
        else Some (Inr ds))"

definition parseData ::
    "'i BytesIterator \<Rightarrow> Packet list \<Rightarrow> PacketsParser option \<Rightarrow> programMap \<Rightarrow> (error + DemuxerData list) option" where
  "parseData I ps prs pm =
     (case prs of
       None \<Rightarrow> parseUnit I ps pm []
     | Some prs \<Rightarrow> (case prs ps of
           Inl e \<Rightarrow> Some (Inl (wrapError ''astits: custom packets parsing failed: '' e))
         | Inr (ds, done) \<Rightarrow> if done then Some (Inr ds) else parseUnit I ps pm ds))"

end
