(* ===== verification/Adaptation_Codec.thy ===== *)
theory Adaptation_Codec
  imports Packet
begin

text \<open>
  The wire formats of packet headers, adaptation fields and adaptation extensions as bit
  strings: the serialisers emit them and the parsers read them back. The well-formedness
  predicates say which values the formats carry without loss, but for the sign of the splice
  countdown.
\<close>

section \<open>Any iterator of the contract\<close>

context bytes_iterator
begin

lemma sim_parsePacketHeader: "sim I (parsePacketHeader I) (parsePacketHeader refIterator)"
  unfolding parsePacketHeader_def by (intro sim_intros sim_ops)

lemma sim_parseSeamlessSplice: "sim I (parseSeamlessSplice I) (parseSeamlessSplice refIterator)"
  unfolding parseSeamlessSplice_def by (intro sim_intros sim_ops sim_parsePTSOrDTS)

lemma sim_parseAdaptationExtensionField:
  "sim I (parseAdaptationExtensionField I) (parseAdaptationExtensionField refIterator)"
  unfolding parseAdaptationExtensionField_def by (intro sim_intros sim_ops sim_parseSeamlessSplice)

lemma sim_parseAdaptationFieldBody:
  "sim I (parseAdaptationFieldBody I) (parseAdaptationFieldBody refIterator)"
  unfolding parseAdaptationFieldBody_def
  by (intro sim_intros sim_ops sim_parsePCR sim_parseAdaptationExtensionField)

lemma sim_parsePacketAdaptationField:
  "sim I (parsePacketAdaptationField I) (parsePacketAdaptationField refIterator)"
  unfolding parsePacketAdaptationField_def by (intro sim_intros sim_ops sim_parseAdaptationFieldBody)

lemma sim_parsePacket: "sim I (parsePacket I) (parsePacket refIterator)"
  unfolding parsePacket_def parsePacketContents_def
  by (intro sim_intros sim_ops sim_parsePacketHeader sim_parsePacketAdaptationField)

end

section \<open>The header\<close>

definition header_bits :: "PacketHeader \<Rightarrow> bool list" where
  "header_bits h =
     [ph_TransportErrorIndicator h, ph_PayloadUnitStartIndicator h, ph_TransportPriority h] @
     bits_of 13 (ph_PID h) @ bits_of 2 (ph_TransportScramblingControl h) @
     [ph_HasAdaptationField h, ph_HasPayload h] @ bits_of 4 (ph_ContinuityCounter h)"

definition wf_header :: "PacketHeader \<Rightarrow> bool" where
  "wf_header h \<longleftrightarrow> fits 13 (ph_PID h) \<and> fits 2 (ph_TransportScramblingControl h) \<and> fits 4 (ph_ContinuityCounter h)"

lemma length_header_bits [simp]: "length (header_bits h) = 24"
  by (simp add: header_bits_def)


context bits_writer
begin

lemma emits_writePacketHeader: "emits view (writePacketHeader W h) (header_bits h) 3"
proof -
  have "emits view (writePacketHeader W h)
     (concat (map wcmd_bits [Wr (ABool (ph_TransportErrorIndicator h)),
        Wr (ABool (ph_PayloadUnitStartIndicator h)), Wr (ABool (ph_TransportPriority h)),
        WrN (AU16 (ph_PID h)) 13, WrN (AU8 (ph_TransportScramblingControl h)) 2,
        Wr (ABool (ph_HasAdaptationField h)), Wr (ABool (ph_HasPayload h)),
        WrN (AU8 (ph_ContinuityCounter h)) 4]) @ []) mpegTsPacketHeaderSize"
    unfolding writePacketHeader_def by (intro emits_wbind[OF emits_batch] emits_wdone)
  then show ?thesis by (simp add: header_bits_def mpegTsPacketHeaderSize_def del: bits_of_numeral)
qed

end

lemma reads_parsePacketHeader:
  assumes "wf_header h"
  shows "reads (parsePacketHeader refIterator) bs off (bits_to_bytes (header_bits h)) h"
proof (cases h)
  case (fields cc haf hp pusi pid tei prio tsc)
  with assms have "13 \<le> k \<Longrightarrow> \<not> bit pid k" "2 \<le> k \<Longrightarrow> \<not> bit tsc k" "4 \<le> k \<Longrightarrow> \<not> bit cc k" for k
    by (auto simp: wf_header_def dest: fits_bit)
  then show ?thesis
    unfolding parsePacketHeader_def fields
    by (intro reads_fetch_return)
      (simp_all add: header_bits_def word_eq_bits bit_simps)
qed

section \<open>The adaptation extension\<close>

definition ext_bits :: "PacketAdaptationExtensionField \<Rightarrow> bool list" where
  "ext_bits e =
     bits_of 8 (calcPacketAdaptationFieldExtensionLength e) @
     [ae_HasLegalTimeWindow e, ae_HasPiecewiseRate e, ae_HasSeamlessSplice e, True, True, True, True, True] @
     (if ae_HasLegalTimeWindow e then ae_LegalTimeWindowIsValid e # bits_of 15 (ae_LegalTimeWindowOffset e) else []) @
     (if ae_HasPiecewiseRate e then [True, True] @ bits_of 22 (ae_PiecewiseRate e) else []) @
     (if ae_HasSeamlessSplice e then pts_bits (ae_SpliceType e) (the (ae_DTSNextAccessUnit e)) else [])"

definition wf_ext :: "PacketAdaptationExtensionField \<Rightarrow> bool" where
  "wf_ext e \<longleftrightarrow>
     ae_Length e = uint (calcPacketAdaptationFieldExtensionLength e) \<and>
     (if ae_HasLegalTimeWindow e then fits 15 (ae_LegalTimeWindowOffset e)
      else \<not> ae_LegalTimeWindowIsValid e \<and> ae_LegalTimeWindowOffset e = 0) \<and>
     (if ae_HasPiecewiseRate e then fits 22 (ae_PiecewiseRate e) else ae_PiecewiseRate e = 0) \<and>
     (if ae_HasSeamlessSplice e
      then fits 4 (ae_SpliceType e) \<and> (\<exists>cr. ae_DTSNextAccessUnit e = Some cr \<and> fits_pts cr)
      else ae_SpliceType e = 0 \<and> ae_DTSNextAccessUnit e = None)"

definition ext_size :: "PacketAdaptationExtensionField \<Rightarrow> int" where
  "ext_size e = 2 + (if ae_HasLegalTimeWindow e then 2 else 0) + (if ae_HasPiecewiseRate e then 3 else 0)
     + (if ae_HasSeamlessSplice e then 5 else 0)"

lemma length_ext_bits: "int (length (ext_bits e)) = 8 * ext_size e"
  by (simp add: ext_bits_def ext_size_def)

lemma uint_calc_ext: "uint (calcPacketAdaptationFieldExtensionLength e) = ext_size e - 1"
  by (simp add: calcPacketAdaptationFieldExtensionLength_def ext_size_def)

context bits_writer
begin

lemma emits_writeExtension:
  assumes "wf_ext e"
  shows "emits view (writePacketAdaptationFieldExtension W e) (ext_bits e) (ext_size e)"
proof -
  let ?cmds = "[Wr (AU8 (calcPacketAdaptationFieldExtensionLength e)),
         Wr (ABool (ae_HasLegalTimeWindow e)), Wr (ABool (ae_HasPiecewiseRate e)),
         Wr (ABool (ae_HasSeamlessSplice e)), WrN (AU8 0xff) 5] @
        (if ae_HasLegalTimeWindow e
         then [Wr (ABool (ae_LegalTimeWindowIsValid e)), WrN (AU16 (ae_LegalTimeWindowOffset e)) 15] else []) @
        (if ae_HasPiecewiseRate e then [WrN (AU8 0xff) 2, WrN (AU32 (ae_PiecewiseRate e)) 22] else [])"
  let ?dts = "the (ae_DTSNextAccessUnit e)"
  have dts: "ae_HasSeamlessSplice e \<Longrightarrow>
      emits view (wderef (ae_DTSNextAccessUnit e) (writePTSOrDTS W (ae_SpliceType e))) (pts_bits (ae_SpliceType e) ?dts) 5"
    using assms by (auto simp: wf_ext_def wderef_def emits_writePTSOrDTS split: if_splits)
  have "emits view (writePacketAdaptationFieldExtension W e)
      (concat (map wcmd_bits ?cmds) @
        ((if ae_HasSeamlessSplice e then pts_bits (ae_SpliceType e) ?dts else []) @ []))
      (2 + (if ae_HasLegalTimeWindow e then 2 else 0) + (if ae_HasPiecewiseRate e then 3 else 0)
        + (if ae_HasSeamlessSplice e then 5 else 0))"
    unfolding writePacketAdaptationFieldExtension_def Let_def
    by (intro emits_wbind[OF emits_batch] emits_wbind[OF emits_wwhen[OF dts]] emits_wdone)
  then show ?thesis
    by (rule emits_conv) (simp_all add: ext_bits_def ext_size_def bits_of_ones del: bits_of_numeral)
qed

end

lemma pts_bytes_Cons:
  "bits_to_bytes (pts_bits t cr) =
    byte8 (bit t 3) (bit t 2) (bit t (Suc 0)) (bit t 0) (bit (cr_Base cr) 32) (bit (cr_Base cr) 31) (bit (cr_Base cr) 30) True #
    tl (bits_to_bytes (pts_bits t cr))"
  by (simp add: pts_bits_def stamp_bits_def bit_simps)

lemma reads_parseSeamlessSplice:
  assumes "fits_pts cr" "fits 4 t"
  shows "reads (parseSeamlessSplice refIterator) bs off (bits_to_bytes (pts_bits t cr)) (t, Some cr)"
proof -
  obtain b xs where b: "bits_to_bytes (pts_bits t cr) = b # xs"
    and nibble: "b = byte8 (bit t 3) (bit t 2) (bit t (Suc 0)) (bit t 0) (bit (cr_Base cr) 32) (bit (cr_Base cr) 31) (bit (cr_Base cr) 30) True"
    using pts_bytes_Cons by blast
  have type: "drop_bit 4 (b AND 0xf0) = t"
    unfolding nibble using fits_bit[OF assms(2)] by (simp add: word_eq_bits bit_simps)
  show ?thesis
    unfolding reads_def
  proof
    assume at: "stands bs off (bits_to_bytes (pts_bits t cr))"
    with b stands_append[of bs off "[b]" xs] have "stands bs off [b]" by simp
    with reads_fetchByte[of bs off b] have "fetchByte refIterator (bs, off) = Some (Inr (b, bs, off + 1))"
      by (simp add: reads_def)
    moreover have "parsePTSOrDTS refIterator (bs, off) = Some (Inr (cr, bs, off + 5))"
      using reads_parsePTSOrDTS[OF assms(1), of bs off t] at by (simp add: reads_def)
    ultimately show "parseSeamlessSplice refIterator (bs, off) =
        Some (Inr ((t, Some cr), bs, off + int (length (bits_to_bytes (pts_bits t cr)))))"
      using type by (simp add: parseSeamlessSplice_def pbind_def skip_def pmove_def pwrap_def preturn_def)
  qed
qed

lemma reads_parseExtension:
  assumes "wf_ext e"
  shows "reads (parseAdaptationExtensionField refIterator) bs off (bits_to_bytes (ext_bits e)) e"
proof (cases e)
  case (fields dts hltw hrate hsplice valid ltw len rate type)
  let ?flags = "byte8 hltw hrate hsplice True True True True True"
  let ?ltw = "bits_to_bytes (valid # bits_of 15 ltw)"
  let ?rate = "bits_to_bytes ([True, True] @ bits_of 22 rate)"
  let ?splice = "bits_to_bytes (pts_bits type (the dts))"
  have bytes: "bits_to_bytes (ext_bits e) =
      [calcPacketAdaptationFieldExtensionLength e] @ [?flags] @ (if hltw then ?ltw else []) @
      (if hrate then ?rate else []) @ (if hsplice then ?splice else []) @ []"
    by (simp add: ext_bits_def fields bits_to_bytes_aligned byte8_bits)
  have pos: "0 < uint (calcPacketAdaptationFieldExtensionLength e)"
    by (simp add: uint_calc_ext ext_size_def)
  have ltw: "hltw \<Longrightarrow> reads (pbind (fetchBytesNoCopy refIterator 2) (\<lambda>bs.
        preturn (bit (bs ! 0) 7, push_bit 8 (ucast (bs ! 0 AND 0x7f)) OR ucast (bs ! 1)))) bs off ?ltw (valid, ltw)" for off
    using assms fits_bit[of 15 ltw]
    by (intro reads_fetch_return) (simp_all add: wf_ext_def fields word_eq_bits bit_simps)
  have rate: "hrate \<Longrightarrow> reads (pbind (fetchBytesNoCopy refIterator 3) (\<lambda>bs.
        preturn (push_bit 16 (ucast (bs ! 0 AND 0x3f)) OR push_bit 8 (ucast (bs ! 1)) OR ucast (bs ! 2)))) bs off ?rate rate" for off
    using assms fits_bit[of 22 rate]
    by (intro reads_fetch_return) (simp_all add: wf_ext_def fields word_eq_bits bit_simps)
  have splice: "hsplice \<Longrightarrow> reads (parseSeamlessSplice refIterator) bs off ?splice (type, dts)" for off
    using assms reads_parseSeamlessSplice[of "the dts" type bs off] by (auto simp: wf_ext_def fields)
  show ?thesis
    unfolding parseAdaptationExtensionField_def Let_def bytes
    apply (rule reads_pbind[OF reads_fetchByte])
    apply (subst if_not_P)
    subgoal using pos by simp
    apply (rule reads_pbind[OF reads_fetchByte])
    apply (simp only: flag_bit bit_byte8_simps)
    apply (rule reads_pbind[OF reads_pwhen[OF ltw]], assumption)
    apply (rule reads_pbind[OF reads_pwhen[OF rate]], assumption)
    apply (rule reads_pbind[OF reads_pwhen[OF splice]], assumption)
    apply (rule reads_conv[OF reads_preturn refl])
    using assms by (auto simp: fields wf_ext_def split: if_splits)
qed

section \<open>The adaptation field\<close>

definition private_bits :: "byte list \<Rightarrow> bool list" where
  "private_bits d = bits_of 8 (word_of_nat (length d) :: byte) @ bytes_to_bits d"

definition af_size :: "PacketAdaptationField \<Rightarrow> int" where
  "af_size af = 2 + (if af_HasPCR af then 6 else 0) + (if af_HasOPCR af then 6 else 0)
     + (if af_HasSplicingCountdown af then 1 else 0)
     + (if af_HasTransportPrivateData af then 1 + int (length (af_TransportPrivateData af)) else 0)
     + (if af_HasAdaptationExtensionField af then ext_size (the (af_AdaptationExtensionField af)) else 0)
     + af_StuffingLength af"

text \<open>The fields of an adaptation field, up to its stuffing.\<close>

definition af_field_bits :: "PacketAdaptationField \<Rightarrow> bool list" where
  "af_field_bits af =
     [af_DiscontinuityIndicator af, af_RandomAccessIndicator af, af_ElementaryStreamPriorityIndicator af,
      af_HasPCR af, af_HasOPCR af, af_HasSplicingCountdown af, af_HasTransportPrivateData af,
      af_HasAdaptationExtensionField af] @
     (if af_HasPCR af then pcr_bits (the (af_PCR af)) else []) @
     (if af_HasOPCR af then pcr_bits (the (af_OPCR af)) else []) @
     (if af_HasSplicingCountdown af then bits_of 8 (word_of_int (af_SpliceCountdown af) :: byte) else []) @
     (if af_HasTransportPrivateData af then private_bits (af_TransportPrivateData af) else []) @
     (if af_HasAdaptationExtensionField af then ext_bits (the (af_AdaptationExtensionField af)) else [])"

definition af_bits :: "PacketAdaptationField \<Rightarrow> bool list" where
  "af_bits af = bits_of 8 (word_of_int (af_size af - 1) :: byte) @ af_field_bits af @
     bytes_to_bits (replicate (nat (af_StuffingLength af)) 0xff)"

definition wf_af :: "PacketAdaptationField \<Rightarrow> bool" where
  "wf_af af \<longleftrightarrow>
     \<not> af_IsOneByteStuffing af \<and>
     (if af_HasPCR af then \<exists>cr. af_PCR af = Some cr \<and> fits_pcr cr else af_PCR af = None) \<and>
     (if af_HasOPCR af then \<exists>cr. af_OPCR af = Some cr \<and> fits_pcr cr else af_OPCR af = None) \<and>
     (\<not> af_HasSplicingCountdown af \<longrightarrow> af_SpliceCountdown af = 0) \<and>
     af_TransportPrivateDataLength af = int (length (af_TransportPrivateData af)) \<and>
     (\<not> af_HasTransportPrivateData af \<longrightarrow> af_TransportPrivateData af = []) \<and>
     (if af_HasAdaptationExtensionField af then \<exists>e. af_AdaptationExtensionField af = Some e \<and> wf_ext e
      else af_AdaptationExtensionField af = None) \<and>
     0 \<le> af_StuffingLength af \<and> af_Length af = af_size af - 1 \<and> af_Length af < 256"

text \<open>
  A splice countdown is a signed number, written as one byte; the parser converts the byte without its
  sign. The predicate above admits every countdown, and this is what comes back of it.
\<close>

definition read_countdown :: "PacketAdaptationField \<Rightarrow> PacketAdaptationField" where
  "read_countdown af = af\<lparr>af_SpliceCountdown := af_SpliceCountdown af mod 256\<rparr>"

lemma read_countdown_simps [simp]:
  "af_Length (read_countdown af) = af_Length af" "af_DiscontinuityIndicator (read_countdown af) = af_DiscontinuityIndicator af"
  "af_SpliceCountdown (read_countdown af) = af_SpliceCountdown af mod 256"
  by (simp_all add: read_countdown_def)

lemma ext_size_pos: "2 \<le> ext_size e"
  by (simp add: ext_size_def)

lemma ext_size_nonneg [simp]: "0 \<le> ext_size e"
  using ext_size_pos[of e] by simp

lemma length_private_bits [simp]: "length (private_bits d) = 8 + 8 * length d"
  by (simp add: private_bits_def)

lemma length_ext_bits_nat [simp]: "length (ext_bits e) = 8 * nat (ext_size e)"
  using length_ext_bits[of e] ext_size_pos[of e] by simp

lemma length_af_field_bits:
  "int (length (af_field_bits af)) = 8 * (af_size af - 1 - af_StuffingLength af)"
  by (simp add: af_field_bits_def af_size_def)

lemma af_field_bits_aligned: "length (af_field_bits af) mod 8 = 0"
  using length_af_field_bits[of af] by presburger

lemma length_af_bits: "wf_af af \<Longrightarrow> int (length (af_bits af)) = 8 * af_size af"
  using length_af_field_bits[of af] by (simp add: af_bits_def wf_af_def)

lemma af_bits_aligned: "wf_af af \<Longrightarrow> length (af_bits af) mod 8 = 0"
  using length_af_bits[of af] by presburger

lemma af_size_bounds: "wf_af af \<Longrightarrow> 2 \<le> af_size af \<and> af_size af \<le> 256"
  using ext_size_pos[of "the (af_AdaptationExtensionField af)"] by (simp add: wf_af_def af_size_def)

lemma wf_af_private: "wf_af af \<Longrightarrow> length (af_TransportPrivateData af) < 256"
  using ext_size_pos[of "the (af_AdaptationExtensionField af)"]
  by (simp add: wf_af_def af_size_def split: if_splits)

lemma calc_af:
  assumes "wf_af af"
  shows "calcPacketAdaptationFieldLength af = Some (word_of_int (af_size af - 1))"
proof -
  have e: "1 + calcPacketAdaptationFieldExtensionLength e = word_of_int (ext_size e)" for e
    by (simp add: calcPacketAdaptationFieldExtensionLength_def ext_size_def)
  have n: "(word_of_nat n :: byte) = word_of_int (int n)" for n by simp
  from assms show ?thesis
    by (auto simp: calcPacketAdaptationFieldLength_def wf_af_def af_size_def e algebra_simps split: if_splits)
qed

context bits_writer
begin

lemma emits_writePCR_opt:
  "(if c then \<exists>cr. p = Some cr \<and> fits_pcr cr else p = None) \<Longrightarrow>
    emits view (wwhen c 0 (wderef p (writePCR W))) (if c then pcr_bits (the p) else []) (if c then 6 else 0)"
  by (auto simp: wwhen_def wderef_def emits_writePCR emits_wreturn)

lemma emits_writeExtension_opt:
  "(if c then \<exists>e. p = Some e \<and> wf_ext e else p = None) \<Longrightarrow>
    emits view (wwhen c 0 (wderef p (writePacketAdaptationFieldExtension W)))
      (if c then ext_bits (the p) else []) (if c then ext_size (the p) else 0)"
  by (auto simp: wwhen_def wderef_def emits_writeExtension emits_wreturn)

lemma emits_writePacketAdaptationField:
  assumes "wf_af af"
  shows "emits view (writePacketAdaptationField W af) (af_bits af) (af_size af)"
proof -
  let ?head = "[Wr (AU8 (word_of_int (af_size af - 1))), Wr (ABool (af_DiscontinuityIndicator af)),
         Wr (ABool (af_RandomAccessIndicator af)), Wr (ABool (af_ElementaryStreamPriorityIndicator af)),
         Wr (ABool (af_HasPCR af)), Wr (ABool (af_HasOPCR af)), Wr (ABool (af_HasSplicingCountdown af)),
         Wr (ABool (af_HasTransportPrivateData af)), Wr (ABool (af_HasAdaptationExtensionField af))]"
  let ?mid = "(if af_HasSplicingCountdown af then [Wr (AU8 (word_of_int (af_SpliceCountdown af)))] else []) @
         (if af_HasTransportPrivateData af
          then Wr (AU8 (word_of_int (af_TransportPrivateDataLength af))) #
            (if af_TransportPrivateDataLength af > 0 then [Wr (ABytes (af_TransportPrivateData af))] else [])
          else [])"
  let ?stuff = "replicate (nat (af_StuffingLength af)) (Wr (AU8 0xff))"
  note wf = assms[unfolded wf_af_def]
  note once = wf[THEN conjunct1] and pcr = wf[THEN conjunct2, THEN conjunct1]
    and opcr = wf[THEN conjunct2, THEN conjunct2, THEN conjunct1]
  from wf have ext: "if af_HasAdaptationExtensionField af
      then \<exists>e. af_AdaptationExtensionField af = Some e \<and> wf_ext e else af_AdaptationExtensionField af = None"
    by blast
  have "emits view (writePacketAdaptationField W af)
     (concat (map wcmd_bits ?head) @
      (if af_HasPCR af then pcr_bits (the (af_PCR af)) else []) @
      (if af_HasOPCR af then pcr_bits (the (af_OPCR af)) else []) @
      concat (map wcmd_bits ?mid) @
      (if af_HasAdaptationExtensionField af then ext_bits (the (af_AdaptationExtensionField af)) else []) @
      concat (map wcmd_bits ?stuff) @ [])
     (2 + (if af_HasPCR af then 6 else 0) + (if af_HasOPCR af then 6 else 0)
        + (if af_HasSplicingCountdown af then 1 else 0)
        + (if af_HasTransportPrivateData af then 1 + int (length (af_TransportPrivateData af)) else 0)
        + (if af_HasAdaptationExtensionField af then ext_size (the (af_AdaptationExtensionField af)) else 0)
        + int (nat (af_StuffingLength af)))"
    unfolding writePacketAdaptationField_def calc_af[OF assms] if_not_P[OF once]
    by (intro emits_wderef emits_wbind[OF emits_batch] emits_wbind[OF emits_writePCR_opt[OF pcr]]
        emits_wbind[OF emits_writePCR_opt[OF opcr]] emits_wbind[OF emits_writeExtension_opt[OF ext]] emits_wdone)
  moreover have "concat (map wcmd_bits ?stuff) = bytes_to_bits (replicate (nat (af_StuffingLength af)) 0xff)"
    by (simp add: bytes_to_bits_def del: bits_of_numeral)
  moreover have "concat (map wcmd_bits ?mid) =
      (if af_HasSplicingCountdown af then bits_of 8 (word_of_int (af_SpliceCountdown af) :: byte) else []) @
      (if af_HasTransportPrivateData af then private_bits (af_TransportPrivateData af) else [])"
    using wf by (auto simp: private_bits_def simp del: bits_of_numeral)
  ultimately show ?thesis
    using wf by (elim emits_conv) (simp_all add: af_bits_def af_field_bits_def af_size_def del: bits_of_numeral)
qed

end

lemma reads_parsePCR_opt:
  "(if c then \<exists>cr. p = Some cr \<and> fits_pcr cr else p = None) \<Longrightarrow>
    reads (pwhen c None (psome (pwrap msg (parsePCR refIterator)))) bs off
      (if c then bits_to_bytes (pcr_bits (the p)) else []) p"
  by (auto simp: pwhen_def intro!: reads_preturn reads_psome reads_pwrap reads_parsePCR)

lemma reads_parseExtension_opt:
  "(if c then \<exists>e. p = Some e \<and> wf_ext e else p = None) \<Longrightarrow>
    reads (pwhen c None (psome (parseAdaptationExtensionField refIterator))) bs off
      (if c then bits_to_bytes (ext_bits (the p)) else []) p"
  by (auto simp: pwhen_def intro!: reads_preturn reads_psome reads_parseExtension)

lemma reads_countdown:
  "(\<not> c \<longrightarrow> n = 0) \<Longrightarrow>
    reads (pwhen c 0 (pbind (fetchByte refIterator) (\<lambda>c. preturn (uint c)))) bs off
      (if c then [word_of_int n] else []) (n mod 256)"
  by (auto simp: pwhen_def fetchByte_def pwrap_def plift_def nth_append reads_def preturn_def pbind_def stands_def unsigned_of_int take_bit_eq_mod)

lemma reads_private_data:
  assumes "length d < 256" "\<not> c \<Longrightarrow> d = []"
  shows "reads (pwhen c (0, [])
       (pbind (fetchByte refIterator) (\<lambda>l.
        pbind (pwhen (uint l > 0) [] (fetchBytes refIterator (uint l))) (\<lambda>d.
        preturn (uint l, d))))) bs off
      (if c then word_of_nat (length d) # d else []) (int (length d), d)"
proof -
  let ?l = "word_of_nat (length d) :: byte"
  have l: "uint ?l = int (length d)" using assms(1) word_of_int_inverse[OF refl, of "int (length d)", where 'a = 8] by simp
  have "reads (pbind (fetchByte refIterator) (\<lambda>l.
        pbind (pwhen (uint l > 0) [] (fetchBytes refIterator (uint l))) (\<lambda>d. preturn (uint l, d)))) bs off
      ([?l] @ (if uint ?l > 0 then d else []) @ []) (uint ?l, if uint ?l > 0 then d else [])"
    by (intro reads_pbind[OF reads_fetchByte] reads_pbind[OF reads_pwhen[OF reads_fetchBytes]] reads_preturn) (simp add: l)
  then show ?thesis using assms(2) by (auto simp: pwhen_def reads_preturn l elim!: reads_conv)
qed

lemma reads_parseAdaptationFieldBody:
  assumes "wf_af af"
  shows "reads (parseAdaptationFieldBody refIterator) bs off (bits_to_bytes (af_field_bits af))
    ((read_countdown af)\<lparr>af_Length := 0, af_StuffingLength := 0\<rparr>)"
proof (cases af)
  case (fields ext disc prio hext hopcr hpcr hpriv hcount len one stuff opcr pcr rai count plen d)
  note wf = assms[unfolded wf_af_def fields PacketAdaptationField.simps]
  from wf_af_private[OF assms] have "length d < 256" by (simp add: fields)
  have bytes: "bits_to_bytes (af_field_bits af) = [byte8 disc rai prio hpcr hopcr hcount hpriv hext] @
      (if hpcr then bits_to_bytes (pcr_bits (the pcr)) else []) @
      (if hopcr then bits_to_bytes (pcr_bits (the opcr)) else []) @
      (if hcount then [word_of_int count] else []) @
      (if hpriv then word_of_nat (length d) # d else []) @
      (if hext then bits_to_bytes (ext_bits (the ext)) else []) @ []"
    by (simp add: af_field_bits_def private_bits_def fields bits_to_bytes_aligned byte8_bits)
  show ?thesis
    unfolding parseAdaptationFieldBody_def Let_def bytes
    apply (rule reads_pbind[OF reads_fetchByte])
    apply (simp only: flag_bit bit_byte8_simps One_nat_def)
    apply (rule reads_pbind[OF reads_parsePCR_opt], use wf in blast)
    apply (rule reads_pbind[OF reads_parsePCR_opt], use wf in blast)
    apply (rule reads_pbind[OF reads_countdown], use wf in blast)
    apply (rule reads_pbind[OF reads_private_data], fact, use wf in blast)
    apply (rule reads_pbind[OF reads_parseExtension_opt], use wf in blast)
    apply (rule reads_conv[OF reads_preturn refl])
    using wf by (simp add: fields read_countdown_def)
qed

lemma reads_parsePacketAdaptationField:
  assumes "wf_af af"
  shows "reads (parsePacketAdaptationField refIterator) bs off
    (word_of_int (af_Length af) # bits_to_bytes (af_field_bits af)) (read_countdown af)"
proof -
  let ?xs = "bits_to_bytes (af_field_bits af)"
  have len: "uint (word_of_int (af_Length af) :: byte) = af_Length af"
    using assms af_size_bounds[OF assms] by (simp add: wf_af_def word_of_int_inverse)
  have pos: "af_Length af > 0" using assms af_size_bounds[OF assms] by (simp add: wf_af_def)
  have size: "int (length ?xs) = af_Length af - af_StuffingLength af"
    using assms length_af_field_bits[of af] by (simp add: wf_af_def zdiv_int)
  have "reads (parsePacketAdaptationField refIterator) bs off ([word_of_int (af_Length af)] @ [] @ ?xs @ [] @ []) (read_countdown af)"
    unfolding parsePacketAdaptationField_def Let_def
    apply (rule reads_pbind[OF reads_fetchByte])
    apply (rule reads_pbind[OF reads_offset])
    apply (rule reads_pbind)
    apply (simp only: len pos pwhen_def if_True)
    apply (rule reads_parseAdaptationFieldBody[OF assms])
    apply (rule reads_pbind[OF reads_offset])
    apply (rule reads_conv[OF reads_preturn refl])
    using size by (simp add: len read_countdown_def)
  then show ?thesis by simp
qed

end
