(* ===== verification/Packet_Codec.thy ===== *)
theory Packet_Codec
  imports Adaptation_Codec
begin

text \<open>
  The wire format of whole transport packets: what \<^verbatim>\<open>writePacket\<close> emits, bit by
  bit, that \<^verbatim>\<open>parsePacket\<close> reads it back, and that it returns on every input.
\<close>

section \<open>The packet\<close>

text \<open>The bytes of a packet before its payload.\<close>

definition packet_head_size :: "Packet \<Rightarrow> int" where
  "packet_head_size p = 4 + (if ph_HasAdaptationField (p_Header p) then af_size (the (p_AdaptationField p)) else 0)"

definition packet_size :: "Packet \<Rightarrow> int" where
  "packet_size p = packet_head_size p + int (length (p_Payload p))"

definition packet_bits :: "Packet \<Rightarrow> int \<Rightarrow> bool list" where
  "packet_bits p target =
     bits_of 8 syncByte @ header_bits (p_Header p) @
     (if ph_HasAdaptationField (p_Header p) then af_bits (the (p_AdaptationField p)) else []) @
     bytes_to_bits (p_Payload p @ replicate (nat (target - packet_size p)) 0xff)"

definition wf_packet :: "Packet \<Rightarrow> bool" where
  "wf_packet p \<longleftrightarrow> wf_header (p_Header p) \<and>
     (if ph_HasAdaptationField (p_Header p) then \<exists>af. p_AdaptationField p = Some af \<and> wf_af af
      else p_AdaptationField p = None) \<and>
     (\<not> ph_HasPayload (p_Header p) \<longrightarrow> p_Payload p = [])"

lemma length_packet_bits:
  assumes "wf_packet p" "packet_size p \<le> target"
  shows "int (length (packet_bits p target)) = 8 * target"
  using assms
  by (auto simp: packet_bits_def packet_size_def packet_head_size_def wf_packet_def length_af_bits split: if_splits)

context bits_writer
begin

lemma emits_writePadding:
  "emits view (writePadding W n written) (bytes_to_bits (replicate n 0xff)) (written + int n)"
proof (induction n arbitrary: written)
  case 0
  then show ?case by (simp add: emits_wreturn)
next
  case (Suc n)
  have "emits view (writePadding W (Suc n) written)
      (wcmd_bits (Wr (AU8 0xff)) @ bytes_to_bits (replicate n 0xff)) (written + 1 + int n)"
    unfolding writePadding.simps by (intro emits_wbind[OF emits_wcount[OF emits_wwrite]] Suc)
  then show ?case by (rule emits_conv) simp_all
qed

lemma emits_writeField_opt:
  "(if c then \<exists>af. p = Some af \<and> wf_af af else p = None) \<Longrightarrow>
    emits view (wwhen c 0 (wcount n (wderef p (writePacketAdaptationField W))))
      (if c then af_bits (the p) else []) (if c then af_size (the p) else 0)"
  by (auto simp: wwhen_def wderef_def emits_wreturn intro!: emits_wcount emits_writePacketAdaptationField)

lemma emits_writePayload:
  "(\<not> c \<longrightarrow> d = []) \<Longrightarrow>
    emits view (wwhen c n (wbind (wcount n (wwrite W (Wr (ABytes d)))) (\<lambda>_. wreturn (n + int (length d)))))
      (bytes_to_bits d) (n + int (length d))"
  using emits_wbind[OF emits_wcount[OF emits_wwrite[of "Wr (ABytes d)"]], of "\<lambda>_. wreturn (n + int (length d))" "[]" _ n]
  by (auto simp: wwhen_def emits_wreturn)

lemma emits_writePacket_parts:
  assumes field: "\<And>k :: int. emits view (wwhen (ph_HasAdaptationField (p_Header p)) 0
      (wcount k (wderef (p_AdaptationField p) (writePacketAdaptationField W)))) fs n"
    and payload: "\<not> ph_HasPayload (p_Header p) \<longrightarrow> p_Payload p = []" and fits: "4 + n + int (length (p_Payload p)) \<le> target"
  shows "emits view (writePacket W p target) (bits_of 8 syncByte @ header_bits (p_Header p) @ fs @
    bytes_to_bits (p_Payload p @ replicate (nat (target - (4 + n + int (length (p_Payload p))))) 0xff)) target"
proof -
  let ?len = "int (length (p_Payload p))"
  have fits': "\<not> target - (1 + 3 + n) < ?len" using fits by simp
  have "emits view (writePacket W p target)
     (wcmd_bits (Wr (AU8 syncByte)) @ header_bits (p_Header p) @ fs @ bytes_to_bits (p_Payload p) @
      bytes_to_bits (replicate (nat (target - (1 + 3 + n + ?len))) 0xff))
     (1 + 3 + n + ?len + int (nat (target - (1 + 3 + n + ?len))))"
    unfolding writePacket_def Let_def
    apply (rule emits_wbind[OF emits_wcount[OF emits_wwrite]])
    apply (rule emits_wbind[OF emits_wcount[OF emits_writePacketHeader]])
    apply (rule emits_wbind[OF field])
    apply (simp only: fits' if_False)
    apply (rule emits_wbind[OF emits_writePayload[OF payload]])
    by (rule emits_writePadding)
  then show ?thesis using fits by (elim emits_conv) (simp_all del: bits_of_numeral)
qed

lemma emits_writePacket:
  assumes "wf_packet p" "packet_size p \<le> target"
  shows "emits view (writePacket W p target) (packet_bits p target) target"
proof -
  note wf = assms(1)[unfolded wf_packet_def]
  have field: "emits view (wwhen (ph_HasAdaptationField (p_Header p)) 0
      (wcount k (wderef (p_AdaptationField p) (writePacketAdaptationField W))))
      (if ph_HasAdaptationField (p_Header p) then af_bits (the (p_AdaptationField p)) else [])
      (if ph_HasAdaptationField (p_Header p) then af_size (the (p_AdaptationField p)) else 0)" for k
    using wf by (intro emits_writeField_opt) blast
  have "emits view (writePacket W p target) (bits_of 8 syncByte @ header_bits (p_Header p) @
      (if ph_HasAdaptationField (p_Header p) then af_bits (the (p_AdaptationField p)) else []) @
      bytes_to_bits (p_Payload p @ replicate (nat (target - (4 + (if ph_HasAdaptationField (p_Header p)
        then af_size (the (p_AdaptationField p)) else 0) + int (length (p_Payload p))))) 0xff)) target"
    by (rule emits_writePacket_parts[OF field]) (use wf assms(2) in \<open>simp_all add: packet_size_def packet_head_size_def\<close>)
  then show ?thesis by (simp add: packet_bits_def packet_size_def packet_head_size_def del: bits_of_numeral)
qed

text \<open>A payload that does not fit is refused; the count returned is 0, though the header went out.\<close>

lemma writePacket_too_large:
  assumes "wf_packet p" "target < packet_size p"
  shows "emits_fail view (writePacket W p target)
    (bits_of 8 syncByte @ header_bits (p_Header p) @
       (if ph_HasAdaptationField (p_Header p) then af_bits (the (p_AdaptationField p)) else []))
    (0, ErrMessage ''writePacket: can't write %d bytes of payload: only %d is available''
        [int (length (p_Payload p)), target - packet_head_size p])"
proof -
  let ?h = "p_Header p" and ?len = "int (length (p_Payload p))"
  note wf = assms(1)[unfolded wf_packet_def]
  have big: "target - packet_head_size p < ?len" using assms(2) by (simp add: packet_size_def)
  have head: "1 + 3 + (if ph_HasAdaptationField ?h then af_size (the (p_AdaptationField p)) else 0) = packet_head_size p"
    by (simp add: packet_head_size_def)
  have "emits_fail view (writePacket W p target)
     (wcmd_bits (Wr (AU8 syncByte)) @ header_bits ?h @
      (if ph_HasAdaptationField ?h then af_bits (the (p_AdaptationField p)) else []) @ [])
     (0, ErrMessage ''writePacket: can't write %d bytes of payload: only %d is available''
        [?len, target - packet_head_size p])"
    unfolding writePacket_def Let_def
    apply (rule emits_fail_wbind[OF emits_wcount[OF emits_wwrite]])
    apply (rule emits_fail_wbind[OF emits_wcount[OF emits_writePacketHeader]])
    apply (rule emits_fail_wbind[OF emits_writeField_opt], use wf in blast)
    apply (simp only: head big if_True)
    by (rule emits_fail_wfail)
  then show ?thesis by simp
qed

end

section \<open>Reading a packet back\<close>

text \<open>The bytes between the header and the payload.\<close>

definition field_bytes :: "Packet \<Rightarrow> byte list" where
  "field_bytes p = (if ph_HasAdaptationField (p_Header p) then bits_to_bytes (af_bits (the (p_AdaptationField p))) else [])"

lemma af_bytes:
  "wf_af af \<Longrightarrow> bits_to_bytes (af_bits af) = word_of_int (af_Length af) #
    bits_to_bytes (af_field_bits af) @ replicate (nat (af_StuffingLength af)) 0xff"
  using af_field_bits_aligned[of af]
  by (simp add: af_bits_def wf_af_def bits_to_bytes_aligned byte8_bits)

lemma length_field_bytes: "wf_packet p \<Longrightarrow> int (length (field_bytes p)) = packet_head_size p - 4"
  by (auto simp: field_bytes_def packet_head_size_def wf_packet_def zdiv_int length_af_bits split: if_splits)

lemma packet_bytes:
  assumes "wf_packet p"
  shows "bits_to_bytes (packet_bits p target) = [syncByte] @ bits_to_bytes (header_bits (p_Header p)) @
    field_bytes p @ p_Payload p @ replicate (nat (target - packet_size p)) 0xff"
proof -
  have "length (if ph_HasAdaptationField (p_Header p) then af_bits (the (p_AdaptationField p)) else []) mod 8 = 0"
    using assms by (auto simp: wf_packet_def af_bits_aligned)
  then show ?thesis
    by (simp add: packet_bits_def field_bytes_def bits_to_bytes_aligned byte8_bits)
qed

lemma reads_field_opt:
  assumes "if c then \<exists>af. p = Some af \<and> wf_af af else p = None"
    and "stands bs off (if c then bits_to_bytes (af_bits (the p)) else [])"
  shows "\<exists>off'. pwhen c None (psome (pwrap msg (parsePacketAdaptationField refIterator))) (bs, off) =
    Some (Inr (map_option read_countdown p, bs, off'))"
proof (cases c)
  case True
  with assms obtain af where af: "p = Some af" "wf_af af" by auto
  with assms True stands_append[of bs off "word_of_int (af_Length af) # bits_to_bytes (af_field_bits af)"]
  have "stands bs off (word_of_int (af_Length af) # bits_to_bytes (af_field_bits af))" by (simp add: af_bytes)
  with reads_parsePacketAdaptationField[OF af(2), of bs off] af True show ?thesis
    by (simp add: reads_def pwhen_def psome_def pbind_def pwrap_def preturn_def)
next
  case False
  with assms(1) show ?thesis by (simp add: pwhen_def preturn_def)
qed

lemma payloadOffset_wf:
  "wf_packet p \<Longrightarrow> payloadOffset 1 (p_Header p) (map_option read_countdown (p_AdaptationField p)) = Some (packet_head_size p)"
  by (auto simp: payloadOffset_def packet_head_size_def wf_packet_def wf_af_def split: if_splits)

lemma parsePacket_sync:
  assumes "bs ! 0 = syncByte" "187 \<le> length bs"
  shows "parsePacket refIterator (bs, 0) =
    parsePacketContents refIterator (int (length bs) - 187) (bs, int (length bs) - 187)"
proof -
  have "0 < length bs" using assms(2) by linarith
  with assms show ?thesis
    by (simp add: parsePacket_def pbind_def pwrap_def plift_def pget_def seek_def pmove_def offset_def
        MpegTsPacketSize_def)
qed

lemma parsePacket_parts:
  assumes wf: "wf_header h" and bs: "bs = [syncByte] @ bits_to_bytes (header_bits h) @ fs @ rest" and len: "length bs = 188"
    and field: "\<exists>off'. pwhen (ph_HasAdaptationField h) None
       (psome (pwrap ''astits: parsing packet adaptation field failed: '' (parsePacketAdaptationField refIterator))) (bs, 4)
      = Some (Inr (a, bs, off'))"
    and off: "payloadOffset 1 h a = Some (4 + int (length fs))"
  shows "parseBytes refIterator (parsePacket refIterator) bs =
    Some (Inr \<lparr>p_AdaptationField = a, p_Header = h, p_Payload = (if ph_HasPayload h then rest else [])\<rparr>)"
proof -
  let ?n = "4 + int (length fs)"
  have "stands bs 0 ([syncByte] @ bits_to_bytes (header_bits h) @ fs)"
    unfolding stands_def by (intro exI[of _ "[]"] exI[of _ rest]) (simp add: bs)
  then have at: "stands bs 1 (bits_to_bytes (header_bits h))"
    using stands_append[of bs 0 "[syncByte]" "bits_to_bytes (header_bits h) @ fs"]
      stands_append[of bs 1 "bits_to_bytes (header_bits h)" fs] by simp_all
  have hd: "bs ! 0 = syncByte" using bs by simp
  have h: "pwrap msg (parsePacketHeader refIterator) (bs, 1) = Some (Inr (h, bs, 4))" for msg
    using reads_parsePacketHeader[of h bs 1] at wf by (simp add: reads_def pwrap_Inr)
  from field obtain off' where a: "pwhen (ph_HasAdaptationField h) None
       (psome (pwrap ''astits: parsing packet adaptation field failed: '' (parsePacketAdaptationField refIterator))) (bs, 4)
      = Some (Inr (a, bs, off'))" ..
  have n: "nat ?n = Suc (3 + length fs)" by simp
  have rest: "drop (nat ?n) bs = rest"
    by (simp only: n bs append_Cons append_Nil drop_Suc_Cons) simp
  have "parsePacketContents refIterator 1 (bs, 1) =
      pbind (pwhen (ph_HasPayload h) [] (pbind (seek refIterator ?n) (\<lambda>_. dump refIterator)))
       (\<lambda>payload. preturn \<lparr>p_AdaptationField = a, p_Header = h, p_Payload = payload\<rparr>) (bs, off')"
    unfolding parsePacketContents_def pbind_Inr[where p = "pwrap _ _", OF h] pbind_Inr[where p = "pwhen _ _ (psome _)", OF a]
      off by simp
  with parsePacket_sync[OF hd] len show ?thesis
    by (simp add: parseBytes_def pbind_def pwhen_def preturn_def seek_def pmove_def dump_def plift_def rest)
qed

lemma parsePacket_ref:
  assumes wf: "wf_packet p" and bs: "bs = [syncByte] @ bits_to_bytes (header_bits (p_Header p)) @ field_bytes p @ rest"
    and len: "length bs = 188"
  shows "parseBytes refIterator (parsePacket refIterator) bs =
    Some (Inr (p\<lparr>p_AdaptationField := map_option read_countdown (p_AdaptationField p),
      p_Payload := (if ph_HasPayload (p_Header p) then rest else [])\<rparr>))"
proof -
  let ?h = "p_Header p" and ?a = "map_option read_countdown (p_AdaptationField p)"
  have "stands bs 4 (field_bytes p)"
    unfolding stands_def by (intro exI[of _ "[syncByte] @ bits_to_bytes (header_bits ?h)"] exI[of _ rest]) (simp add: bs)
  then have "\<exists>off'. pwhen (ph_HasAdaptationField ?h) None
       (psome (pwrap ''astits: parsing packet adaptation field failed: '' (parsePacketAdaptationField refIterator))) (bs, 4)
      = Some (Inr (?a, bs, off'))"
    using reads_field_opt[of "ph_HasAdaptationField ?h" "p_AdaptationField p" bs 4] wf unfolding field_bytes_def wf_packet_def by blast
  from parsePacket_parts[OF _ bs len this] payloadOffset_wf[OF wf] length_field_bytes[OF wf] wf
  show ?thesis by (simp add: wf_packet_def)
qed

section \<open>Parsing always returns\<close>

lemma advances_parsePacketHeader: "advances 0 (parsePacketHeader refIterator)"
  unfolding parsePacketHeader_def by (intro advances_intros) simp

text \<open>The step back over the byte of the splice type never leaves the slice.\<close>

lemma advances_parseSeamlessSplice: "advances 0 (parseSeamlessSplice refIterator)"
proof (rule advancesI)
  fix bs and off :: int assume off: "0 \<le> off"
  show "(\<exists>e. parseSeamlessSplice refIterator (bs, off) = Some (Inl e) \<and> e \<noteq> Panic) \<or>
    (\<exists>a off'. parseSeamlessSplice refIterator (bs, off) = Some (Inr (a, bs, off')) \<and> off + 0 \<le> off')"
  proof (cases "off < int (length bs)")
    case False
    with off show ?thesis by (simp add: parseSeamlessSplice_def pbind_def fetchByte_def pwrap_def plift_def)
  next
    case True
    from advances_parsePTSOrDTS off show ?thesis
      by (cases rule: advancesE[where bs = bs])
        (use True off in \<open>auto simp: parseSeamlessSplice_def pbind_def fetchByte_def pwrap_def plift_def
          skip_def pmove_def preturn_def\<close>)
  qed
qed

lemma advances_parseAdaptationExtensionField: "advances 0 (parseAdaptationExtensionField refIterator)"
  unfolding parseAdaptationExtensionField_def
  by (intro advances_intros advances_parseSeamlessSplice) simp_all

lemma advances_parsePacketAdaptationField: "advances 0 (parsePacketAdaptationField refIterator)"
  unfolding parsePacketAdaptationField_def parseAdaptationFieldBody_def
  by (intro advances_intros advances_parsePCR advances_parseAdaptationExtensionField) simp_all

lemma parsed_af_Length:
  assumes "parsePacketAdaptationField I i = Some (Inr (a, s))"
  shows "0 \<le> af_Length a"
  using assms unfolding parsePacketAdaptationField_def Let_def
  by (auto elim!: pbind_InrE simp: preturn_def)

lemma parsed_payloadOffset:
  assumes "pwhen (ph_HasAdaptationField h) None (psome (pwrap msg (parsePacketAdaptationField I))) i = Some (Inr (a, s))"
    and "0 \<le> start"
  shows "\<exists>off. payloadOffset start h a = Some off \<and> 0 \<le> off"
proof (cases "ph_HasAdaptationField h")
  case True
  with assms(1) obtain af s' where "a = Some af" "parsePacketAdaptationField I i = Some (Inr (af, s'))"
    by (auto simp: pwhen_def psome_def pwrap_def preturn_def elim!: pbind_InrE split: option.splits sum.splits)
  with parsed_af_Length[OF this(2)] True assms(2) show ?thesis by (simp add: payloadOffset_def)
next
  case False
  with assms show ?thesis by (simp add: payloadOffset_def)
qed

text \<open>The reads of a packet after its sync byte, on a slice of at least 187 bytes.\<close>

lemma parsePacket_returns_ref:
  assumes "187 \<le> length bs"
  shows "\<exists>r. parseBytes refIterator (parsePacket refIterator) bs = Some r \<and> r \<noteq> Inl Panic"
proof (cases "bs ! 0 = syncByte")
  case False
  with assms show ?thesis
    by (auto simp: parseBytes_def parsePacket_def pbind_def pwrap_def plift_def pfail_def)
next
  case True
  let ?start = "int (length bs) - 187"
  let ?header = "pwrap ''astits: parsing packet header failed: '' (parsePacketHeader refIterator)"
  let ?field = "\<lambda>h. pwhen (ph_HasAdaptationField h) None
       (psome (pwrap ''astits: parsing packet adaptation field failed: '' (parsePacketAdaptationField refIterator)))"
  have start: "0 \<le> ?start" using assms by simp
  have h: "advances 0 ?header" and f: "advances 0 (?field h)" for h
    by (intro advances_intros advances_parsePacketHeader advances_parsePacketAdaptationField)+
  have "\<exists>r. parsePacketContents refIterator ?start (bs, ?start) = Some r \<and> r \<noteq> Inl Panic"
    using h start
  proof (cases rule: advancesE[where bs = bs])
    case (Err e)
    then show ?thesis by (simp add: parsePacketContents_def pbind_Inl)
  next
    case h: (Ok h off)
    with start have "0 \<le> off" by simp
    with f[of h] show ?thesis
    proof (cases rule: advancesE[where bs = bs])
      case (Err e)
      then show ?thesis by (simp add: parsePacketContents_def pbind_def h(1))
    next
      case (Ok a off')
      from parsed_payloadOffset[OF Ok(1) start] show ?thesis
        by (auto simp: parsePacketContents_def pbind_def h(1) Ok(1) pwhen_def[of "ph_HasPayload h"]
            seek_def pmove_def dump_def plift_def preturn_def)
    qed
  qed
  with parsePacket_sync[OF True assms] show ?thesis
    by (auto simp: parseBytes_def split: option.splits sum.splits)
qed

text \<open>A packet on the wire, for any reader and writer of the contracts.\<close>

lemma packet_wire_roundtrip:
  assumes "astikit I W view" and "wf_packet p" and "packet_size p \<le> 188"
  shows "\<exists>bs. writeBytes W (writePacket W p MpegTsPacketSize) = (Inr 188, bs) \<and> length bs = 188 \<and>
    parseBytes I (parsePacket I) bs = Some (Inr (p\<lparr>p_AdaptationField := map_option read_countdown (p_AdaptationField p),
      p_Payload := (if ph_HasPayload (p_Header p) then p_Payload p @ replicate (nat (188 - packet_size p)) 0xff else [])\<rparr>))"
proof -
  let ?bs = "bits_to_bytes (packet_bits p 188)"
  note I = astikit.axioms(1)[OF assms(1)] and W = astikit.axioms(2)[OF assms(1)]
  have len: "length ?bs = 188" using length_packet_bits[OF assms(2,3)] by simp
  have "writeBytes W (writePacket W p MpegTsPacketSize) = (Inr 188, ?bs)"
    unfolding MpegTsPacketSize_def
    by (intro bits_writer.writeBytes_emits[OF W] bits_writer.emits_writePacket[OF W] assms)
  moreover have "parseBytes I (parsePacket I) ?bs = Some (Inr (p\<lparr>p_AdaptationField := map_option read_countdown (p_AdaptationField p),
      p_Payload := (if ph_HasPayload (p_Header p) then p_Payload p @ replicate (nat (188 - packet_size p)) 0xff else [])\<rparr>))"
    by (rule bytes_iterator.parseBytes_transfer[OF I bytes_iterator.sim_parsePacket[OF I]
          parsePacket_ref[OF assms(2) _ len]])
      (simp_all only: packet_bytes[OF assms(2)], simp)
  ultimately show ?thesis using len by blast
qed

section \<open>Properties\<close>

text \<open>
  \<^bold>\<open>C4\<close>. Writing a transport packet and parsing it back. For every well-formed packet (header values
  that fit their fields; an adaptation field whose values fit theirs, that is consistent with its flags and
  gives its own length, with any splice countdown; at most 184 bytes of adaptation field and payload)
  \<^verbatim>\<open>writePacket\<close> writes exactly 188 bytes. \<^verbatim>\<open>parsePacket\<close> reads from them the same
  header and the payload extended by the 0xff padding that fills the packet, and the same adaptation field
  but for the splice countdown, of which it returns the remainder modulo 256: a countdown from 0 to 255
  comes back, a negative one, which the comment on the field allows, does not.
\<close>

theorem packet_roundtrip:
  assumes "astikit I W view" and "wf_packet p" and "packet_size p \<le> 188"
  shows "\<exists>bs. writeBytes W (writePacket W p MpegTsPacketSize) = (Inr 188, bs) \<and> length bs = 188 \<and>
    parseBytes I (parsePacket I) bs = Some (Inr (p\<lparr>
      p_AdaptationField := map_option (\<lambda>af. af\<lparr>af_SpliceCountdown := af_SpliceCountdown af mod 256\<rparr>) (p_AdaptationField p),
      p_Payload := (if ph_HasPayload (p_Header p) then p_Payload p @ replicate (nat (188 - packet_size p)) 0xff else [])\<rparr>))"
  using packet_wire_roundtrip[OF assms] by (simp add: read_countdown_def[abs_def])


text \<open>
  \<^bold>\<open>C34\<close>. A packet whose adaptation field and payload do not fit the target size is refused
  with the error that names the payload's length and the room left. The header and the adaptation
  field have been written by then, but the count returned is 0.
\<close>

theorem writePacket_refuses_large:
  assumes "bits_writer W view" and "wf_packet p" and "target < packet_size p"
  shows "writeBytes W (writePacket W p target) =
    (Inl (0, ErrMessage ''writePacket: can't write %d bytes of payload: only %d is available''
        [int (length (p_Payload p)), target - packet_head_size p]),
     syncByte # bits_to_bytes (header_bits (p_Header p)) @ field_bytes p)"
  using bits_writer.writeBytes_emits_fail[OF assms(1) bits_writer.writePacket_too_large[OF assms]]
  by (simp add: field_bytes_def bits_to_bytes_aligned byte8_bits)

text \<open>
  \<^bold>\<open>C16\<close>. Parsing a packet never panics and always returns, on every slice of at least 187
  bytes: with any flags, any adaptation field length and any extension.
\<close>

theorem parsePacket_returns:
  assumes "bytes_iterator I" and "187 \<le> length bs"
  shows "\<exists>r. parseBytes I (parsePacket I) bs = Some r \<and> r \<noteq> Inl Panic"
  using parsePacket_returns_ref[OF assms(2)]
    bytes_iterator.parseBytes_transfer[OF assms(1) bytes_iterator.sim_parsePacket[OF assms(1)]] by blast

text \<open>
  \<^bold>\<open>C35\<close>. A slice that does not start with the sync byte 0x47 is refused.
\<close>

theorem parsePacket_needs_sync:
  assumes "bytes_iterator I" and "bs \<noteq> []" and "hd bs \<noteq> 0x47"
  shows "parseBytes I (parsePacket I) bs = Some (Inl ErrPacketMustStartWithASyncByte)"
  using assms(2,3)
  by (intro bytes_iterator.parseBytes_transfer[OF assms(1) bytes_iterator.sim_parsePacket[OF assms(1)]])
    (auto simp: parseBytes_def parsePacket_def pbind_def pwrap_def plift_def pfail_def syncByte_def hd_conv_nth)

section \<open>Witnesses\<close>

definition sampleHeader :: PacketHeader where
  "sampleHeader = \<lparr>ph_ContinuityCounter = 10, ph_HasAdaptationField = True, ph_HasPayload = True,
     ph_PayloadUnitStartIndicator = True, ph_PID = 0x155, ph_TransportErrorIndicator = False,
     ph_TransportPriority = True, ph_TransportScramblingControl = 1\<rparr>"

definition sampleField :: PacketAdaptationField where
  "sampleField = zeroAdaptationField\<lparr>af_HasPCR := True, af_PCR := Some (newClockReference 5726623060 341),
     af_HasTransportPrivateData := True, af_TransportPrivateDataLength := 4,
     af_TransportPrivateData := [0x74, 0x65, 0x73, 0x74], af_StuffingLength := 5, af_Length := 17\<rparr>"

definition samplePacket :: Packet where
  "samplePacket = \<lparr>p_AdaptationField = Some sampleField, p_Header = sampleHeader, p_Payload = [1, 2, 3]\<rparr>"

lemmas sample_defs = samplePacket_def sampleField_def sampleHeader_def zeroAdaptationField_def newClockReference_def
  wf_packet_def wf_header_def wf_af_def af_size_def packet_size_def packet_head_size_def fits_def fits_pcr_def

theorem packet_roundtrip_witness:
  "\<exists>bs. writeBytes refWriter (writePacket refWriter samplePacket MpegTsPacketSize) = (Inr 188, bs) \<and> length bs = 188 \<and>
    parseBytes refIterator (parsePacket refIterator) bs =
      Some (Inr (samplePacket\<lparr>p_Payload := [1, 2, 3] @ replicate 163 0xff\<rparr>))"
  using packet_roundtrip[OF ref_astikit.astikit_axioms, of samplePacket] by (simp add: sample_defs)


theorem writePacket_refuses_large_witness:
  "fst (writeBytes refWriter (writePacket refWriter samplePacket 20)) =
    Inl (0, ErrMessage ''writePacket: can't write %d bytes of payload: only %d is available'' [3, -2])"
  using writePacket_refuses_large[OF ref_writer.bits_writer_axioms, of samplePacket 20] by (simp add: sample_defs)

theorem parsePacket_returns_witness:
  "\<exists>r. parseBytes refIterator (parsePacket refIterator) (0x47 # replicate 187 0xff) = Some r \<and> r \<noteq> Inl Panic"
  using parsePacket_returns[OF ref_iterator.bytes_iterator_axioms, of "0x47 # replicate 187 0xff"] by simp

theorem parsePacket_needs_sync_witness:
  "parseBytes refIterator (parsePacket refIterator) [0x48, 0] = Some (Inl ErrPacketMustStartWithASyncByte)"
  using parsePacket_needs_sync[OF ref_iterator.bytes_iterator_axioms, of "[0x48, 0]"] by simp

end
