(* ===== verification/Wrapping_Counter.thy ===== *)
theory Wrapping_Counter
  imports Prelude
begin

text \<open>
  \<^verbatim>\<open>wrapping_counter.go\<close>: the counter behind table versions and continuity
  counters. It hands out \<open>0, 1, \<dots>, wrapAt, 0, 1, \<dots>\<close>.
\<close>

record wrappingCounter =
  wrapAt :: int
  wc_value :: int

definition newWrappingCounter :: "int \<Rightarrow> wrappingCounter" where
  "newWrappingCounter w = \<lparr>wrapAt = w, wc_value = 0\<rparr>"

text \<open>The current value, and the counter after the increment.\<close>

definition wc_get :: "wrappingCounter \<Rightarrow> int \<times> wrappingCounter" where
  "wc_get c = (let ret = wc_value c; v = wc_value c + 1
     in (ret, c\<lparr>wc_value := (if v > wrapAt c then 0 else v)\<rparr>))"

primrec wc_gets :: "nat \<Rightarrow> wrappingCounter \<Rightarrow> int list \<times> wrappingCounter" where
  "wc_gets 0 c = ([], c)"
| "wc_gets (Suc n) c = (let (v, c') = wc_get c; (vs, c'') = wc_gets n c' in (v # vs, c''))"

section \<open>Invariant and behaviour\<close>

definition wc_inv :: "wrappingCounter \<Rightarrow> bool" where
  "wc_inv c \<longleftrightarrow> 0 \<le> wc_value c \<and> wc_value c \<le> wrapAt c"

lemma wc_inv_new: "0 \<le> w \<Longrightarrow> wc_inv (newWrappingCounter w)"
  by (simp add: wc_inv_def newWrappingCounter_def)

lemma wc_get_wrapAt [simp]: "wrapAt (snd (wc_get c)) = wrapAt c"
  by (simp add: wc_get_def)

lemma wc_inv_get: "wc_inv c \<Longrightarrow> wc_inv (snd (wc_get c))"
  by (auto simp: wc_inv_def wc_get_def)

lemma wc_get_fst [simp]: "fst (wc_get c) = wc_value c"
  by (simp add: wc_get_def)

lemma wc_get_mod: "wc_inv c \<Longrightarrow> wc_value (snd (wc_get c)) = (wc_value c + 1) mod (wrapAt c + 1)"
  by (auto simp: wc_inv_def wc_get_def)

lemma wc_gets_mod:
  assumes "wc_inv c"
  shows "fst (wc_gets n c) = map (\<lambda>k. (wc_value c + int k) mod (wrapAt c + 1)) [0..<n]"
    and "wc_value (snd (wc_gets n c)) = (wc_value c + int n) mod (wrapAt c + 1)"
    and "wc_inv (snd (wc_gets n c))" and "wrapAt (snd (wc_gets n c)) = wrapAt c"
proof -
  have "fst (wc_gets n c) = map (\<lambda>k. (wc_value c + int k) mod (wrapAt c + 1)) [0..<n] \<and>
      wc_value (snd (wc_gets n c)) = (wc_value c + int n) mod (wrapAt c + 1) \<and>
      wc_inv (snd (wc_gets n c)) \<and> wrapAt (snd (wc_gets n c)) = wrapAt c"
    using assms
  proof (induction n arbitrary: c)
    case 0
    then show ?case by (auto simp: wc_inv_def)
  next
    case (Suc n)
    let ?d = "snd (wc_get c)"
    note IH = Suc.IH[OF wc_inv_get[OF Suc.prems]]
    have shift: "(wc_value ?d + int k) mod (wrapAt c + 1) = (wc_value c + int (Suc k)) mod (wrapAt c + 1)" for k
      using wc_get_mod[OF Suc.prems] by (simp add: mod_simps add.assoc)
    have first: "wc_value c mod (wrapAt c + 1) = wc_value c"
      using Suc.prems by (simp add: wc_inv_def)
    show ?case
      using IH first shift by (simp add: Let_def split_beta upt_conv_Cons map_Suc_upt[symmetric] del: upt_Suc of_nat_Suc)
  qed
  then show "fst (wc_gets n c) = map (\<lambda>k. (wc_value c + int k) mod (wrapAt c + 1)) [0..<n]"
    and "wc_value (snd (wc_gets n c)) = (wc_value c + int n) mod (wrapAt c + 1)"
    and "wc_inv (snd (wc_gets n c))" and "wrapAt (snd (wc_gets n c)) = wrapAt c" by simp_all
qed

section \<open>Properties\<close>

text \<open>
  \<^bold>\<open>C30\<close>. A fresh counter that wraps at \<open>w\<close> hands out \<open>0, 1, \<dots>, w, 0, 1, \<dots>\<close>:
  the \<open>k\<close>-th value is \<open>k\<close> modulo \<open>w + 1\<close>.
\<close>

theorem wrappingCounter_sequence:
  assumes "0 \<le> w"
  shows "fst (wc_gets n (newWrappingCounter w)) = map (\<lambda>k. int k mod (w + 1)) [0..<n]"
  using wc_gets_mod(1)[OF wc_inv_new[OF assms], of n] by (simp add: newWrappingCounter_def)

theorem wrappingCounter_sequence_witness:
  "fst (wc_gets 5 (newWrappingCounter 2)) = [0, 1, 2, 0, 1]"
proof -
  have "fst (wc_gets 5 (newWrappingCounter 2)) = map (\<lambda>k. int k mod (2 + 1)) [0..<5]"
    by (rule wrappingCounter_sequence) simp
  also have "\<dots> = [0, 1, 2, 0, 1]" by (simp add: upt_rec)
  finally show ?thesis .
qed

end
