(* ===== verification/Muxer.thy ===== *)
theory Muxer
  imports Data Packet_Codec Wrapping_Counter
begin

text \<open>
  \<^verbatim>\<open>muxer.go\<close>: PES packets cut into transport packets, with the program tables
  transmitted before them at intervals.
\<close>

section \<open>The state\<close>

definition startPID :: uint16 where "startPID = 0x0100"
definition pmtStartPID :: uint16 where "pmtStartPID = 0x1000"
definition programNumberStart :: uint16 where "programNumberStart = 1"

record esContext =
  ec_es :: PMTElementaryStream
  ec_cc :: wrappingCounter

definition newEsContext :: "PMTElementaryStream \<Rightarrow> esContext" where
  "newEsContext es = \<lparr>ec_es = es, ec_cc = newWrappingCounter 15\<rparr>"

text \<open>
  \<open>mux_w\<close> is \<^verbatim>\<open>bitsWriter\<close> with the \<^verbatim>\<open>io.Writer\<close> \<^verbatim>\<open>w\<close> it was made on, and
  \<open>mux_buf\<close> is \<^verbatim>\<open>bufWriter\<close> with the buffer \<^verbatim>\<open>buf\<close>. The context is not used.
\<close>

record 'w Muxer =
  mux_w :: 'w
  mux_packetSize :: int
  mux_tablesRetransmitPeriod :: int
  mux_pm :: programMap
  mux_pmt :: PMTData
  mux_nextPID :: uint16
  mux_patVersion :: wrappingCounter
  mux_pmtVersion :: wrappingCounter
  mux_patBytes :: "byte list"
  mux_pmtBytes :: "byte list"
  mux_buf :: 'w
  mux_esContexts :: "(uint16, esContext) mapping"
  mux_tablesRetransmitCounter :: int

definition MuxerOptTablesRetransmitPeriod :: "int \<Rightarrow> 'w Muxer \<Rightarrow> 'w Muxer" where
  "MuxerOptTablesRetransmitPeriod newPeriod m = m\<lparr>mux_tablesRetransmitPeriod := newPeriod\<rparr>"

definition NewMuxer :: "'w BitsWriter \<Rightarrow> 'w \<Rightarrow> ('w Muxer \<Rightarrow> 'w Muxer) list \<Rightarrow> 'w Muxer" where
  "NewMuxer W w opts =
     (let m = fold (\<lambda>opt m. opt m) opts
        \<lparr>mux_w = w, mux_packetSize = MpegTsPacketSize, mux_tablesRetransmitPeriod = 40,
          mux_pm = pm_set newProgramMap pmtStartPID programNumberStart,
          mux_pmt = \<lparr>pmt_ElementaryStreams = [], pmt_PCRPID = 0, pmt_ProgramDescriptors = [],
            pmt_ProgramNumber = programNumberStart\<rparr>,
          mux_nextPID = 0, mux_patVersion = newWrappingCounter 31, mux_pmtVersion = newWrappingCounter 31,
          mux_patBytes = [], mux_pmtBytes = [], mux_buf = bw_New W, mux_esContexts = Mapping.empty,
          mux_tablesRetransmitCounter = 0\<rparr>
      in m\<lparr>mux_tablesRetransmitCounter := mux_tablesRetransmitPeriod m\<rparr>)"

section \<open>Elementary streams\<close>

definition AddElementaryStream :: "'w Muxer \<Rightarrow> PMTElementaryStream \<Rightarrow> error option \<times> 'w Muxer" where
  "AddElementaryStream m es =
     (if es_ElementaryPID es \<noteq> 0 \<and>
         (\<exists>oes\<in>set (pmt_ElementaryStreams (mux_pmt m)). es_ElementaryPID oes = es_ElementaryPID es)
      then (Some ErrPIDAlreadyExists, m)
      else
        let (es, m) = (if es_ElementaryPID es \<noteq> 0 then (es, m)
              else (es\<lparr>es_ElementaryPID := mux_nextPID m\<rparr>, m\<lparr>mux_nextPID := mux_nextPID m + 1\<rparr>)) in
        (None, m\<lparr>
           mux_pmt := (mux_pmt m)\<lparr>pmt_ElementaryStreams := pmt_ElementaryStreams (mux_pmt m) @ [es]\<rparr>,
           mux_esContexts := Mapping.update (es_ElementaryPID es) (newEsContext es) (mux_esContexts m),
           mux_pmtBytes := []\<rparr>))"

definition RemoveElementaryStream :: "'w Muxer \<Rightarrow> uint16 \<Rightarrow> error option \<times> 'w Muxer" where
  "RemoveElementaryStream m pid =
     (let ess = pmt_ElementaryStreams (mux_pmt m) in
      case find (\<lambda>i. es_ElementaryPID (ess ! i) = pid) [0..<length ess] of
        None \<Rightarrow> (Some ErrPIDNotFound, m)
      | Some foundIdx \<Rightarrow> (None, m\<lparr>
           mux_pmt := (mux_pmt m)\<lparr>pmt_ElementaryStreams := take foundIdx ess @ drop (foundIdx + 1) ess\<rparr>,
           mux_esContexts := Mapping.delete pid (mux_esContexts m),
           mux_pmtBytes := []\<rparr>))"

definition SetPCRPID :: "'w Muxer \<Rightarrow> uint16 \<Rightarrow> 'w Muxer" where
  "SetPCRPID m pid = m\<lparr>mux_pmt := (mux_pmt m)\<lparr>pmt_PCRPID := pid\<rparr>\<rparr>"

section \<open>Tables\<close>

text \<open>
  A table as it is generated: the bytes of its section, and those of the packet that carries it,
  which are kept also when the packet is refused. Both go through writers made for the purpose, the
  first on \<^verbatim>\<open>buf\<close>, which every use resets first.
\<close>

definition tablePacket :: "uint16 \<Rightarrow> byte list \<Rightarrow> Packet" where
  "tablePacket pid bs =
     \<lparr>p_AdaptationField = None,
      p_Header = \<lparr>ph_ContinuityCounter = 0, ph_HasAdaptationField = False, ph_HasPayload = True,
        ph_PayloadUnitStartIndicator = True, ph_PID = pid, ph_TransportErrorIndicator = False,
        ph_TransportPriority = False, ph_TransportScramblingControl = 0\<rparr>,
      p_Payload = bs\<rparr>"

definition tableSection :: "uint16 \<Rightarrow> PSITableID \<Rightarrow> uint16 \<Rightarrow> uint8 \<Rightarrow> PSISectionSyntaxData \<Rightarrow> PSIData" where
  "tableSection sectionLength tableID tableIDExtension version d =
     \<lparr>psi_PointerField = 0,
      psi_Sections = [\<lparr>sec_CRC32 = 0,
        sec_Header = Some \<lparr>psh_PrivateBit = False, psh_SectionLength = sectionLength, psh_SectionSyntaxIndicator = True,
          psh_TableID = tableID, psh_TableType = ''''\<rparr>,
        sec_Syntax = Some \<lparr>syn_Data = Some d,
          syn_Header = Some \<lparr>ssh_CurrentNextIndicator = True, ssh_LastSectionNumber = 0, ssh_SectionNumber = 0,
            ssh_TableIDExtension = tableIDExtension, ssh_VersionNumber = version\<rparr>\<rparr>\<rparr>]\<rparr>"

definition generatePAT :: "'w BitsWriter \<Rightarrow> (uint16 set \<Rightarrow> uint16 list) \<Rightarrow> 'w Muxer \<Rightarrow> error option \<times> 'w Muxer" where
  "generatePAT W rng m =
     (let d = toPATData rng (mux_pm m);
          (v, patVersion) = wc_get (mux_patVersion m);
          m = m\<lparr>mux_patVersion := patVersion\<rparr>;
          psiData = tableSection (calcPATSectionLength d) (pat_TransportStreamID d) (pat_TransportStreamID d) (word_of_int v)
            (emptyPSISectionSyntaxData\<lparr>ssd_PAT := Some d\<rparr>) in
      case writeBytes W (writePSIData W psiData) of
        (Inl e, _) \<Rightarrow> (Some e, m)
      | (Inr _, section) \<Rightarrow>
          (case writeBytes W (writePacket W (tablePacket PIDPAT section) (mux_packetSize m)) of (r, bs) \<Rightarrow>
            (case r of Inl (_, e) \<Rightarrow> Some e | Inr _ \<Rightarrow> None, m\<lparr>mux_patBytes := bs\<rparr>)))"

definition generatePMT :: "'w BitsWriter \<Rightarrow> 'w Muxer \<Rightarrow> error option \<times> 'w Muxer" where
  "generatePMT W m =
     (let d = mux_pmt m in
      if \<not> (\<exists>es\<in>set (pmt_ElementaryStreams d). es_ElementaryPID es = pmt_PCRPID d) then (Some ErrPCRPIDInvalid, m)
      else
        let (v, pmtVersion) = wc_get (mux_pmtVersion m);
            m = m\<lparr>mux_pmtVersion := pmtVersion\<rparr> in
        case calcPMTSectionLength d of
          None \<Rightarrow> (Some Panic, m)
        | Some sectionLength \<Rightarrow>
            let psiData = tableSection sectionLength PSITableIDPMT (pmt_ProgramNumber d) (word_of_int v)
                  (emptyPSISectionSyntaxData\<lparr>ssd_PMT := Some d\<rparr>) in
            case writeBytes W (writePSIData W psiData) of
              (Inl e, _) \<Rightarrow> (Some e, m)
            | (Inr _, section) \<Rightarrow>
                (case writeBytes W (writePacket W (tablePacket pmtStartPID section) (mux_packetSize m)) of (r, bs) \<Rightarrow>
                  (case r of Inl (_, e) \<Rightarrow> Some e | Inr _ \<Rightarrow> None, m\<lparr>mux_pmtBytes := bs\<rparr>)))"

text \<open>The count of bytes written and the error.\<close>

type_synonym 'w written = "(int \<times> error option) \<times> 'w Muxer"

definition writeDirect :: "'w BitsWriter \<Rightarrow> byte list \<Rightarrow> 'w Muxer \<Rightarrow> error option \<times> 'w Muxer" where
  "writeDirect W bs m = (case bw_Direct W bs (mux_w m) of (err, w) \<Rightarrow> (err, m\<lparr>mux_w := w\<rparr>))"

definition WriteTables :: "'w BitsWriter \<Rightarrow> (uint16 set \<Rightarrow> uint16 list) \<Rightarrow> 'w Muxer \<Rightarrow> 'w written" where
  "WriteTables W rng m =
     (case (if int (length (mux_patBytes m)) \<noteq> mux_packetSize m then generatePAT W rng m else (None, m)) of
       (Some e, m) \<Rightarrow> ((0, Some e), m)
     | (None, m) \<Rightarrow>
      (case (if int (length (mux_pmtBytes m)) \<noteq> mux_packetSize m then generatePMT W m else (None, m)) of
        (Some e, m) \<Rightarrow> ((0, Some e), m)
      | (None, m) \<Rightarrow>
       (case writeDirect W (mux_patBytes m) m of
         (Some e, m) \<Rightarrow> ((0, Some e), m)
       | (None, m) \<Rightarrow>
        (case writeDirect W (mux_pmtBytes m) m of
          (Some e, m) \<Rightarrow> ((int (length (mux_patBytes m)), Some e), m)
        | (None, m) \<Rightarrow> ((int (length (mux_patBytes m)) + int (length (mux_pmtBytes m)), None), m)))))"

definition retransmitTables :: "'w BitsWriter \<Rightarrow> (uint16 set \<Rightarrow> uint16 list) \<Rightarrow> bool \<Rightarrow> 'w Muxer \<Rightarrow> 'w written" where
  "retransmitTables W rng force m =
     (let m = m\<lparr>mux_tablesRetransmitCounter := mux_tablesRetransmitCounter m + 1\<rparr> in
      if \<not> force \<and> mux_tablesRetransmitCounter m < mux_tablesRetransmitPeriod m then ((0, None), m)
      else case WriteTables W rng m of
        ((n, Some e), m) \<Rightarrow> ((n, Some e), m)
      | ((n, None), m) \<Rightarrow> ((n, None), m\<lparr>mux_tablesRetransmitCounter := 0\<rparr>))"

section \<open>Data\<close>

text \<open>
  The variables of the loop of \<^verbatim>\<open>WriteData\<close>. \<open>d\<close> is the caller's struct, whose adaptation
  field and stream identifier the code changes; \<open>ctx\<close> is the entry of the PID in the map.
\<close>

record 'w writeState =
  ws_m :: "'w Muxer"
  ws_ctx :: esContext
  ws_d :: MuxerData
  ws_payloadStart :: bool
  ws_writeAf :: bool
  ws_payloadBytesWritten :: int
  ws_bytesWritten :: int

type_synonym 'w writtenData = "(int \<times> error option) \<times> 'w Muxer \<times> MuxerData"

text \<open>Setting the stuffing of the caller's adaptation field.\<close>

definition setStuffing :: "int \<Rightarrow> MuxerData \<Rightarrow> MuxerData" where
  "setStuffing n d = d\<lparr>md_AdaptationField := map_option (\<lambda>af. af\<lparr>af_StuffingLength := n\<rparr>) (md_AdaptationField d)\<rparr>"

definition setStreamID :: "esContext \<Rightarrow> MuxerData \<Rightarrow> MuxerData" where
  "setStreamID ctx d =
     (let pes = md_PES d; h = pes_Header pes in
      if pes_StreamID h = 0
      then d\<lparr>md_PES := pes\<lparr>pes_Header := h\<lparr>pes_StreamID := ToPESStreamID (es_StreamType (ec_es ctx))\<rparr>\<rparr>\<rparr>
      else d)"

definition dataHeader :: "uint16 \<Rightarrow> uint8 \<Rightarrow> bool \<Rightarrow> bool \<Rightarrow> PacketHeader" where
  "dataHeader pid cc hasAdaptationField payloadStart =
     \<lparr>ph_ContinuityCounter = cc, ph_HasAdaptationField = hasAdaptationField, ph_HasPayload = True,
       ph_PayloadUnitStartIndicator = payloadStart, ph_PID = pid, ph_TransportErrorIndicator = False,
       ph_TransportPriority = False, ph_TransportScramblingControl = 0\<rparr>"

text \<open>
  The packet with a part of the payload: the PES bytes go through \<^verbatim>\<open>buf\<close>, what is left of
  the packet is stuffed through the adaptation field.
\<close>

definition writeDataPacket :: "'w BitsWriter \<Rightarrow> uint8 \<Rightarrow> int \<Rightarrow> 'w writeState \<Rightarrow> ('w writtenData, 'w writeState) flow" where
  "writeDataPacket W cc bytesAvailable s =
     (let m = ws_m s;
          d = setStreamID (ws_ctx s) (ws_d s) in
      case writePESData W (pes_Header (md_PES d)) (drop (nat (ws_payloadBytesWritten s)) (pes_Data (md_PES d)))
          (ws_payloadStart s) bytesAvailable (bw_Reset W (mux_buf m)) of
        (Inl (_, e), buf) \<Rightarrow> Return ((ws_bytesWritten s, Some e), m\<lparr>mux_buf := buf\<rparr>, d)
      | (Inr (ntot, npayload), buf) \<Rightarrow>
          let m = m\<lparr>mux_buf := buf\<rparr>;
              bytesAvailable = bytesAvailable - ntot;
              d = (if bytesAvailable > 0 \<and> ws_writeAf s then setStuffing bytesAvailable d else d);
              af = (if ws_writeAf s then md_AdaptationField d
                else if bytesAvailable > 0 then Some (newStuffingAdaptationField bytesAvailable) else None);
              pkt = \<lparr>p_AdaptationField = af,
                p_Header = dataHeader (md_PID d) cc (ws_writeAf s \<or> bytesAvailable > 0) (ws_payloadStart s),
                p_Payload = bw_Bytes W buf\<rparr> in
          case writePacket W pkt (mux_packetSize m) (mux_w m) of
            (Inl (_, e), w) \<Rightarrow> Return ((ws_bytesWritten s, Some e), m\<lparr>mux_w := w\<rparr>, d)
          | (Inr n, w) \<Rightarrow> Continue (s\<lparr>ws_m := m\<lparr>mux_w := w\<rparr>, ws_d := d, ws_payloadStart := False, ws_writeAf := False,
              ws_payloadBytesWritten := ws_payloadBytesWritten s + npayload,
              ws_bytesWritten := ws_bytesWritten s + n\<rparr>))"

text \<open>
  One turn. Where the PES header does not fit behind the adaptation field, no packet is written: the
  adaptation field is stuffed, and forgotten in the next turn.
\<close>

definition writeDataTurn :: "'w BitsWriter \<Rightarrow> 'w writeState \<Rightarrow> ('w writtenData, 'w writeState) flow" where
  "writeDataTurn W s =
     (let d = ws_d s in
      if \<not> ws_payloadBytesWritten s < int (length (pes_Data (md_PES d)))
      then Return ((ws_bytesWritten s, None), ws_m s, setStuffing 0 d)
      else
        let (cc, counter) = wc_get (ec_cc (ws_ctx s));
            ctx = (ws_ctx s)\<lparr>ec_cc := counter\<rparr>;
            m = (ws_m s)\<lparr>mux_esContexts := Mapping.update (md_PID d) ctx (mux_esContexts (ws_m s))\<rparr>;
            s = s\<lparr>ws_m := m, ws_ctx := ctx\<rparr> in
        case (if ws_writeAf s
              then map_option (\<lambda>n. 1 + uint n) (Option.bind (md_AdaptationField d) calcPacketAdaptationFieldLength)
              else Some 0) of
          None \<Rightarrow> Return ((ws_bytesWritten s, Some Panic), m, d)
        | Some afLength \<Rightarrow>
            let bytesAvailable = mux_packetSize m - (1 + mpegTsPacketHeaderSize + afLength) in
            if ws_payloadStart s \<and>
               bytesAvailable < pesHeaderLength + uint (calcPESOptionalHeaderLength (pes_OptionalHeader (pes_Header (md_PES d))))
            then Continue (s\<lparr>ws_d := (if ws_writeAf s then setStuffing bytesAvailable d else d), ws_writeAf := False\<rparr>)
            else writeDataPacket W (word_of_int cc) bytesAvailable s)"

definition WriteData ::
    "'w BitsWriter \<Rightarrow> (uint16 set \<Rightarrow> uint16 list) \<Rightarrow> 'w Muxer \<Rightarrow> MuxerData \<Rightarrow> 'w writtenData option" where
  "WriteData W rng m d =
     (case Mapping.lookup (mux_esContexts m) (md_PID d) of
       None \<Rightarrow> Some ((0, Some ErrPIDNotFound), m, d)
     | Some ctx \<Rightarrow>
         let forceTables = (case md_AdaptationField d of None \<Rightarrow> False | Some af \<Rightarrow>
               af_RandomAccessIndicator af \<and> md_PID d = pmt_PCRPID (mux_pmt m)) in
         case retransmitTables W rng forceTables m of
           ((n, Some e), m) \<Rightarrow> Some ((n, Some e), m, d)
         | ((n, None), m) \<Rightarrow> goLoop (\<lambda>s. Some (writeDataTurn W s))
             \<lparr>ws_m = m, ws_ctx = ctx, ws_d = d, ws_payloadStart = True, ws_writeAf = md_AdaptationField d \<noteq> None,
               ws_payloadBytesWritten = 0, ws_bytesWritten = n\<rparr>)"

definition WritePacket :: "'w BitsWriter \<Rightarrow> 'w Muxer \<Rightarrow> Packet \<Rightarrow> ((int \<times> error) + int) \<times> 'w Muxer" where
  "WritePacket W m p = (case writePacket W p (mux_packetSize m) (mux_w m) of (r, w) \<Rightarrow> (r, m\<lparr>mux_w := w\<rparr>))"

end
