(* ===== verification/Muxer_Codec.thy ===== *)
theory Muxer_Codec
  imports Muxer
begin

text \<open>
  The packets that \<^verbatim>\<open>WriteData\<close> cuts a PES packet into: a specification of the list of
  packets, and that the loop of the muxer implements it.
\<close>

section \<open>Adaptation fields as they are written\<close>

text \<open>The bytes of an adaptation field, and the struct that the parser makes of them.\<close>

definition af_wire :: "PacketAdaptationField \<Rightarrow> byte list" where
  "af_wire af = (if af_IsOneByteStuffing af then [0] else bits_to_bytes (af_bits af))"

definition af_parsed :: "PacketAdaptationField \<Rightarrow> PacketAdaptationField" where
  "af_parsed af = (if af_IsOneByteStuffing af then zeroAdaptationField else read_countdown (af\<lparr>af_Length := af_size af - 1\<rparr>))"

definition ok_af :: "PacketAdaptationField \<Rightarrow> bool" where
  "ok_af af \<longleftrightarrow> af_IsOneByteStuffing af \<or> wf_af (af\<lparr>af_Length := af_size af - 1\<rparr>)"

lemma af_Length_irrelevant [simp]:
  "af_size (af\<lparr>af_Length := n\<rparr>) = af_size af" "af_bits (af\<lparr>af_Length := n\<rparr>) = af_bits af"
  "writePacketAdaptationField W (af\<lparr>af_Length := n\<rparr>) = writePacketAdaptationField W af"
  by (simp_all add: af_size_def af_bits_def af_field_bits_def writePacketAdaptationField_def calcPacketAdaptationFieldLength_def)

lemma length_af_wire:
  assumes "ok_af af"
  shows "int (length (af_wire af)) = (if af_IsOneByteStuffing af then 1 else af_size af)"
  using assms length_af_bits[of "af\<lparr>af_Length := af_size af - 1\<rparr>"] by (auto simp: ok_af_def af_wire_def split: if_splits)

context bits_writer
begin

lemma emits_af:
  assumes "ok_af af"
  shows "emits view (writePacketAdaptationField W af) (bytes_to_bits (af_wire af)) (int (length (af_wire af)))"
proof (cases "af_IsOneByteStuffing af")
  case True
  show ?thesis
    unfolding writePacketAdaptationField_def if_P[OF True] af_wire_def
    by (rule emits_conv, rule emits_wbind[OF emits_batch], rule emits_wreturn) simp_all
next
  case False
  with assms have wf: "wf_af (af\<lparr>af_Length := af_size af - 1\<rparr>)" by (simp add: ok_af_def af_parsed_def)
  from emits_writePacketAdaptationField[OF wf] have "emits view (writePacketAdaptationField W af) (af_bits af) (af_size af)"
    by simp
  then show ?thesis
    by (rule emits_conv)
      (use False af_bits_aligned[OF wf] length_af_wire[OF assms] in \<open>simp_all add: af_wire_def bytes_bits_inv\<close>)
qed

end

lemma reads_af:
  assumes "ok_af af" and "stands bs off (af_wire af)"
  shows "\<exists>off'. parsePacketAdaptationField refIterator (bs, off) = Some (Inr (af_parsed af, bs, off'))"
proof (cases "af_IsOneByteStuffing af")
  case True
  with assms(2) have "stands bs off [0]" by (simp add: af_wire_def)
  with reads_fetchByte[of bs off 0] have "fetchByte refIterator (bs, off) = Some (Inr (0, bs, off + 1))" by (simp add: reads_def)
  with True show ?thesis
    by (simp add: parsePacketAdaptationField_def pbind_def offset_def pget_def pwhen_def preturn_def af_parsed_def
        zeroAdaptationField_def)
next
  case False
  let ?af = "af\<lparr>af_Length := af_size af - 1\<rparr>"
  from False assms have wf: "wf_af ?af" and eq: "af_wire af = bits_to_bytes (af_bits ?af)"
    by (simp_all add: ok_af_def af_wire_def)
  from assms(2) stands_append[of bs off "word_of_int (af_Length ?af) # bits_to_bytes (af_field_bits ?af)"]
  have "stands bs off (word_of_int (af_Length ?af) # bits_to_bytes (af_field_bits ?af))"
    unfolding eq af_bytes[OF wf] by simp
  with reads_parsePacketAdaptationField[OF wf, of bs off] False show ?thesis by (simp add: reads_def af_parsed_def)
qed

section \<open>Data packets\<close>

text \<open>The adaptation field of a packet with \<open>room\<close> bytes to stuff.\<close>

definition stuffed :: "PacketAdaptationField option \<Rightarrow> int \<Rightarrow> PacketAdaptationField option" where
  "stuffed af room =
     (if room > 0 then Some (case af of None \<Rightarrow> newStuffingAdaptationField room | Some af \<Rightarrow> af\<lparr>af_StuffingLength := room\<rparr>)
      else af)"

definition af_room :: "PacketAdaptationField option \<Rightarrow> int" where
  "af_room af = 184 - (case af of None \<Rightarrow> 0 | Some af \<Rightarrow> af_size af)"

definition data_packet :: "uint16 \<Rightarrow> uint8 \<Rightarrow> PacketAdaptationField option \<Rightarrow> bool \<Rightarrow> byte list \<Rightarrow> Packet" where
  "data_packet pid cc af start bs =
     (let af' = stuffed af (af_room af - int (length bs)) in
      \<lparr>p_AdaptationField = af', p_Header = dataHeader pid cc (af' \<noteq> None) start, p_Payload = bs\<rparr>)"

text \<open>The adaptation field that a caller may give: without stuffing.\<close>

definition wf_given :: "PacketAdaptationField option \<Rightarrow> bool" where
  "wf_given af \<longleftrightarrow> (case af of None \<Rightarrow> True | Some af \<Rightarrow>
     \<not> af_IsOneByteStuffing af \<and> ok_af af \<and> af_StuffingLength af = 0 \<and> af_size af \<le> 184)"

lemma stuffed_wire:
  assumes "wf_given af" and "int (length bs) \<le> af_room af"
    and "stuffed af (af_room af - int (length bs)) = Some a"
  shows "ok_af a" and "int (length (af_wire a)) = 184 - int (length bs)"
proof -
  let ?room = "af_room af - int (length bs)"
  have *: "ok_af a \<and> (if af_IsOneByteStuffing a then 1 else af_size a) = 184 - int (length bs)"
  proof (cases af)
    case None
    with assms(3) have pos: "0 < ?room" and a: "a = newStuffingAdaptationField ?room" by (auto simp: stuffed_def split: if_splits)
    show ?thesis
    proof (cases "?room = 1")
      case True
      then show ?thesis using None by (simp add: a newStuffingAdaptationField_def ok_af_def af_room_def)
    next
      case False
      with pos None show ?thesis
        by (simp add: a newStuffingAdaptationField_def ok_af_def af_parsed_def wf_af_def af_size_def af_room_def zeroAdaptationField_def)
    qed
  next
    case (Some b)
    with assms(1) have b: "\<not> af_IsOneByteStuffing b" "wf_af (b\<lparr>af_Length := af_size b - 1\<rparr>)" "af_StuffingLength b = 0" "af_size b \<le> 184"
      by (auto simp: wf_given_def ok_af_def af_parsed_def)
    show ?thesis
    proof (cases "0 < ?room")
      case True
      with assms(3) Some have a: "a = b\<lparr>af_StuffingLength := ?room\<rparr>" by (simp add: stuffed_def)
      have size: "af_size a = af_size b + ?room" using b(3) by (simp add: a af_size_def)
      then have "af_size a = 184 - int (length bs)" by (simp add: Some af_room_def)
      moreover have "wf_af (a\<lparr>af_Length := af_size a - 1\<rparr>)"
        using b(2) True calculation by (simp add: wf_af_def a cong: if_cong)
      ultimately show ?thesis using b(1) by (simp add: a ok_af_def af_parsed_def)
    next
      case False
      with assms(3) Some have "a = b" by (simp add: stuffed_def)
      with False b assms(2) Some show ?thesis by (simp add: ok_af_def af_parsed_def af_room_def)
    qed
  qed
  then show "ok_af a" "int (length (af_wire a)) = 184 - int (length bs)" using length_af_wire[of a] by simp_all
qed

text \<open>The bytes of a data packet, and the packet as it is parsed.\<close>

definition packet_wire :: "Packet \<Rightarrow> byte list" where
  "packet_wire p = [syncByte] @ bits_to_bytes (header_bits (p_Header p)) @
     (case p_AdaptationField p of None \<Rightarrow> [] | Some af \<Rightarrow> af_wire af) @ p_Payload p"

definition packet_parsed :: "Packet \<Rightarrow> Packet" where
  "packet_parsed p = p\<lparr>p_AdaptationField := map_option af_parsed (p_AdaptationField p)\<rparr>"


lemma fits_4_cc: "0 \<le> c \<Longrightarrow> c < 16 \<Longrightarrow> fits 4 (word_of_int c :: uint8)"
  by (simp add: fits_def word_less_def unsigned_of_int take_bit_int_eq_self)

lemma dataHeader_af [simp]: "ph_HasAdaptationField (dataHeader pid cc b start) = b"
  by (simp add: dataHeader_def)

lemma wf_dataHeader: "fits 13 pid \<Longrightarrow> fits 4 cc \<Longrightarrow> wf_header (dataHeader pid cc b start)"
  by (simp add: wf_header_def dataHeader_def fits_def)

lemma p_data_packet:
  "p_AdaptationField (data_packet pid cc af start bs) = stuffed af (af_room af - int (length bs))"
  "p_Header (data_packet pid cc af start bs) = dataHeader pid cc (stuffed af (af_room af - int (length bs)) \<noteq> None) start"
  "p_Payload (data_packet pid cc af start bs) = bs"
  by (simp_all add: data_packet_def Let_def)

lemma length_packet_wire:
  assumes "wf_given af" and "int (length bs) \<le> af_room af"
  shows "length (packet_wire (data_packet pid cc af start bs)) = 188"
proof (cases "stuffed af (af_room af - int (length bs))")
  case None
  then have "af = None" "af_room af = int (length bs)" using assms(2) by (auto simp: stuffed_def split: if_splits)
  with None show ?thesis by (simp add: packet_wire_def p_data_packet af_room_def)
next
  case (Some a)
  from stuffed_wire(2)[OF assms Some] Some show ?thesis by (simp add: packet_wire_def p_data_packet)
qed

lemma parse_packet_wire:
  assumes "wf_given af" and "int (length bs) \<le> af_room af" and "fits 13 pid" and "fits 4 cc"
  shows "parseBytes refIterator (parsePacket refIterator) (packet_wire (data_packet pid cc af start bs)) =
    Some (Inr (packet_parsed (data_packet pid cc af start bs)))"
proof -
  let ?af = "stuffed af (af_room af - int (length bs))"
  let ?w = "case ?af of None \<Rightarrow> [] | Some a \<Rightarrow> af_wire a"
  let ?h = "dataHeader pid cc (?af \<noteq> None) start" and ?p = "data_packet pid cc af start bs"
  have eq: "packet_wire ?p = [syncByte] @ bits_to_bytes (header_bits ?h) @ ?w @ bs"
    by (simp add: packet_wire_def p_data_packet)
  have st: "stands (packet_wire ?p) 4 ?w"
    unfolding stands_def eq by (intro exI[of _ "[syncByte] @ bits_to_bytes (header_bits ?h)"] exI[of _ bs]) simp
  have af: "ph_HasAdaptationField ?h = (?af \<noteq> None)" by (simp add: dataHeader_def)
  have field: "\<exists>off'. pwhen (ph_HasAdaptationField ?h) None
       (psome (pwrap ''astits: parsing packet adaptation field failed: '' (parsePacketAdaptationField refIterator)))
       (packet_wire ?p, 4) = Some (Inr (map_option af_parsed ?af, packet_wire ?p, off'))"
  proof (cases ?af)
    case None
    then show ?thesis by (simp add: af pwhen_def preturn_def)
  next
    case (Some a)
    from reads_af[OF stuffed_wire(1)[OF assms(1,2) Some]] st Some obtain off' where
      "parsePacketAdaptationField refIterator (packet_wire ?p, 4) = Some (Inr (af_parsed a, packet_wire ?p, off'))" by fastforce
    with Some show ?thesis by (simp add: af pwhen_def psome_def pbind_def pwrap_def preturn_def)
  qed
  have "payloadOffset 1 ?h (map_option af_parsed ?af) = Some (4 + int (length ?w))"
  proof (cases ?af)
    case None
    then show ?thesis by (simp add: payloadOffset_def af)
  next
    case (Some a)
    with stuffed_wire[OF assms(1,2) Some] length_af_wire[of a] show ?thesis
      by (auto simp: payloadOffset_def af af_parsed_def zeroAdaptationField_def split: if_splits)
  qed
  from parsePacket_parts[OF wf_dataHeader[OF assms(3,4)] eq length_packet_wire[OF assms(1,2)] field this]
  show ?thesis by (simp add: packet_parsed_def data_packet_def Let_def) (simp add: dataHeader_def)
qed

context bits_writer
begin

lemma emits_data_packet:
  assumes "wf_given af" and "int (length bs) \<le> af_room af"
  shows "emits view (writePacket W (data_packet pid cc af start bs) 188)
    (bytes_to_bits (packet_wire (data_packet pid cc af start bs))) 188"
proof -
  let ?p = "data_packet pid cc af start bs" and ?af = "stuffed af (af_room af - int (length bs))"
  let ?w = "case ?af of None \<Rightarrow> [] | Some a \<Rightarrow> af_wire a"
  have af: "ph_HasAdaptationField (p_Header ?p) = (?af \<noteq> None)" "p_AdaptationField ?p = ?af"
    by (simp_all add: p_data_packet dataHeader_def)
  have field: "emits view (wwhen (ph_HasAdaptationField (p_Header ?p)) 0
      (wcount k (wderef (p_AdaptationField ?p) (writePacketAdaptationField W)))) (bytes_to_bits ?w) (int (length ?w))" for k :: int
  proof (cases ?af)
    case None
    then show ?thesis by (simp add: af wwhen_def emits_wreturn)
  next
    case (Some a)
    from emits_wcount[OF emits_af[OF stuffed_wire(1)[OF assms Some]]] Some show ?thesis by (simp add: af wwhen_def wderef_def)
  qed
  have len: "4 + int (length ?w) + int (length bs) = 188"
    using length_packet_wire[OF assms, of pid cc start] by (simp add: packet_wire_def p_data_packet)
  have "bytes_to_bits (bits_to_bytes (header_bits (p_Header ?p))) = header_bits (p_Header ?p)"
    by (rule bytes_bits_inv) simp
  with emits_writePacket_parts[OF field, of 188] len show ?thesis
    by (simp add: p_data_packet dataHeader_def packet_wire_def del: bits_of_numeral)
qed

end


section \<open>The packets of a PES packet\<close>

text \<open>After the first packet each one takes 184 bytes; the last is stuffed.\<close>

function rest_packets :: "uint16 \<Rightarrow> nat \<Rightarrow> byte list \<Rightarrow> Packet list" where
  "rest_packets pid c d = (if d = [] then []
     else data_packet pid (word_of_nat c) None False (take 184 d) # rest_packets pid (Suc c mod 16) (drop 184 d))"
  by pat_completeness auto
termination by (relation "measure (\<lambda>(_, _, d). length d)") auto

declare rest_packets.simps [simp del]

text \<open>The number of bytes of data in the first packet, behind adaptation field and PES header.\<close>

definition first_chunk :: "PacketAdaptationField option \<Rightarrow> PESHeader \<Rightarrow> byte list \<Rightarrow> nat" where
  "first_chunk af h d = nat (min (af_room af - pes_head_size h) (int (length d)))"

definition data_packets :: "uint16 \<Rightarrow> nat \<Rightarrow> PacketAdaptationField option \<Rightarrow> PESHeader \<Rightarrow> byte list \<Rightarrow> Packet list" where
  "data_packets pid c af h d =
     (if d = [] then []
      else data_packet pid (word_of_nat c) af True
          (bits_to_bytes (pes_head_bits h (int (length d))) @ take (first_chunk af h d) d) #
        rest_packets pid (Suc c mod 16) (drop (first_chunk af h d) d))"

section \<open>The loop\<close>

text \<open>A muxer between two calls.\<close>

definition mux_ok :: "('w \<Rightarrow> wview) \<Rightarrow> 'w Muxer \<Rightarrow> bool" where
  "mux_ok view m \<longleftrightarrow> clean (view (mux_w m)) \<and> clean (view (mux_buf m)) \<and> mux_packetSize m = 188"

lemma ToPESStreamID_not_0: "ToPESStreamID t \<noteq> 0"
  by (simp add: ToPESStreamID_def)

lemma setStreamID_idem: "setStreamID ctx' (setStreamID ctx d) = setStreamID ctx d"
  by (simp add: setStreamID_def Let_def ToPESStreamID_not_0)

lemma setStreamID_keeps [simp]:
  "md_PID (setStreamID ctx d) = md_PID d" "md_AdaptationField (setStreamID ctx d) = md_AdaptationField d"
  "pes_Data (md_PES (setStreamID ctx d)) = pes_Data (md_PES d)"
  "pes_OptionalHeader (pes_Header (md_PES (setStreamID ctx d))) = pes_OptionalHeader (pes_Header (md_PES d))"
  by (simp_all add: setStreamID_def Let_def)

lemma setStuffing_keeps [simp]:
  "md_PID (setStuffing n d) = md_PID d" "md_PES (setStuffing n d) = md_PES d"
  "setStreamID ctx (setStuffing n d) = setStuffing n (setStreamID ctx d)"
  "setStuffing n (setStuffing k d) = setStuffing n d"
  by (simp_all add: setStuffing_def setStreamID_def Let_def option.map_comp o_def)

lemma wc_get_update [simp]: "(snd (wc_get c))\<lparr>wc_value := v\<rparr> = c\<lparr>wc_value := v\<rparr>"
  by (simp add: wc_get_def Let_def)

text \<open>What the calls leave of the muxer: its writers, and the counter of the stream.\<close>

definition advanced :: "uint16 \<Rightarrow> esContext \<Rightarrow> nat \<Rightarrow> 'x Muxer \<Rightarrow> 'x Muxer \<Rightarrow> bool" where
  "advanced pid ctx n m m' \<longleftrightarrow>
     (\<exists>w buf es. m' = m\<lparr>mux_w := w, mux_buf := buf, mux_esContexts := es\<rparr> \<and>
        (\<forall>q. q \<noteq> pid \<longrightarrow> Mapping.lookup es q = Mapping.lookup (mux_esContexts m) q) \<and>
        Mapping.lookup es pid = Some (ctx\<lparr>ec_cc := (ec_cc ctx)\<lparr>wc_value := (wc_value (ec_cc ctx) + int n) mod 16\<rparr>\<rparr>))"

context bits_writer
begin

lemma Reset_clean: "clean (view w) \<Longrightarrow> clean (view (bw_Reset W w))"
  by (simp add: Reset clean_def)

lemma writeDataPacket_ok:
  fixes cc :: uint8
  assumes ok: "mux_ok view (ws_m s)" and af: "af = (if ws_writeAf s then md_AdaptationField (ws_d s) else None)"
    and given: "wf_given af" "ws_writeAf s \<longrightarrow> af \<noteq> None" and room: "int (length bs) \<le> af_room af"
    and pes: "emits view (writePESData W (pes_Header (md_PES (setStreamID (ws_ctx s) (ws_d s))))
      (drop (nat (ws_payloadBytesWritten s)) (pes_Data (md_PES (ws_d s)))) (ws_payloadStart s) (af_room af))
      (bytes_to_bits bs) (int (length bs), n)"
  defines "pkt \<equiv> data_packet (md_PID (ws_d s)) cc af (ws_payloadStart s) bs"
  shows "\<exists>w' buf'. writeDataPacket W cc (af_room af) s = Continue (s\<lparr>ws_m := (ws_m s)\<lparr>mux_w := w', mux_buf := buf'\<rparr>,
      ws_d := (if int (length bs) < af_room af \<and> ws_writeAf s then setStuffing (af_room af - int (length bs)) (setStreamID (ws_ctx s) (ws_d s))
        else setStreamID (ws_ctx s) (ws_d s)),
      ws_payloadStart := False, ws_writeAf := False,
      ws_payloadBytesWritten := ws_payloadBytesWritten s + n, ws_bytesWritten := ws_bytesWritten s + 188\<rparr>) \<and>
    view w' = feed (bytes_to_bits (packet_wire pkt)) (view (mux_w (ws_m s))) \<and>
    mux_ok view ((ws_m s)\<lparr>mux_w := w', mux_buf := buf'\<rparr>)"
proof -
  let ?m = "ws_m s" and ?d = "setStreamID (ws_ctx s) (ws_d s)"
  let ?b = "bw_Reset W (mux_buf ?m)"
  let ?r = "af_room af - int (length bs)"
  have cb: "clean (view ?b)" using ok by (simp add: mux_ok_def Reset_clean)
  from pes clean_ok[OF cb] obtain buf where buf: "writePESData W (pes_Header (md_PES ?d))
      (drop (nat (ws_payloadBytesWritten s)) (pes_Data (md_PES (ws_d s)))) (ws_payloadStart s) (af_room af) ?b = (Inr (int (length bs), n), buf)"
      "view buf = feed (bytes_to_bits bs) (view ?b)"
    unfolding emits_def by blast
  have bytes: "bw_Bytes W buf = bs" using cb by (simp add: Bytes buf(2) feed_def clean_def Reset)
  have cbuf: "clean (view buf)" using cb by (simp add: buf(2) clean_feed)
  have cw: "clean (view (mux_w ?m))" "mux_packetSize ?m = 188" using ok by (simp_all add: mux_ok_def)
  from emits_data_packet[OF given(1) room, of "md_PID (ws_d s)" cc "ws_payloadStart s"] clean_ok[OF cw(1)] obtain w where
    w: "writePacket W pkt 188 (mux_w ?m) = (Inr 188, w)" "view w = feed (bytes_to_bits (packet_wire pkt)) (view (mux_w ?m))"
    unfolding emits_def pkt_def by blast
  have "clean (view w)" using cw by (simp add: w(2) clean_feed)
  have pkt: "\<lparr>p_AdaptationField = (if ws_writeAf s then md_AdaptationField
        (if ?r > 0 \<and> ws_writeAf s then setStuffing ?r ?d else ?d)
        else if ?r > 0 then Some (newStuffingAdaptationField ?r) else None),
      p_Header = dataHeader (md_PID (if ?r > 0 \<and> ws_writeAf s then setStuffing ?r ?d else ?d)) cc (ws_writeAf s \<or> ?r > 0) (ws_payloadStart s),
      p_Payload = bs\<rparr> = pkt"
    using given(2) af by (auto simp: pkt_def data_packet_def stuffed_def Let_def setStuffing_def split: option.splits)
  have "writeDataPacket W cc (af_room af) s = Continue (s\<lparr>ws_m := ?m\<lparr>mux_w := w, mux_buf := buf\<rparr>,
      ws_d := (if ?r > 0 \<and> ws_writeAf s then setStuffing ?r ?d else ?d), ws_payloadStart := False, ws_writeAf := False,
      ws_payloadBytesWritten := ws_payloadBytesWritten s + n, ws_bytesWritten := ws_bytesWritten s + 188\<rparr>)"
    unfolding writeDataPacket_def Let_def setStreamID_keeps buf(1) sum.case prod.case bytes pkt
    by (simp add: cw(2) w(1))
  moreover have "mux_ok view (?m\<lparr>mux_w := w, mux_buf := buf\<rparr>)" using \<open>clean (view w)\<close> cbuf cw by (simp add: mux_ok_def)
  ultimately show ?thesis using w(2) by (intro exI[of _ w] exI[of _ buf]) simp
qed


text \<open>One turn for the packets after the first.\<close>

lemma writeDataTurn_rest:
  assumes ok: "mux_ok view (ws_m s)" and st: "\<not> ws_payloadStart s" "\<not> ws_writeAf s" "0 \<le> ws_payloadBytesWritten s"
    and sid: "pes_StreamID (pes_Header (md_PES (ws_d s))) \<noteq> 0"
    and left: "drop (nat (ws_payloadBytesWritten s)) (pes_Data (md_PES (ws_d s))) = r" "r \<noteq> []"
  defines "c \<equiv> ec_cc (ws_ctx s)"
  defines "ctx' \<equiv> (ws_ctx s)\<lparr>ec_cc := snd (wc_get c)\<rparr>"
  shows "\<exists>w' buf'. writeDataTurn W s = Continue (s\<lparr>ws_ctx := ctx',
      ws_m := (ws_m s)\<lparr>mux_w := w', mux_buf := buf', mux_esContexts := Mapping.update (md_PID (ws_d s)) ctx' (mux_esContexts (ws_m s))\<rparr>,
      ws_payloadStart := False, ws_writeAf := False,
      ws_payloadBytesWritten := ws_payloadBytesWritten s + int (length (take 184 r)),
      ws_bytesWritten := ws_bytesWritten s + 188\<rparr>) \<and>
    view w' = feed (bytes_to_bits (packet_wire (data_packet (md_PID (ws_d s)) (word_of_int (wc_value c)) None False (take 184 r))))
      (view (mux_w (ws_m s))) \<and>
    mux_ok view ((ws_m s)\<lparr>mux_w := w', mux_buf := buf', mux_esContexts := Mapping.update (md_PID (ws_d s)) ctx' (mux_esContexts (ws_m s))\<rparr>)"
proof -
  let ?m1 = "(ws_m s)\<lparr>mux_esContexts := Mapping.update (md_PID (ws_d s)) ctx' (mux_esContexts (ws_m s))\<rparr>"
  let ?s1 = "s\<lparr>ws_m := ?m1, ws_ctx := ctx'\<rparr>"
  have lt: "ws_payloadBytesWritten s < int (length (pes_Data (md_PES (ws_d s))))"
  proof (rule ccontr)
    assume "\<not> ?thesis"
    then have "length (pes_Data (md_PES (ws_d s))) \<le> nat (ws_payloadBytesWritten s)" by linarith
    with left show False by simp
  qed
  have ok1: "mux_ok view ?m1" and size: "mux_packetSize (ws_m s) = 188" using ok by (simp_all add: mux_ok_def)
  have same: "setStreamID ctx' (ws_d s) = ws_d s" using sid by (simp add: setStreamID_def Let_def)
  have room: "af_room None = 184" by (simp add: af_room_def)
  have pes: "emits view (writePESData W h r False 184) (bytes_to_bits (take 184 r)) (int (length (take 184 r)), int (length (take 184 r)))" for h
    by (rule emits_conv[OF emits_writePESData_rest[of 184 h r]]) (cases "length r \<le> 184"; simp add: min_def)+
  have g: "wc_get (ec_cc (ws_ctx s)) = (wc_value c, snd (wc_get c))" by (simp add: c_def prod_eq_iff)
  have turn: "writeDataTurn W s = writeDataPacket W (word_of_int (wc_value c)) 184 ?s1"
    unfolding writeDataTurn_def Let_def g prod.case ctx'_def[symmetric] mpegTsPacketHeaderSize_def using lt st size by simp
  have "\<exists>w' buf'. writeDataPacket W (word_of_int (wc_value c)) (af_room None) ?s1 = Continue (?s1\<lparr>ws_m := ?m1\<lparr>mux_w := w', mux_buf := buf'\<rparr>,
      ws_d := ws_d s, ws_payloadStart := False, ws_writeAf := False,
      ws_payloadBytesWritten := ws_payloadBytesWritten s + int (length (take 184 r)), ws_bytesWritten := ws_bytesWritten s + 188\<rparr>) \<and>
    view w' = feed (bytes_to_bits (packet_wire (data_packet (md_PID (ws_d s)) (word_of_int (wc_value c)) None False (take 184 r)))) (view (mux_w ?m1)) \<and>
    mux_ok view (?m1\<lparr>mux_w := w', mux_buf := buf'\<rparr>)"
    using writeDataPacket_ok[of ?s1 None "take 184 r" "int (length (take 184 r))" "word_of_int (wc_value c)"] ok1 st left(1) pes room
    by (simp add: same wf_given_def)
  then obtain w' buf' where w': "writeDataPacket W (word_of_int (wc_value c)) 184 ?s1 = Continue (?s1\<lparr>ws_m := ?m1\<lparr>mux_w := w', mux_buf := buf'\<rparr>,
      ws_d := ws_d s, ws_payloadStart := False, ws_writeAf := False,
      ws_payloadBytesWritten := ws_payloadBytesWritten s + int (length (take 184 r)), ws_bytesWritten := ws_bytesWritten s + 188\<rparr>)"
    "view w' = feed (bytes_to_bits (packet_wire (data_packet (md_PID (ws_d s)) (word_of_int (wc_value c)) None False (take 184 r)))) (view (mux_w ?m1))"
    "mux_ok view (?m1\<lparr>mux_w := w', mux_buf := buf'\<rparr>)" unfolding room by blast
  show ?thesis unfolding turn by (rule exI[of _ w'], rule exI[of _ buf']) (use w' in \<open>simp add: mux_ok_def\<close>)
qed

lemma loop_rest:
  assumes "mux_ok view (ws_m s)" and "\<not> ws_payloadStart s" and "\<not> ws_writeAf s" and "0 \<le> ws_payloadBytesWritten s"
    and "pes_StreamID (pes_Header (md_PES (ws_d s))) \<noteq> 0"
    and "Mapping.lookup (mux_esContexts (ws_m s)) (md_PID (ws_d s)) = Some (ws_ctx s)"
    and "wc_inv (ec_cc (ws_ctx s))" and "wrapAt (ec_cc (ws_ctx s)) = 15"
    and "r = drop (nat (ws_payloadBytesWritten s)) (pes_Data (md_PES (ws_d s)))"
    and "pkts = rest_packets (md_PID (ws_d s)) (nat (wc_value (ec_cc (ws_ctx s)))) r"
  shows "\<exists>m'. goLoop (\<lambda>s. Some (writeDataTurn W s)) s = Some ((ws_bytesWritten s + 188 * int (length pkts), None), m', setStuffing 0 (ws_d s)) \<and>
    view (mux_w m') = feed (bytes_to_bits (concat (map packet_wire pkts))) (view (mux_w (ws_m s))) \<and>
    mux_ok view m' \<and> advanced (md_PID (ws_d s)) (ws_ctx s) (length pkts) (ws_m s) m'"
  using assms
proof (induction "length r" arbitrary: s r pkts rule: less_induct)
  case less
  let ?c = "ec_cc (ws_ctx s)" and ?pid = "md_PID (ws_d s)"
  have val: "0 \<le> wc_value ?c" "wc_value ?c < 16" using less.prems(7,8) by (simp_all add: wc_inv_def)
  show ?case
  proof (cases "r = []")
    case True
    with less.prems(9,4) have "\<not> ws_payloadBytesWritten s < int (length (pes_Data (md_PES (ws_d s))))" by simp
    then have "writeDataTurn W s = Return ((ws_bytesWritten s, None), ws_m s, setStuffing 0 (ws_d s))"
      by (simp add: writeDataTurn_def Let_def)
    moreover have "pkts = []" using True less.prems(10) by (simp add: rest_packets.simps)
    moreover have "advanced ?pid (ws_ctx s) 0 (ws_m s) (ws_m s)"
      using less.prems(6) val unfolding advanced_def
      by (intro exI[of _ "mux_w (ws_m s)"] exI[of _ "mux_buf (ws_m s)"] exI[of _ "mux_esContexts (ws_m s)"]) simp
    ultimately show ?thesis
      using less.prems(1) by (simp add: goLoop_Return feed_Nil clean_ok mux_ok_def)
  next
    case False
    let ?ctx = "(ws_ctx s)\<lparr>ec_cc := snd (wc_get ?c)\<rparr>" and ?p = "data_packet ?pid (word_of_int (wc_value ?c)) None False (take 184 r)"
    from writeDataTurn_rest[OF less.prems(1-5) less.prems(9)[symmetric] False] obtain w' buf' s' where
      s': "s' = s\<lparr>ws_ctx := ?ctx,
        ws_m := (ws_m s)\<lparr>mux_w := w', mux_buf := buf', mux_esContexts := Mapping.update ?pid ?ctx (mux_esContexts (ws_m s))\<rparr>,
        ws_payloadStart := False, ws_writeAf := False,
        ws_payloadBytesWritten := ws_payloadBytesWritten s + int (length (take 184 r)),
        ws_bytesWritten := ws_bytesWritten s + 188\<rparr>" and turn: "writeDataTurn W s = Continue s'"
      and v: "view w' = feed (bytes_to_bits (packet_wire ?p)) (view (mux_w (ws_m s)))" and ok: "mux_ok view (ws_m s')" by auto
    have cc: "wc_value (snd (wc_get ?c)) = (wc_value ?c + 1) mod 16" using wc_get_mod[OF less.prems(7)] less.prems(8) by simp
    then have "nat (wc_value (snd (wc_get ?c))) = Suc (nat (wc_value ?c)) mod 16"
      using val by (simp add: nat_mod_distrib Suc_nat_eq_nat_zadd1 add.commute)
    moreover have "word_of_nat (nat (wc_value ?c)) = (word_of_int (wc_value ?c) :: uint8)" using val by simp
    ultimately have pkts: "pkts = ?p # rest_packets ?pid (nat (wc_value (ec_cc ?ctx))) (drop 184 r)"
      unfolding less.prems(10) by (subst rest_packets.simps) (simp add: False)
    let ?rest = "rest_packets ?pid (nat (wc_value (ec_cc ?ctx))) (drop 184 r)"
    have drop: "drop 184 r = drop (nat (ws_payloadBytesWritten s')) (pes_Data (md_PES (ws_d s')))"
      using less.prems(4,9) by (simp add: s' nat_add_distrib min_def add.commute)
    have "\<exists>m'. goLoop (\<lambda>s. Some (writeDataTurn W s)) s' = Some ((ws_bytesWritten s' + 188 * int (length ?rest), None), m', setStuffing 0 (ws_d s')) \<and>
      view (mux_w m') = feed (bytes_to_bits (concat (map packet_wire ?rest))) (view (mux_w (ws_m s'))) \<and>
      mux_ok view m' \<and> advanced (md_PID (ws_d s')) (ws_ctx s') (length ?rest) (ws_m s') m'"
      by (rule less.hyps[OF _ ok _ _ _ _ _ _ _ drop])
        (use False less.prems wc_inv_get[OF less.prems(7)] in \<open>simp_all add: s' lookup_update\<close>)
    then obtain m' where m': "goLoop (\<lambda>s. Some (writeDataTurn W s)) s' = Some ((ws_bytesWritten s + 188 + 188 * int (length ?rest), None), m', setStuffing 0 (ws_d s))"
      "view (mux_w m') = feed (bytes_to_bits (concat (map packet_wire ?rest))) (view w')" "mux_ok view m'"
      "advanced ?pid ?ctx (length ?rest) (ws_m s') m'" by (auto simp: s')
    have "wview_ok (view (mux_w (ws_m s)))" using less.prems(1) by (simp add: mux_ok_def clean_ok)
    then have "view (mux_w m') = feed (bytes_to_bits (concat (map packet_wire pkts))) (view (mux_w (ws_m s)))"
      by (simp add: m'(2) v pkts feed_append)
    moreover have "advanced ?pid (ws_ctx s) (length pkts) (ws_m s) m'"
      using m'(4) unfolding advanced_def
      by (auto simp: s' pkts cc lookup_update_neq mod_simps add.assoc)
    moreover have "goLoop (\<lambda>s. Some (writeDataTurn W s)) s = Some ((ws_bytesWritten s + 188 * int (length pkts), None), m', setStuffing 0 (ws_d s))"
      using m'(1) goLoop_Continue[of "\<lambda>s. Some (writeDataTurn W s)" s s'] turn by (simp add: pkts)
    ultimately show ?thesis using m'(3) by blast
  qed
qed


text \<open>The first turn, where the PES header fits behind the adaptation field.\<close>

lemma writeDataTurn_first:
  assumes ok: "mux_ok view (ws_m s)" and st: "ws_payloadStart s" "ws_writeAf s = (md_AdaptationField (ws_d s) \<noteq> None)"
      "ws_payloadBytesWritten s = 0"
    and h: "h = pes_Header (md_PES (setStreamID (ws_ctx s) (ws_d s)))" "wf_pes h"
    and af: "af = md_AdaptationField (ws_d s)" "wf_given af" "pes_head_size h \<le> af_room af"
    and d: "d = pes_Data (md_PES (ws_d s))" "d \<noteq> []"
  defines "c \<equiv> ec_cc (ws_ctx s)"
  defines "ctx' \<equiv> (ws_ctx s)\<lparr>ec_cc := snd (wc_get c)\<rparr>"
  shows "\<exists>w' buf' d'. writeDataTurn W s = Continue (s\<lparr>ws_ctx := ctx',
      ws_m := (ws_m s)\<lparr>mux_w := w', mux_buf := buf', mux_esContexts := Mapping.update (md_PID (ws_d s)) ctx' (mux_esContexts (ws_m s))\<rparr>,
      ws_d := d', ws_payloadStart := False, ws_writeAf := False, ws_payloadBytesWritten := int (first_chunk af h d),
      ws_bytesWritten := ws_bytesWritten s + 188\<rparr>) \<and>
    view w' = feed (bytes_to_bits (packet_wire (data_packet (md_PID (ws_d s)) (word_of_int (wc_value c)) af True
      (bits_to_bytes (pes_head_bits h (int (length d))) @ take (first_chunk af h d) d)))) (view (mux_w (ws_m s))) \<and>
    mux_ok view ((ws_m s)\<lparr>mux_w := w', mux_buf := buf', mux_esContexts := Mapping.update (md_PID (ws_d s)) ctx' (mux_esContexts (ws_m s))\<rparr>) \<and>
    (\<exists>n. d' = setStuffing n (setStreamID (ws_ctx s) (ws_d s)) \<or> d' = setStreamID (ws_ctx s) (ws_d s))"
proof -
  let ?m1 = "(ws_m s)\<lparr>mux_esContexts := Mapping.update (md_PID (ws_d s)) ctx' (mux_esContexts (ws_m s))\<rparr>"
  let ?s1 = "s\<lparr>ws_m := ?m1, ws_ctx := ctx'\<rparr>" and ?k = "first_chunk af h d"
  let ?bs = "bits_to_bytes (pes_head_bits h (int (length d))) @ take ?k d"
  have ok1: "mux_ok view ?m1" and size: "mux_packetSize (ws_m s) = 188" using ok by (simp_all add: mux_ok_def)
  have sid: "setStreamID ctx' (ws_d s) = setStreamID (ws_ctx s) (ws_d s)" by (simp add: setStreamID_def ctx'_def Let_def)
  have k: "int ?k = min (af_room af - pes_head_size h) (int (length d))" using af(3) by (simp add: first_chunk_def)
  have k': "?k \<le> length d" using k by linarith
  have len: "int (length ?bs) = pes_head_size h + int ?k"
    using length_pes_head_bits[OF h(2), of "int (length d)"] k' by (simp add: zdiv_int)
  then have room: "int (length ?bs) \<le> af_room af" using k by linarith
  have nat: "nat (min (af_room af - pes_head_size h) (int (length d))) = ?k" by (simp add: first_chunk_def)
  have pes: "emits view (writePESData W h d True (af_room af)) (bytes_to_bits ?bs) (int (length ?bs), int ?k)"
    by (rule emits_conv[OF emits_writePESData_start[OF h(2) af(3), of d]])
      (use pes_head_bits_aligned[OF h(2)] in \<open>simp_all only: nat k len bytes_to_bits_simps bytes_bits_inv\<close>)
  have g: "wc_get (ec_cc (ws_ctx s)) = (wc_value c, snd (wc_get c))" by (simp add: c_def prod_eq_iff)
  have aflen: "(if md_AdaptationField (ws_d s) \<noteq> None
      then map_option (\<lambda>n. 1 + uint n) (Option.bind (md_AdaptationField (ws_d s)) calcPacketAdaptationFieldLength) else Some 0) =
      Some (184 - af_room af)"
  proof (cases af)
    case None
    then show ?thesis using af(1) by (simp add: af_room_def)
  next
    case (Some a)
    with af(2) have wf: "wf_af (a\<lparr>af_Length := af_size a - 1\<rparr>)" and "af_size a \<le> 184"
      by (auto simp: wf_given_def ok_af_def af_parsed_def)
    moreover have "calcPacketAdaptationFieldLength (a\<lparr>af_Length := n\<rparr>) = calcPacketAdaptationFieldLength a" for n
      by (simp add: calcPacketAdaptationFieldLength_def)
    ultimately have "calcPacketAdaptationFieldLength a = Some (word_of_int (af_size a - 1))" and
      "uint (word_of_int (af_size a - 1) :: uint8) = af_size a - 1"
      using calc_af[OF wf] af_size_bounds[OF wf] by (simp_all add: unsigned_of_int take_bit_int_eq_self del: of_int_diff)
    then show ?thesis using Some af(1) by (simp add: af_room_def del: of_int_diff)
  qed
  have fit: "\<not> af_room af < pesHeaderLength + uint (calcPESOptionalHeaderLength (pes_OptionalHeader (pes_Header (md_PES (ws_d s)))))"
    using af(3) pes_opt_size_calc[OF h(2)] h(1) by (simp add: pes_head_size_def pesHeaderLength_def)
  have av: "mux_packetSize ?m1 - (1 + mpegTsPacketHeaderSize + (184 - af_room af)) = af_room af"
    using size by (simp add: mpegTsPacketHeaderSize_def)
  have "ws_payloadBytesWritten s < int (length (pes_Data (md_PES (ws_d s))))" using st(3) d by simp
  moreover have s1: "ws_writeAf ?s1 = ws_writeAf s" "ws_payloadStart ?s1 = ws_payloadStart s" by simp_all
  ultimately have turn: "writeDataTurn W s = writeDataPacket W (word_of_int (wc_value c)) (af_room af) ?s1"
    unfolding writeDataTurn_def Let_def g prod.case ctx'_def[symmetric]
    by (simp only: s1 aflen[folded st(2)] option.case av fit not_not if_False simp_thms)
  let ?d' = "if int (length ?bs) < af_room af \<and> ws_writeAf s then setStuffing (af_room af - int (length ?bs)) (setStreamID (ws_ctx s) (ws_d s))
        else setStreamID (ws_ctx s) (ws_d s)"
  have "\<exists>w' buf'. writeDataPacket W (word_of_int (wc_value c)) (af_room af) ?s1 = Continue (?s1\<lparr>ws_m := ?m1\<lparr>mux_w := w', mux_buf := buf'\<rparr>,
      ws_d := ?d', ws_payloadStart := False, ws_writeAf := False,
      ws_payloadBytesWritten := 0 + int ?k, ws_bytesWritten := ws_bytesWritten s + 188\<rparr>) \<and>
    view w' = feed (bytes_to_bits (packet_wire (data_packet (md_PID (ws_d s)) (word_of_int (wc_value c)) af True ?bs))) (view (mux_w ?m1)) \<and>
    mux_ok view (?m1\<lparr>mux_w := w', mux_buf := buf'\<rparr>)"
  proof -
    have 1: "mux_ok view (ws_m ?s1)" "af = (if ws_writeAf ?s1 then md_AdaptationField (ws_d ?s1) else None)"
      "ws_writeAf ?s1 \<longrightarrow> af \<noteq> None" using ok1 st(2) af(1) by simp_all
    have 2: "emits view (writePESData W (pes_Header (md_PES (setStreamID (ws_ctx ?s1) (ws_d ?s1))))
      (drop (nat (ws_payloadBytesWritten ?s1)) (pes_Data (md_PES (ws_d ?s1)))) (ws_payloadStart ?s1) (af_room af))
      (bytes_to_bits ?bs) (int (length ?bs), int ?k)"
      using pes st(1,3) by (simp add: sid h(1) d(1))
    from writeDataPacket_ok[OF 1(1,2) af(2) 1(3) room 2, of "word_of_int (wc_value c)"] st(1,3) show ?thesis
      by (simp add: sid del: length_append cong: if_cong)
  qed
  then obtain w' buf' where w': "writeDataPacket W (word_of_int (wc_value c)) (af_room af) ?s1 = Continue (?s1\<lparr>ws_m := ?m1\<lparr>mux_w := w', mux_buf := buf'\<rparr>,
      ws_d := ?d', ws_payloadStart := False, ws_writeAf := False,
      ws_payloadBytesWritten := 0 + int ?k, ws_bytesWritten := ws_bytesWritten s + 188\<rparr>)"
    "view w' = feed (bytes_to_bits (packet_wire (data_packet (md_PID (ws_d s)) (word_of_int (wc_value c)) af True ?bs))) (view (mux_w ?m1))"
    "mux_ok view (?m1\<lparr>mux_w := w', mux_buf := buf'\<rparr>)" by blast
  have "\<exists>n. ?d' = setStuffing n (setStreamID (ws_ctx s) (ws_d s)) \<or> ?d' = setStreamID (ws_ctx s) (ws_d s)" by auto
  then show ?thesis unfolding turn
    by (intro exI[of _ w'] exI[of _ buf'] exI[of _ ?d']) (use w' in \<open>simp add: mux_ok_def\<close>)
qed


lemma loop_data:
  assumes "mux_ok view m" and "wc_inv (ec_cc ctx)" and "wrapAt (ec_cc ctx) = 15"
    and "h = pes_Header (md_PES (setStreamID ctx md))" "wf_pes h"
    and "af = md_AdaptationField md" "wf_given af" "pes_head_size h \<le> af_room af"
    and "d = pes_Data (md_PES md)" "d \<noteq> []"
  defines "pkts \<equiv> data_packets (md_PID md) (nat (wc_value (ec_cc ctx))) af h d"
  shows "\<exists>m'. goLoop (\<lambda>s. Some (writeDataTurn W s)) \<lparr>ws_m = m, ws_ctx = ctx, ws_d = md, ws_payloadStart = True,
      ws_writeAf = md_AdaptationField md \<noteq> None, ws_payloadBytesWritten = 0, ws_bytesWritten = n\<rparr> =
      Some ((n + 188 * int (length pkts), None), m', setStuffing 0 (setStreamID ctx md)) \<and>
    view (mux_w m') = feed (bytes_to_bits (concat (map packet_wire pkts))) (view (mux_w m)) \<and>
    mux_ok view m' \<and> advanced (md_PID md) ctx (length pkts) m m'"
proof -
  let ?s = "\<lparr>ws_m = m, ws_ctx = ctx, ws_d = md, ws_payloadStart = True,
      ws_writeAf = md_AdaptationField md \<noteq> None, ws_payloadBytesWritten = 0, ws_bytesWritten = n\<rparr>"
  let ?c = "ec_cc ctx" and ?pid = "md_PID md" and ?k = "first_chunk af h d"
  let ?ctx = "ctx\<lparr>ec_cc := snd (wc_get ?c)\<rparr>"
  let ?p = "data_packet ?pid (word_of_int (wc_value ?c)) af True (bits_to_bytes (pes_head_bits h (int (length d))) @ take ?k d)"
  have val: "0 \<le> wc_value ?c" "wc_value ?c < 16" using assms(2,3) by (simp_all add: wc_inv_def)
  let ?m' = "\<lambda>w' buf'. m\<lparr>mux_w := w', mux_buf := buf', mux_esContexts := Mapping.update ?pid ?ctx (mux_esContexts m)\<rparr>"
  let ?s' = "\<lambda>w' buf' d'. ?s\<lparr>ws_ctx := ?ctx, ws_m := ?m' w' buf',
        ws_d := d', ws_payloadStart := False, ws_writeAf := False, ws_payloadBytesWritten := int ?k, ws_bytesWritten := n + 188\<rparr>"
  have "\<exists>w' buf' d'. writeDataTurn W ?s = Continue (?s' w' buf' d') \<and>
      view w' = feed (bytes_to_bits (packet_wire ?p)) (view (mux_w m)) \<and> mux_ok view (?m' w' buf') \<and>
      (\<exists>n. d' = setStuffing n (setStreamID ctx md) \<or> d' = setStreamID ctx md)"
    using writeDataTurn_first[of ?s h af d] assms(1,4-10) by simp
  then obtain w' buf' d' where turn: "writeDataTurn W ?s = Continue (?s' w' buf' d')"
      and v: "view w' = feed (bytes_to_bits (packet_wire ?p)) (view (mux_w m))" and okm: "mux_ok view (?m' w' buf')"
      and d': "\<exists>n. d' = setStuffing n (setStreamID ctx md) \<or> d' = setStreamID ctx md" by blast
  define s' where s': "s' = ?s' w' buf' d'"
  have ok: "mux_ok view (ws_m s')" using okm by (simp add: s')
  from d' have d'': "md_PID d' = ?pid" "pes_Data (md_PES d') = d" "setStuffing 0 d' = setStuffing 0 (setStreamID ctx md)"
      "pes_StreamID (pes_Header (md_PES d')) \<noteq> 0"
    using assms(9) ToPESStreamID_not_0 by (auto simp: setStreamID_def Let_def split: if_splits)
  have cc: "wc_value (snd (wc_get ?c)) = (wc_value ?c + 1) mod 16" using wc_get_mod[OF assms(2)] assms(3) by simp
  then have nat: "nat (wc_value (ec_cc ?ctx)) = Suc (nat (wc_value ?c)) mod 16"
    using val by (simp add: nat_mod_distrib Suc_nat_eq_nat_zadd1 add.commute)
  let ?rest = "rest_packets ?pid (nat (wc_value (ec_cc ?ctx))) (drop ?k d)"
  have "word_of_nat (nat (wc_value ?c)) = (word_of_int (wc_value ?c) :: uint8)" using val by simp
  then have pkts: "pkts = ?p # ?rest"
    using assms(10) unfolding pkts_def data_packets_def nat by simp
  have "\<exists>m'. goLoop (\<lambda>s. Some (writeDataTurn W s)) s' = Some ((ws_bytesWritten s' + 188 * int (length ?rest), None), m', setStuffing 0 (ws_d s')) \<and>
      view (mux_w m') = feed (bytes_to_bits (concat (map packet_wire ?rest))) (view (mux_w (ws_m s'))) \<and>
      mux_ok view m' \<and> advanced (md_PID (ws_d s')) (ws_ctx s') (length ?rest) (ws_m s') m'"
    by (rule loop_rest[OF ok, where r = "drop ?k d"])
      (use assms(3) wc_inv_get[OF assms(2)] d'' in \<open>simp_all add: s' lookup_update\<close>)
  then obtain m' where m': "goLoop (\<lambda>s. Some (writeDataTurn W s)) s' =
      Some ((n + 188 + 188 * int (length ?rest), None), m', setStuffing 0 (setStreamID ctx md))"
    "view (mux_w m') = feed (bytes_to_bits (concat (map packet_wire ?rest))) (view w')" "mux_ok view m'"
    "advanced ?pid ?ctx (length ?rest) (ws_m s') m'" by (auto simp: s' d'')
  have "wview_ok (view (mux_w m))" using assms(1) by (simp add: mux_ok_def clean_ok)
  then have "view (mux_w m') = feed (bytes_to_bits (concat (map packet_wire pkts))) (view (mux_w m))"
    by (simp add: m'(2) v pkts feed_append)
  moreover have "advanced ?pid ctx (length pkts) m m'"
    using m'(4) unfolding advanced_def by (auto simp: s' pkts cc lookup_update_neq mod_simps add.assoc)
  moreover have "goLoop (\<lambda>s. Some (writeDataTurn W s)) ?s = Some ((n + 188 * int (length pkts), None), m', setStuffing 0 (setStreamID ctx md))"
    using m'(1) goLoop_Continue[of "\<lambda>s. Some (writeDataTurn W s)" ?s s'] turn by (simp add: pkts s')
  ultimately show ?thesis using m'(3) by blast
qed

end


section \<open>What the packets carry\<close>

text \<open>A packet cut from a PES packet on a PID.\<close>

definition cut_packet :: "uint16 \<Rightarrow> nat \<Rightarrow> bool \<Rightarrow> Packet \<Rightarrow> bool" where
  "cut_packet pid c start p \<longleftrightarrow> (\<exists>af bs. p = data_packet pid (word_of_nat c) af start bs \<and> wf_given af \<and> int (length bs) \<le> af_room af)"

lemma af_room_None [simp]: "af_room None = 184"
  by (simp add: af_room_def)

lemma rest_packets_payload: "concat (map p_Payload (rest_packets pid c d)) = d"
proof (induction pid c d rule: rest_packets.induct)
  case (1 pid c d)
  then show ?case by (subst rest_packets.simps) (simp add: p_data_packet)
qed

lemma rest_packets_cut:
  "i < length (rest_packets pid c d) \<Longrightarrow> cut_packet pid (if i = 0 then c else (c + i) mod 16) False (rest_packets pid c d ! i)"
proof (induction pid c d arbitrary: i rule: rest_packets.induct)
  case (1 pid c d)
  then have ne: "d \<noteq> []" by (auto simp: rest_packets.simps)
  then have eq: "rest_packets pid c d = data_packet pid (word_of_nat c) None False (take 184 d) # rest_packets pid (Suc c mod 16) (drop 184 d)"
    by (subst rest_packets.simps) simp
  have cut: "cut_packet pid c False (data_packet pid (word_of_nat c) None False (take 184 d))"
    unfolding cut_packet_def by (intro exI[of _ None] exI[of _ "take 184 d"]) (simp add: wf_given_def)
  show ?case
  proof (cases i)
    case 0
    with cut eq show ?thesis by simp
  next
    case (Suc j)
    with "1.prems" eq have "j < length (rest_packets pid (Suc c mod 16) (drop 184 d))" by simp
    from "1.IH"[OF ne this] have "cut_packet pid ((Suc c + j) mod 16) False (rest_packets pid (Suc c mod 16) (drop 184 d) ! j)"
      by (simp add: mod_simps split: if_splits)
    with Suc eq show ?thesis by simp
  qed
qed

lemma data_packets_payload:
  "wf_pes h \<Longrightarrow> d \<noteq> [] \<Longrightarrow> concat (map p_Payload (data_packets pid c af h d)) = pes_bytes h d"
  by (simp add: data_packets_def p_data_packet rest_packets_payload pes_bytes_def)

lemma data_packets_cut:
  assumes "wf_pes h" and "wf_given af" and "pes_head_size h \<le> af_room af" and "c < 16" and "i < length (data_packets pid c af h d)"
  shows "cut_packet pid ((c + i) mod 16) (i = 0) (data_packets pid c af h d ! i)"
proof -
  have ne: "d \<noteq> []" using assms(5) by (auto simp: data_packets_def)
  let ?bs = "bits_to_bytes (pes_head_bits h (int (length d))) @ take (first_chunk af h d) d"
  have "int (length ?bs) = pes_head_size h + int (first_chunk af h d)"
    using length_pes_head_bits[OF assms(1), of "int (length d)"] assms(3) by (simp add: zdiv_int first_chunk_def)
  then have "int (length ?bs) \<le> af_room af" using assms(3) by (simp add: first_chunk_def)
  with assms(2) have "cut_packet pid c True (data_packet pid (word_of_nat c) af True ?bs)"
    unfolding cut_packet_def by blast
  moreover have "cut_packet pid ((c + Suc j) mod 16) False (rest_packets pid (Suc c mod 16) r ! j)"
    if "j < length (rest_packets pid (Suc c mod 16) r)" for j r
    using rest_packets_cut[OF that] by (simp add: mod_simps split: if_splits)
  ultimately show ?thesis
    using assms(4,5) ne by (cases i) (simp_all add: data_packets_def)
qed

lemma cut_packet_facts:
  assumes "cut_packet pid c start p"
  shows "length (packet_wire p) = 188" and "ph_PID (p_Header p) = pid" and "ph_ContinuityCounter (p_Header p) = word_of_nat c"
    and "ph_PayloadUnitStartIndicator (p_Header p) = start" and "ph_HasPayload (p_Header p)" and "\<not> ph_TransportErrorIndicator (p_Header p)"
    and "fits 13 pid \<Longrightarrow> c < 16 \<Longrightarrow> parseBytes refIterator (parsePacket refIterator) (packet_wire p) = Some (Inr (packet_parsed p))"
proof -
  from assms obtain af bs where p: "p = data_packet pid (word_of_nat c) af start bs" "wf_given af" "int (length bs) \<le> af_room af"
    by (auto simp: cut_packet_def)
  show "length (packet_wire p) = 188" unfolding p(1) by (rule length_packet_wire[OF p(2,3)])
  show "ph_PID (p_Header p) = pid" "ph_ContinuityCounter (p_Header p) = word_of_nat c"
    "ph_PayloadUnitStartIndicator (p_Header p) = start" "ph_HasPayload (p_Header p)" "\<not> ph_TransportErrorIndicator (p_Header p)"
    by (simp_all add: p(1) p_data_packet dataHeader_def)
  show "parseBytes refIterator (parsePacket refIterator) (packet_wire p) = Some (Inr (packet_parsed p))" if "fits 13 pid" "c < 16"
  proof -
    have "fits 4 (word_of_nat c :: uint8)" using that(2) fits_4_cc[of "int c"] by simp
    from parse_packet_wire[OF p(2,3) that(1) this] show ?thesis by (simp add: p(1))
  qed
qed

section \<open>WriteData\<close>

text \<open>What a caller gives: data for a stream of the muxer that the first packet has room for.\<close>

definition wf_data :: "esContext \<Rightarrow> MuxerData \<Rightarrow> bool" where
  "wf_data ctx d \<longleftrightarrow> fits 13 (md_PID d) \<and> pes_Data (md_PES d) \<noteq> [] \<and> wf_given (md_AdaptationField d) \<and>
     wf_pes (pes_Header (md_PES (setStreamID ctx d))) \<and>
     pes_head_size (pes_Header (md_PES (setStreamID ctx d))) \<le> af_room (md_AdaptationField d)"

definition wf_ctx :: "esContext \<Rightarrow> bool" where
  "wf_ctx ctx \<longleftrightarrow> wc_inv (ec_cc ctx) \<and> wrapAt (ec_cc ctx) = 15"

text \<open>The call does not transmit the tables.\<close>

definition tables_not_due :: "'w Muxer \<Rightarrow> MuxerData \<Rightarrow> bool" where
  "tables_not_due m d \<longleftrightarrow> mux_tablesRetransmitCounter m + 1 < mux_tablesRetransmitPeriod m \<and>
     (\<forall>af. md_AdaptationField d = Some af \<longrightarrow> \<not> (af_RandomAccessIndicator af \<and> md_PID d = pmt_PCRPID (mux_pmt m)))"

lemma retransmitTables_not_due:
  assumes "tables_not_due m d"
  shows "retransmitTables W rng (case md_AdaptationField d of None \<Rightarrow> False | Some af \<Rightarrow>
      af_RandomAccessIndicator af \<and> md_PID d = pmt_PCRPID (mux_pmt m)) m =
    ((0, None), m\<lparr>mux_tablesRetransmitCounter := mux_tablesRetransmitCounter m + 1\<rparr>)"
  using assms by (auto simp: retransmitTables_def tables_not_due_def split: option.splits)

definition muxed_packets :: "esContext \<Rightarrow> MuxerData \<Rightarrow> Packet list" where
  "muxed_packets ctx d = data_packets (md_PID d) (nat (wc_value (ec_cc ctx))) (md_AdaptationField d)
     (pes_Header (md_PES (setStreamID ctx d))) (pes_Data (md_PES d))"

lemma muxed_packets_cut:
  assumes "wf_ctx ctx" and "wf_data ctx d" and "i < length (muxed_packets ctx d)"
  shows "cut_packet (md_PID d) ((nat (wc_value (ec_cc ctx)) + i) mod 16) (i = 0) (muxed_packets ctx d ! i)"
  using assms unfolding muxed_packets_def
  by (intro data_packets_cut) (auto simp: wf_data_def wf_ctx_def wc_inv_def nat_less_iff)

lemma muxed_packets_payload:
  "wf_data ctx d \<Longrightarrow> concat (map p_Payload (muxed_packets ctx d)) = pes_bytes (pes_Header (md_PES (setStreamID ctx d))) (pes_Data (md_PES d))"
  by (simp add: muxed_packets_def wf_data_def data_packets_payload)

context bits_writer
begin

lemma WriteData_ok:
  assumes ok: "mux_ok view m" and ctx: "Mapping.lookup (mux_esContexts m) (md_PID d) = Some ctx" "wf_ctx ctx"
    and d: "wf_data ctx d" "tables_not_due m d"
  defines "pkts \<equiv> muxed_packets ctx d"
  shows "\<exists>m'. WriteData W rng m d = Some ((188 * int (length pkts), None), m', setStuffing 0 (setStreamID ctx d)) \<and>
    bw_Bytes W (mux_w m') = bw_Bytes W (mux_w m) @ concat (map packet_wire pkts) \<and> mux_ok view m' \<and>
    advanced (md_PID d) ctx (length pkts) (m\<lparr>mux_tablesRetransmitCounter := mux_tablesRetransmitCounter m + 1\<rparr>) m'"
proof -
  let ?m = "m\<lparr>mux_tablesRetransmitCounter := mux_tablesRetransmitCounter m + 1\<rparr>"
  have "mux_ok view ?m" using ok by (simp add: mux_ok_def)
  from loop_data[OF this, where ctx = ctx and md = d and n = 0, OF _ _ refl _ refl _ _ refl] ctx(2) d(1) obtain m' where
    m': "goLoop (\<lambda>s. Some (writeDataTurn W s)) \<lparr>ws_m = ?m, ws_ctx = ctx, ws_d = d, ws_payloadStart = True,
      ws_writeAf = md_AdaptationField d \<noteq> None, ws_payloadBytesWritten = 0, ws_bytesWritten = 0\<rparr> =
      Some ((188 * int (length pkts), None), m', setStuffing 0 (setStreamID ctx d))"
    "view (mux_w m') = feed (bytes_to_bits (concat (map packet_wire pkts))) (view (mux_w m))"
    "mux_ok view m'" "advanced (md_PID d) ctx (length pkts) ?m m'"
    by (auto simp: wf_ctx_def wf_data_def pkts_def muxed_packets_def)
  have "bw_Bytes W (mux_w m') = bw_Bytes W (mux_w m) @ concat (map packet_wire pkts)"
    using ok by (simp add: Bytes m'(2) feed_def mux_ok_def clean_def)
  moreover have "WriteData W rng m d = Some ((188 * int (length pkts), None), m', setStuffing 0 (setStreamID ctx d))"
    using m'(1) ctx(1) retransmitTables_not_due[OF d(2)] by (simp add: WriteData_def)
  ultimately show ?thesis using m'(3,4) by blast
qed

end


section \<open>Properties\<close>

text \<open>
  \<^bold>\<open>C2\<close>. \<^verbatim>\<open>WriteData\<close> cuts a PES packet into transport packets. For a stream of the muxer
  and well-formed data whose PES header fits behind the adaptation field, when the tables are not due,
  the call ends without an error and writes whole packets of 188 bytes. They parse as packets of the
  PID, with continuity counters that count on from the stream's counter, the first and only the first
  marked as the start of a unit, and \<^verbatim>\<open>parsePESData\<close> reads from their payloads, joined, the header
  and the data of the caller. The stuffing of the caller's adaptation field is zero again.
\<close>

theorem WriteData_splits:
  assumes "astikit I W view" and "mux_ok view m" and "Mapping.lookup (mux_esContexts m) (md_PID d) = Some ctx"
    and "wf_ctx ctx" and "wf_data ctx d" and "tables_not_due m d"
  shows "\<exists>m' bss pkts. WriteData W rng m d = Some ((188 * int (length bss), None), m', setStuffing 0 (setStreamID ctx d)) \<and>
    bw_Bytes W (mux_w m') = bw_Bytes W (mux_w m) @ concat bss \<and>
    list_all2 (\<lambda>bs p. length bs = 188 \<and> parseBytes I (parsePacket I) bs = Some (Inr p)) bss pkts \<and>
    (\<forall>i<length pkts. ph_PID (p_Header (pkts ! i)) = md_PID d \<and>
       ph_ContinuityCounter (p_Header (pkts ! i)) = word_of_int ((wc_value (ec_cc ctx) + int i) mod 16) \<and>
       (ph_PayloadUnitStartIndicator (p_Header (pkts ! i)) \<longleftrightarrow> i = 0)) \<and>
    (let h = pes_Header (md_PES (setStreamID ctx d)); bs = pes_Data (md_PES d) in
     parseBytes I (parsePESData I) (concat (map p_Payload pkts)) = Some (Inr
       \<lparr>pes_Data = bs, pes_Header = h\<lparr>pes_PacketLength := word_of_int (pesPacketLength h (int (length bs)))\<rparr>\<rparr>))"
proof -
  note I = astikit.axioms(1)[OF assms(1)] and W = astikit.axioms(2)[OF assms(1)]
  let ?ps = "muxed_packets ctx d" and ?h = "pes_Header (md_PES (setStreamID ctx d))" and ?c = "nat (wc_value (ec_cc ctx))"
  note cut = muxed_packets_cut[OF assms(4,5)]
  have pid: "fits 13 (md_PID d)" and wf: "wf_pes ?h" using assms(5) by (simp_all add: wf_data_def)
  from bits_writer.WriteData_ok[OF W assms(2-6), of rng] obtain m' where
    m': "WriteData W rng m d = Some ((188 * int (length ?ps), None), m', setStuffing 0 (setStreamID ctx d))"
    "bw_Bytes W (mux_w m') = bw_Bytes W (mux_w m) @ concat (map packet_wire ?ps)" by blast
  have parse: "parseBytes I (parsePacket I) (packet_wire (?ps ! i)) = Some (Inr (packet_parsed (?ps ! i)))" if "i < length ?ps" for i
    by (rule bytes_iterator.parseBytes_transfer[OF I bytes_iterator.sim_parsePacket[OF I]
        cut_packet_facts(7)[OF cut[OF that] pid]]) simp_all
  have wires: "list_all2 (\<lambda>bs p. length bs = 188 \<and> parseBytes I (parsePacket I) bs = Some (Inr p))
      (map packet_wire ?ps) (map packet_parsed ?ps)"
    by (rule list_all2_all_nthI) (use cut_packet_facts(1)[OF cut] parse in simp_all)
  have "word_of_nat ((?c + i) mod 16) = (word_of_int ((wc_value (ec_cc ctx) + int i) mod 16) :: uint8)" for i
  proof -
    have "int ((?c + i) mod 16) = (wc_value (ec_cc ctx) + int i) mod 16"
      using assms(4) by (simp add: wf_ctx_def wc_inv_def zmod_int)
    then show ?thesis by (metis of_int_of_nat_eq)
  qed
  then have headers: "\<forall>i<length (map packet_parsed ?ps). ph_PID (p_Header (map packet_parsed ?ps ! i)) = md_PID d \<and>
       ph_ContinuityCounter (p_Header (map packet_parsed ?ps ! i)) = word_of_int ((wc_value (ec_cc ctx) + int i) mod 16) \<and>
       (ph_PayloadUnitStartIndicator (p_Header (map packet_parsed ?ps ! i)) \<longleftrightarrow> i = 0)"
    using cut_packet_facts(2-4)[OF cut] by (simp add: packet_parsed_def)
  have "concat (map p_Payload (map packet_parsed ?ps)) = pes_bytes ?h (pes_Data (md_PES d))"
    using muxed_packets_payload[OF assms(5)] by (simp add: packet_parsed_def o_def)
  with bytes_iterator.parseBytes_transfer[OF I bytes_iterator.sim_parsePESData[OF I] parsePESData_ref[OF wf]]
  have "parseBytes I (parsePESData I) (concat (map p_Payload (map packet_parsed ?ps))) = Some (Inr
     \<lparr>pes_Data = pes_Data (md_PES d), pes_Header = ?h\<lparr>pes_PacketLength := word_of_int (pesPacketLength ?h (int (length (pes_Data (md_PES d)))))\<rparr>\<rparr>)"
    by simp
  with m' wires headers show ?thesis
    by (intro exI[of _ m'] exI[of _ "map packet_wire ?ps"] exI[of _ "map packet_parsed ?ps"]) (simp add: Let_def)
qed


section \<open>Witnesses\<close>

definition sampleStream :: PMTElementaryStream where
  "sampleStream = \<lparr>es_ElementaryPID = 0x100, es_ElementaryStreamDescriptors = [], es_StreamType = StreamTypeH264Video\<rparr>"

text \<open>A muxer with one stream that has just transmitted its tables.\<close>

definition sampleMuxer :: "wview Muxer" where
  "sampleMuxer = (snd (AddElementaryStream (NewMuxer refWriter (bw_New refWriter) []) sampleStream))\<lparr>mux_tablesRetransmitCounter := 0\<rparr>"

definition sampleData :: MuxerData where
  "sampleData = \<lparr>md_PID = 0x100,
     md_AdaptationField = Some (zeroAdaptationField\<lparr>af_HasPCR := True, af_PCR := Some (newClockReference 5 6)\<rparr>),
     md_PES = \<lparr>pes_Data = replicate 400 7, pes_Header = samplePESHeader\<rparr>\<rparr>"

lemma sampleMuxer:
  "mux_ok (\<lambda>v. v) sampleMuxer" "Mapping.lookup (mux_esContexts sampleMuxer) (md_PID sampleData) = Some (newEsContext sampleStream)"
  "wf_ctx (newEsContext sampleStream)" "tables_not_due sampleMuxer sampleData"
  by (simp_all add: sampleMuxer_def AddElementaryStream_def NewMuxer_def sampleStream_def mux_ok_def refWriter_def clean_def
      MpegTsPacketSize_def sampleData_def lookup_update wf_ctx_def newEsContext_def newWrappingCounter_def wc_inv_def
      tables_not_due_def zeroAdaptationField_def)

lemma sampleData: "wf_data (newEsContext sampleStream) sampleData"
proof -
  have "pes_StreamID samplePESHeader \<noteq> 0" by (simp add: samplePESHeader_def)
  then have h: "pes_Header (md_PES (setStreamID ctx sampleData)) = samplePESHeader" for ctx by (simp add: setStreamID_def sampleData_def)
  show ?thesis
    using samplePES
    by (simp add: wf_data_def h) (simp add: sampleData_def fits_def wf_given_def ok_af_def af_parsed_def wf_af_def af_size_def
      zeroAdaptationField_def af_room_def newClockReference_def fits_pcr_def)
qed

theorem WriteData_splits_witness:
  "\<exists>m' bss pkts. WriteData refWriter sorted_list_of_set sampleMuxer sampleData =
      Some ((188 * int (length bss), None), m', setStuffing 0 (setStreamID (newEsContext sampleStream) sampleData)) \<and>
    bw_Bytes refWriter (mux_w m') = bw_Bytes refWriter (mux_w sampleMuxer) @ concat bss \<and>
    list_all2 (\<lambda>bs p. length bs = 188 \<and> parseBytes refIterator (parsePacket refIterator) bs = Some (Inr p)) bss pkts \<and>
    parseBytes refIterator (parsePESData refIterator) (concat (map p_Payload pkts)) = Some (Inr
       \<lparr>pes_Data = replicate 400 7, pes_Header = samplePESHeader\<lparr>pes_PacketLength := word_of_int (pesPacketLength samplePESHeader 400)\<rparr>\<rparr>)"
proof -
  have "pes_StreamID samplePESHeader \<noteq> 0" by (simp add: samplePESHeader_def)
  then have h: "pes_Header (md_PES (setStreamID ctx sampleData)) = samplePESHeader" "pes_Data (md_PES sampleData) = replicate 400 7" for ctx
    by (simp_all add: setStreamID_def sampleData_def)
  from WriteData_splits[OF ref_astikit.astikit_axioms sampleMuxer(1-3) sampleData sampleMuxer(4), of sorted_list_of_set]
  show ?thesis unfolding Let_def h length_replicate of_nat_numeral by blast
qed

end
