(* ===== verification/Packet_Pool.thy ===== *)
theory Packet_Pool
  imports Packet "HOL-Library.Mapping" "HOL-Library.AList_Mapping"
begin

text \<open>
  \<^verbatim>\<open>packet_pool.go\<close>: the pool that collects the packets of each PID until the next
  payload unit starts. The locale \<open>unit_pool\<close> is what the demuxer relies on: adding a packet
  acts on the buffer of its PID alone, as the abstract assembler \<open>assemble\<close> does.
\<close>

section \<open>The code\<close>

text \<open>A Go map from PIDs to slices. The mutex is not modelled: calls are sequential.\<close>

record packetPool =
  pool_b :: "(uint16, Packet list) mapping"

definition newPacketPool :: packetPool where
  "newPacketPool = \<lparr>pool_b = Mapping.empty\<rparr>"

abbreviation pkt_PID :: "Packet \<Rightarrow> uint16" where
  "pkt_PID p \<equiv> ph_PID (p_Header p)"

abbreviation pkt_CC :: "Packet \<Rightarrow> uint8" where
  "pkt_CC p \<equiv> ph_ContinuityCounter (p_Header p)"

abbreviation pkt_start :: "Packet \<Rightarrow> bool" where
  "pkt_start p \<equiv> ph_PayloadUnitStartIndicator (p_Header p)"

text \<open>\<^const>\<open>None\<close> is the panic on a nil adaptation field.\<close>

definition hasDiscontinuity :: "Packet list \<Rightarrow> Packet \<Rightarrow> bool option" where
  "hasDiscontinuity ps p =
     (let h = p_Header p in
      map_option (\<lambda>indicated. indicated \<or>
          (length ps > 0 \<and> ph_HasPayload h \<and> ph_ContinuityCounter h \<noteq> (pkt_CC (last ps) + 1) mod 16) \<or>
          (length ps > 0 \<and> \<not> ph_HasPayload h \<and> ph_ContinuityCounter h \<noteq> pkt_CC (last ps)))
        (if ph_HasAdaptationField h then map_option af_DiscontinuityIndicator (p_AdaptationField p) else Some False))"

definition isSameAsPrevious :: "Packet list \<Rightarrow> Packet \<Rightarrow> bool" where
  "isSameAsPrevious ps p \<longleftrightarrow> length ps > 0 \<and> ph_HasPayload (p_Header p) \<and> pkt_CC p = pkt_CC (last ps)"

text \<open>The packets returned (a complete unit, or none) and the pool after the call; \<^const>\<open>None\<close> is a panic.\<close>

definition pool_add :: "packetPool \<Rightarrow> Packet \<Rightarrow> (Packet list \<times> packetPool) option" where
  "pool_add b p =
     (if ph_TransportErrorIndicator (p_Header p) then Some ([], b)
      else if \<not> ph_HasPayload (p_Header p) then Some ([], b)
      else
        let mps = (case Mapping.lookup (pool_b b) (pkt_PID p) of Some mps \<Rightarrow> mps | None \<Rightarrow> []) in
        case hasDiscontinuity mps p of
          None \<Rightarrow> None
        | Some d \<Rightarrow>
            let mps = (if d then [] else mps) in
            if isSameAsPrevious mps p then Some ([], b)
            else
              let mps = (if length mps > 0 \<or> (length mps = 0 \<and> pkt_start p) then mps @ [p] else mps);
                  (ps, mps) = (if pkt_start p \<and> length mps > 1 then (butlast mps, [p]) else ([], mps))
              in Some (ps, b\<lparr>pool_b := Mapping.update (pkt_PID p) mps (pool_b b)\<rparr>))"

text \<open>The loop of \<^verbatim>\<open>dump\<close> over the sorted PIDs.\<close>

primrec dumpKeys :: "uint16 list \<Rightarrow> Packet list \<Rightarrow> packetPool \<Rightarrow> Packet list \<times> packetPool" where
  "dumpKeys [] ps b = (ps, b)"
| "dumpKeys (k # ks) _ b =
     (let ps = (case Mapping.lookup (pool_b b) k of Some ps \<Rightarrow> ps | None \<Rightarrow> []);
          b = b\<lparr>pool_b := Mapping.delete k (pool_b b)\<rparr>
      in if length ps > 0 then (ps, b) else dumpKeys ks ps b)"

definition pool_dump :: "packetPool \<Rightarrow> Packet list \<times> packetPool" where
  "pool_dump b = dumpKeys (Mapping.ordered_keys (pool_b b)) [] b"

section \<open>The abstract assembler\<close>

text \<open>The packets collected for one PID; a PID without an entry has none.\<close>

definition pool_buffer :: "packetPool \<Rightarrow> uint16 \<Rightarrow> Packet list" where
  "pool_buffer b pid = Mapping.lookup_default [] (pool_b b) pid"

text \<open>A packet that breaks the sequence: it says so itself, or its counter does not follow.\<close>

definition breaks :: "Packet list \<Rightarrow> Packet \<Rightarrow> bool" where
  "breaks ps p \<longleftrightarrow>
     (ph_HasAdaptationField (p_Header p) \<and> af_DiscontinuityIndicator (the (p_AdaptationField p))) \<or>
     (ps \<noteq> [] \<and> pkt_CC p \<noteq> (pkt_CC (last ps) + 1) mod 16)"

text \<open>The unit completed by a packet, if any, and the buffer after it.\<close>

definition assemble :: "Packet list \<Rightarrow> Packet \<Rightarrow> Packet list \<times> Packet list" where
  "assemble ps p =
     (if ph_TransportErrorIndicator (p_Header p) \<or> \<not> ph_HasPayload (p_Header p) then ([], ps)
      else let ps = (if breaks ps p then [] else ps) in
        if pkt_start p then (ps, [p]) else if ps = [] then ([], []) else ([], ps @ [p]))"

text \<open>What \<^verbatim>\<open>parsePacket\<close> guarantees of a packet: the field its flag announces is there.\<close>

definition has_field :: "Packet \<Rightarrow> bool" where
  "has_field p \<longleftrightarrow> (ph_HasAdaptationField (p_Header p) \<longrightarrow> p_AdaptationField p \<noteq> None)"

text \<open>A run of packets of a PID that starts a unit and continues it without a gap.\<close>

definition cc_follows :: "Packet \<Rightarrow> Packet \<Rightarrow> bool" where
  "cc_follows p q \<longleftrightarrow> pkt_CC q = (pkt_CC p + 1) mod 16"

definition unit_of :: "uint16 \<Rightarrow> Packet list \<Rightarrow> bool" where
  "unit_of pid ps \<longleftrightarrow> ps \<noteq> [] \<and> pkt_start (hd ps) \<and> (\<forall>p\<in>set (tl ps). \<not> pkt_start p) \<and>
     (\<forall>p\<in>set ps. pkt_PID p = pid \<and> ph_HasPayload (p_Header p) \<and> \<not> ph_TransportErrorIndicator (p_Header p)) \<and>
     successively cc_follows ps"

lemma mod_16_take_bit: "(c :: uint8) mod 16 = take_bit 4 c"
  using take_bit_eq_mod[of 4 c] by simp

lemma even_next: "even ((c + 1) mod 16 :: uint8) \<longleftrightarrow> odd c"
  unfolding mod_16_take_bit by (subst even_take_bit_eq) simp

lemma cc_next_neq: "(c + 1) mod 16 \<noteq> (c :: uint8)"
proof
  assume "(c + 1) mod 16 = c"
  then have "even ((c + 1) mod 16) \<longleftrightarrow> even c" by (rule arg_cong)
  with even_next[of c] show False by blast
qed

lemma hasDiscontinuity_breaks:
  "has_field p \<Longrightarrow> ph_HasPayload (p_Header p) \<Longrightarrow> hasDiscontinuity ps p = Some (breaks ps p)"
  by (cases "ph_HasAdaptationField (p_Header p)"; cases "p_AdaptationField p")
    (simp_all add: hasDiscontinuity_def breaks_def has_field_def Let_def)

lemma same_breaks: "isSameAsPrevious ps p \<Longrightarrow> breaks ps p"
  using cc_next_neq[of "pkt_CC (last ps)"] by (auto simp: isSameAsPrevious_def breaks_def)

lemma not_same [simp]: "\<not> isSameAsPrevious [] p" "\<not> breaks ps p \<Longrightarrow> \<not> isSameAsPrevious ps p"
  using same_breaks by (auto simp: isSameAsPrevious_def)

lemma pool_add_assemble:
  assumes "has_field p"
  shows "\<exists>b'. pool_add b p = Some (fst (assemble (pool_buffer b (pkt_PID p)) p), b') \<and>
    pool_buffer b' = (pool_buffer b)(pkt_PID p := snd (assemble (pool_buffer b (pkt_PID p)) p))"
proof -
  have buf: "(case Mapping.lookup (pool_b b) (pkt_PID p) of Some mps \<Rightarrow> mps | None \<Rightarrow> []) = pool_buffer b (pkt_PID p)"
    by (simp add: pool_buffer_def Mapping.lookup_default_def split: option.split)
  show ?thesis
  proof (cases "ph_TransportErrorIndicator (p_Header p) \<or> \<not> ph_HasPayload (p_Header p)")
    case True
    then show ?thesis by (auto simp: pool_add_def assemble_def)
  next
    case False
    then show ?thesis
      unfolding pool_add_def buf
      by (auto simp: assemble_def hasDiscontinuity_breaks[OF assms] Let_def pool_buffer_def
          Mapping.lookup_default_update' fun_eq_iff split: if_splits)
  qed
qed

section \<open>The contract of a pool\<close>

text \<open>
  \<open>add_laws\<close> is all that the clients of a pool use. A list of calls to \<open>add\<close> is
  \<open>adds\<close>, with the units it returned, each tagged with the PID.
\<close>

locale unit_pool =
  fixes new :: 'b and add :: "'b \<Rightarrow> Packet \<Rightarrow> (Packet list \<times> 'b) option" and buffer :: "'b \<Rightarrow> uint16 \<Rightarrow> Packet list"
  assumes buffer_new: "buffer new pid = []"
    and add_law: "has_field p \<Longrightarrow> \<exists>b'. add b p = Some (fst (assemble (buffer b (pkt_PID p)) p), b') \<and>
      buffer b' = (buffer b)(pkt_PID p := snd (assemble (buffer b (pkt_PID p)) p))"

primrec adds :: "('b \<Rightarrow> Packet \<Rightarrow> (Packet list \<times> 'b) option) \<Rightarrow> 'b \<Rightarrow> Packet list \<Rightarrow> ((uint16 \<times> Packet list) list \<times> 'b) option" where
  "adds add b [] = Some ([], b)"
| "adds add b (p # ps) = (case add b p of
      None \<Rightarrow> None
    | Some (u, b') \<Rightarrow> map_option (\<lambda>(us, b''). (if u = [] then us else (pkt_PID p, u) # us, b'')) (adds add b' ps))"

text \<open>The assembler run on the packets of one PID.\<close>

primrec assembles :: "Packet list \<Rightarrow> Packet list \<Rightarrow> Packet list list \<times> Packet list" where
  "assembles buf [] = ([], buf)"
| "assembles buf (p # ps) = (case assemble buf p of (u, buf') \<Rightarrow>
     case assembles buf' ps of (us, buf'') \<Rightarrow> (if u = [] then us else u # us, buf''))"

definition units_for :: "uint16 \<Rightarrow> (uint16 \<times> Packet list) list \<Rightarrow> Packet list list" where
  "units_for pid us = map snd (filter (\<lambda>u. fst u = pid) us)"

lemma units_for_simps [simp]:
  "units_for pid [] = []"
  "units_for pid ((k, u) # us) = (if k = pid then u # units_for pid us else units_for pid us)"
  by (simp_all add: units_for_def)

text \<open>The buffer invariant: empty, or the beginning of a unit.\<close>

definition buffer_ok :: "uint16 \<Rightarrow> Packet list \<Rightarrow> bool" where
  "buffer_ok pid ps \<longleftrightarrow> ps = [] \<or> unit_of pid ps"

lemma unit_of_single:
  "pkt_start p \<Longrightarrow> ph_HasPayload (p_Header p) \<Longrightarrow> \<not> ph_TransportErrorIndicator (p_Header p) \<Longrightarrow> unit_of (pkt_PID p) [p]"
  by (simp add: unit_of_def)

lemma unit_of_snoc:
  assumes "unit_of (pkt_PID p) ps" "\<not> breaks ps p" "\<not> pkt_start p" "ph_HasPayload (p_Header p)"
    "\<not> ph_TransportErrorIndicator (p_Header p)"
  shows "unit_of (pkt_PID p) (ps @ [p])"
proof -
  from assms have "ps \<noteq> []" "cc_follows (last ps) p" by (auto simp: unit_of_def breaks_def cc_follows_def)
  with assms show ?thesis by (auto simp: unit_of_def successively_append_iff)
qed

lemma assemble_ok:
  assumes "buffer_ok (pkt_PID p) ps"
  shows "buffer_ok (pkt_PID p) (fst (assemble ps p))" and "buffer_ok (pkt_PID p) (snd (assemble ps p))"
  using assms by (auto simp: assemble_def buffer_ok_def Let_def intro: unit_of_single unit_of_snoc)

text \<open>The rest of a unit is appended to its beginning; the next unit then pushes it out.\<close>

lemma assembles_append:
  "assembles buf (xs @ ys) = (case assembles buf xs of (us, buf') \<Rightarrow>
     case assembles buf' ys of (vs, buf'') \<Rightarrow> (us @ vs, buf''))"
  by (induction xs arbitrary: buf) (auto simp: split_beta)

lemma assembles_rest:
  assumes "ps \<noteq> []" "successively cc_follows (ps @ qs)" "\<forall>q\<in>set qs. \<not> breaks [] q \<and> \<not> pkt_start q \<and>
    ph_HasPayload (p_Header q) \<and> \<not> ph_TransportErrorIndicator (p_Header q)"
  shows "assembles ps qs = ([], ps @ qs)"
  using assms
proof (induction qs arbitrary: ps)
  case Nil
  then show ?case by simp
next
  case (Cons q qs)
  from Cons.prems have "cc_follows (last ps) q" by (auto simp: successively_append_iff)
  with Cons.prems have "assemble ps q = ([], ps @ [q])"
    by (auto simp: assemble_def breaks_def cc_follows_def)
  with Cons.IH[of "ps @ [q]"] Cons.prems show ?case by simp
qed

lemma assembles_unit:
  assumes "unit_of pid u" "\<forall>p\<in>set u. \<not> breaks [] p" "successively cc_follows (ps @ u)"
  shows "assembles ps u = (if ps = [] then [] else [ps], u)"
proof -
  from assms(1) obtain p qs where u: "u = p # qs" by (cases u) (auto simp: unit_of_def)
  with assms(3) have "ps \<noteq> [] \<Longrightarrow> cc_follows (last ps) p" by (auto simp: successively_append_iff)
  with assms(1,2) u have "assemble ps p = (ps, [p])"
    by (auto simp: assemble_def unit_of_def breaks_def cc_follows_def)
  moreover have "assembles [p] qs = ([], [p] @ qs)"
    using assms u by (intro assembles_rest) (auto simp: unit_of_def)
  ultimately show ?thesis using u by simp
qed

lemma assembles_units_from:
  assumes "\<forall>u\<in>set units. unit_of pid u" "\<forall>p\<in>set (concat units). \<not> breaks [] p"
    "successively cc_follows (ps @ concat units)" "units \<noteq> []"
  shows "assembles ps (concat units) = ((if ps = [] then [] else [ps]) @ butlast units, last units)"
  using assms
proof (induction units arbitrary: ps)
  case Nil
  then show ?case by simp
next
  case (Cons u units)
  from Cons.prems have "u \<noteq> []" by (auto simp: unit_of_def)
  have step: "assembles ps u = (if ps = [] then [] else [ps], u)"
    using Cons.prems successively_append_iff[of cc_follows "ps @ u" "concat units"]
    by (intro assembles_unit[of pid]) simp_all
  show ?case
  proof (cases "units = []")
    case True
    with step show ?thesis by simp
  next
    case False
    have "successively cc_follows (u @ concat units)"
      using Cons.prems(3) by (auto simp: successively_append_iff)
    with Cons False have "assembles u (concat units) = ((if u = [] then [] else [u]) @ butlast units, last units)" by simp
    with step \<open>u \<noteq> []\<close> False show ?thesis by (simp add: assembles_append)
  qed
qed

lemma assembles_units:
  assumes "\<forall>u\<in>set units. unit_of pid u" "\<forall>p\<in>set (concat units). \<not> breaks [] p" "successively cc_follows (concat units)"
  shows "assembles [] (concat units) = (butlast units, if units = [] then [] else last units)"
  using assembles_units_from[of units pid "[]"] assms by (cases "units = []") simp_all

context unit_pool
begin

text \<open>Packets of other PIDs neither change the buffer of a PID nor hide its units.\<close>

lemma adds_assembles:
  assumes "\<forall>p\<in>set ps. has_field p"
  shows "\<exists>us b'. adds add b ps = Some (us, b') \<and>
    (\<forall>pid. assembles (buffer b pid) (filter (\<lambda>p. pkt_PID p = pid) ps) = (units_for pid us, buffer b' pid))"
  using assms
proof (induction ps arbitrary: b)
  case Nil
  then show ?case by simp
next
  case (Cons p ps)
  from Cons.prems add_law[of p b] obtain b1 where b1:
    "add b p = Some (fst (assemble (buffer b (pkt_PID p)) p), b1)"
    "buffer b1 = (buffer b)(pkt_PID p := snd (assemble (buffer b (pkt_PID p)) p))" by auto
  from Cons.prems Cons.IH[of b1] obtain us b2 where b2: "adds add b1 ps = Some (us, b2)"
    "\<And>pid. assembles (buffer b1 pid) (filter (\<lambda>p. pkt_PID p = pid) ps) = (units_for pid us, buffer b2 pid)" by auto
  have "assembles (buffer b pid) (filter (\<lambda>p. pkt_PID p = pid) (p # ps)) =
      (units_for pid (if fst (assemble (buffer b (pkt_PID p)) p) = [] then us
         else (pkt_PID p, fst (assemble (buffer b (pkt_PID p)) p)) # us), buffer b2 pid)" for pid
    using b2(2)[of pid] b1(2) by (auto simp: split_beta)
  with b1(1) b2(1) show ?case by simp
qed

lemma adds_ok:
  assumes "\<forall>p\<in>set ps. has_field p" and "\<forall>pid. buffer_ok pid (buffer b pid)"
  shows "\<exists>us b'. adds add b ps = Some (us, b') \<and> (\<forall>(pid, u)\<in>set us. unit_of pid u) \<and>
    (\<forall>pid. buffer_ok pid (buffer b' pid))"
  using assms
proof (induction ps arbitrary: b)
  case Nil
  then show ?case by simp
next
  case (Cons p ps)
  let ?a = "assemble (buffer b (pkt_PID p)) p"
  from Cons.prems add_law[of p b] obtain b1 where b1: "add b p = Some (fst ?a, b1)"
    "buffer b1 = (buffer b)(pkt_PID p := snd ?a)" by auto
  have ok: "buffer_ok (pkt_PID p) (fst ?a)" "buffer_ok (pkt_PID p) (snd ?a)"
    using Cons.prems(2) assemble_ok by blast+
  with Cons.prems(2) b1(2) have "\<forall>pid. buffer_ok pid (buffer b1 pid)" by simp
  with Cons.prems(1) Cons.IH[of b1] obtain us b2 where "adds add b1 ps = Some (us, b2)"
    "\<forall>(pid, u)\<in>set us. unit_of pid u" "\<forall>pid. buffer_ok pid (buffer b2 pid)" by auto
  with b1 ok(1) show ?case by (auto simp: buffer_ok_def)
qed

text \<open>
  The assembler on a continuous run of whole units: each unit but the last is returned when the
  next one starts.
\<close>

lemma adds_units:
  assumes "\<forall>p\<in>set ps. has_field p" and "filter (\<lambda>p. pkt_PID p = pid) ps = concat units"
    and "\<forall>u\<in>set units. unit_of pid u" and "\<forall>p\<in>set (concat units). \<not> breaks [] p"
    and "successively cc_follows (concat units)"
  shows "\<exists>us b'. adds add new ps = Some (us, b') \<and> units_for pid us = butlast units \<and>
    buffer b' pid = (if units = [] then [] else last units)"
proof -
  from adds_assembles[OF assms(1), of new] obtain us b' where "adds add new ps = Some (us, b')"
    "assembles [] (filter (\<lambda>p. pkt_PID p = pid) ps) = (units_for pid us, buffer b' pid)"
    by (auto simp only: buffer_new)
  with assembles_units[OF assms(3-5)] assms(2) show ?thesis by simp
qed

end

interpretation packet_pool: unit_pool newPacketPool pool_add pool_buffer
proof unfold_locales
  show "pool_buffer newPacketPool pid = []" for pid
    by (simp add: newPacketPool_def pool_buffer_def Mapping.lookup_default_empty)
qed (rule pool_add_assemble)

section \<open>Dumping\<close>

text \<open>The buffers that hold packets, in ascending order of their PIDs.\<close>

definition pool_pending :: "packetPool \<Rightarrow> (uint16 \<times> Packet list) list" where
  "pool_pending b = map (\<lambda>k. (k, pool_buffer b k)) (filter (\<lambda>k. pool_buffer b k \<noteq> []) (Mapping.ordered_keys (pool_b b)))"

lemma finite_keys16 [simp]: "finite (Mapping.keys (m :: (uint16, 'a) mapping))"
  by (rule finite_subset[OF subset_UNIV]) simp

lemma ordered_keys_delete_hd:
  "Mapping.ordered_keys (m :: (uint16, 'a) mapping) = k # ks \<Longrightarrow> Mapping.ordered_keys (Mapping.delete k m) = ks"
  by (metis Mapping.ordered_keys_delete remove1.simps(2))

lemma pool_buffer_delete:
  "pool_buffer (b\<lparr>pool_b := Mapping.delete k (pool_b b)\<rparr>) j = (if j = k then [] else pool_buffer b j)"
  by (cases "j = k") (simp_all add: pool_buffer_def Mapping.lookup_default_def)

lemma dumpKeys_pending:
  assumes "ks = Mapping.ordered_keys (pool_b b)"
  shows "case pool_pending b of
      [] \<Rightarrow> dumpKeys ks [] b = ([], b\<lparr>pool_b := Mapping.empty\<rparr>)
    | (k, u) # rest \<Rightarrow> \<exists>b'. dumpKeys ks [] b = (u, b') \<and> pool_pending b' = rest \<and>
        pool_buffer b' = (pool_buffer b)(k := [])"
  using assms
proof (induction ks arbitrary: b)
  case Nil
  then have "Mapping.keys (pool_b b) = {}" by (metis finite_keys16 set_ordered_keys list.set(1))
  then have "pool_b b = Mapping.empty" by (intro mapping_eqI) (auto simp: keys_dom_lookup dom_def)
  then show ?case using Nil by (cases b) (simp add: pool_pending_def)
next
  case (Cons k ks)
  let ?b = "b\<lparr>pool_b := Mapping.delete k (pool_b b)\<rparr>"
  have keys: "Mapping.ordered_keys (pool_b ?b) = ks"
    using ordered_keys_delete_hd[of "pool_b b" k ks] Cons.prems by simp
  from Cons.prems have "distinct (k # ks)" by (metis distinct_ordered_keys)
  then have pending: "pool_pending b = (if pool_buffer b k = [] then pool_pending ?b else (k, pool_buffer b k) # pool_pending ?b)"
    by (auto simp: pool_pending_def keys Cons.prems[symmetric] pool_buffer_delete intro!: map_cong filter_cong)
  have lookup: "(case Mapping.lookup (pool_b b) k of Some ps \<Rightarrow> ps | None \<Rightarrow> []) = pool_buffer b k"
    by (simp add: pool_buffer_def Mapping.lookup_default_def split: option.split)
  show ?case
  proof (cases "pool_buffer b k = []")
    case True
    moreover from this have "pool_buffer ?b = pool_buffer b" by (auto simp: fun_eq_iff pool_buffer_delete)
    ultimately show ?thesis
      using Cons.IH[of ?b] keys by (simp add: pending lookup Let_def fun_upd_def split: list.splits prod.splits)
  next
    case False
    then show ?thesis
      by (auto simp: pending lookup Let_def fun_eq_iff pool_buffer_delete)
  qed
qed

lemma set_pending: "set (pool_pending b) = {(k, u). pool_buffer b k = u \<and> u \<noteq> []}"
proof -
  have "k \<in> Mapping.keys (pool_b b)" if "pool_buffer b k \<noteq> []" for k
    using that by (auto simp: pool_buffer_def Mapping.lookup_default_def keys_dom_lookup split: option.splits)
  then show ?thesis by (auto simp: pool_pending_def)
qed

lemma distinct_pending: "distinct (map fst (pool_pending b))"
  by (simp add: pool_pending_def comp_def)

lemma sorted_pending: "sorted (map fst (pool_pending b))"
  by (simp add: pool_pending_def comp_def Mapping.ordered_keys_def sorted_filter[where f = "\<lambda>x. x", simplified])

lemma pool_dump_pending:
  "pool_pending b = [] \<Longrightarrow> pool_dump b = ([], newPacketPool)"
  "pool_pending b = (k, u) # rest \<Longrightarrow>
    \<exists>b'. pool_dump b = (u, b') \<and> pool_pending b' = rest \<and> pool_buffer b' = (pool_buffer b)(k := [])"
  using dumpKeys_pending[OF refl, of b] by (simp_all add: pool_dump_def newPacketPool_def)

text \<open>Calls of \<^verbatim>\<open>dump\<close> in a row.\<close>

primrec pool_dumps :: "nat \<Rightarrow> packetPool \<Rightarrow> Packet list list \<times> packetPool" where
  "pool_dumps 0 b = ([], b)"
| "pool_dumps (Suc n) b = (case pool_dump b of (u, b') \<Rightarrow> case pool_dumps n b' of (us, b'') \<Rightarrow> (u # us, b''))"

lemma pool_dumps_pending:
  "pool_pending b = us \<Longrightarrow> \<exists>b'. pool_dumps (length us) b = (map snd us, b') \<and> pool_pending b' = []"
proof (induction us arbitrary: b)
  case Nil
  then show ?case by simp
next
  case (Cons ku us)
  obtain k u where ku: "ku = (k, u)" by (cases ku)
  with Cons.prems pool_dump_pending(2)[of b k u us] obtain b1 where
    b1: "pool_dump b = (u, b1)" "pool_pending b1 = us" by auto
  with Cons.IH[OF b1(2)] ku show ?case by auto
qed

section \<open>Reachable pools\<close>

inductive pool_step :: "packetPool \<Rightarrow> Packet list \<Rightarrow> packetPool \<Rightarrow> bool" where
  step_add: "has_field p \<Longrightarrow> pool_add b p = Some (u, b') \<Longrightarrow> pool_step b u b'"
| step_dump: "pool_dump b = (u, b') \<Longrightarrow> pool_step b u b'"

inductive pool_reachable :: "packetPool \<Rightarrow> bool" where
  reach_new: "pool_reachable newPacketPool"
| reach_step: "pool_reachable b \<Longrightarrow> pool_step b u b' \<Longrightarrow> pool_reachable b'"

inductive_cases pool_stepE: "pool_step b u b'"

lemma pool_step_ok:
  assumes "pool_step b u b'" and "\<forall>pid. buffer_ok pid (pool_buffer b pid)"
  shows "(u = [] \<or> (\<exists>pid. unit_of pid u)) \<and> (\<forall>pid. buffer_ok pid (pool_buffer b' pid))"
  using assms(1)
proof (rule pool_stepE)
  fix p assume p: "has_field p" "pool_add b p = Some (u, b')"
  with pool_add_assemble[OF p(1), of b] assemble_ok[of p "pool_buffer b (pkt_PID p)"] assms(2)
  show ?thesis by (auto simp: buffer_ok_def)
next
  assume dump: "pool_dump b = (u, b')"
  show ?thesis
  proof (cases "pool_pending b")
    case Nil
    with pool_dump_pending(1)[OF Nil] dump show ?thesis by (simp add: packet_pool.buffer_new buffer_ok_def)
  next
    case (Cons ku rest)
    obtain k v where ku: "ku = (k, v)" by (cases ku)
    with pool_dump_pending(2)[of b k v rest] Cons dump have u: "u = v" "pool_buffer b' = (pool_buffer b)(k := [])" by auto
    have "(k, v) \<in> set (pool_pending b)" using Cons ku by simp
    then have "pool_buffer b k = v" by (simp add: set_pending)
    with u assms(2) show ?thesis by (auto simp: buffer_ok_def)
  qed
qed

lemma pool_reachable_ok: "pool_reachable b \<Longrightarrow> \<forall>pid. buffer_ok pid (pool_buffer b pid)"
proof (induction rule: pool_reachable.induct)
  case reach_new
  then show ?case by (simp add: packet_pool.buffer_new buffer_ok_def)
next
  case (reach_step b u b')
  with pool_step_ok show ?case by blast
qed

section \<open>Properties\<close>

text \<open>
  \<^bold>\<open>C6\<close>. The pool reassembles payload units. Take any stream of packets in which the packets of one PID,
  with whatever packets of other PIDs in between, are a sequence of whole units with consecutive
  continuity counters: adding the stream to a new pool returns exactly these units, in order, each complete when the next one starts,
  and the last unit is left in the PID's buffer.
\<close>

theorem pool_reassembles:
  assumes "\<forall>p\<in>set ps. has_field p" and "filter (\<lambda>p. pkt_PID p = pid) ps = concat units"
    and "\<forall>u\<in>set units. unit_of pid u" and "\<forall>p\<in>set (concat units). \<not> breaks [] p"
    and "successively cc_follows (concat units)"
  shows "\<exists>us b. adds pool_add newPacketPool ps = Some (us, b) \<and> units_for pid us = butlast units \<and>
    pool_buffer b pid = (if units = [] then [] else last units)"
  by (rule packet_pool.adds_units[OF assms])

text \<open>
  \<^bold>\<open>C14\<close>. Whatever packets arrive, lost, reordered, repeated, flagged as erroneous or without a payload: in every reachable
  pool, what \<^verbatim>\<open>add\<close> and \<^verbatim>\<open>dump\<close> return is empty or a unit of one
  PID: it starts with a payload unit start and has no other, every packet has a payload and no
  transport error, and the continuity counters are consecutive.
\<close>

theorem pool_returns_units:
  assumes "pool_reachable b" and "pool_step b u b'"
  shows "u = [] \<or> (\<exists>pid. unit_of pid u)"
  using pool_step_ok[OF assms(2) pool_reachable_ok[OF assms(1)]] by blast

text \<open>
  \<^bold>\<open>C29\<close>. Draining the pool. As many calls of \<^verbatim>\<open>dump\<close> as there are
  non-empty buffers return exactly these buffers, each once, in ascending order of PID; every call after
  that returns nothing and leaves an empty pool.
\<close>

theorem pool_drain:
  "\<exists>us b'. pool_dumps (length us) b = (map snd us, b') \<and> sorted (map fst us) \<and> distinct (map fst us) \<and>
    set us = {(k, u). pool_buffer b k = u \<and> u \<noteq> []} \<and> pool_dump b' = ([], newPacketPool)"
  using pool_dumps_pending[OF refl, of b] sorted_pending[of b] distinct_pending[of b] set_pending[of b] pool_dump_pending(1) by blast

text \<open>
  \<^bold>\<open>C31\<close>. A repeated packet is not thrown away, contrary to the comment in
  \<^verbatim>\<open>add\<close>: the discontinuity test comes first, so a packet with the counter of the previous one empties
  the buffer of its PID, and the unit that was being assembled is lost.
\<close>

theorem pool_duplicate_drops_unit:
  assumes "has_field p" and "ph_HasPayload (p_Header p)" and "\<not> ph_TransportErrorIndicator (p_Header p)"
    and "pool_buffer b (pkt_PID p) = ps @ [q]" and "pkt_CC p = pkt_CC q"
  shows "\<exists>b'. pool_add b p = Some ([], b') \<and> pool_buffer b' (pkt_PID p) = (if pkt_start p then [p] else [])"
proof -
  have "breaks (ps @ [q]) p" using same_breaks[of "ps @ [q]" p] assms(2,5) by (simp add: isSameAsPrevious_def)
  with pool_add_assemble[OF assms(1), of b] assms(2-4) show ?thesis by (auto simp: assemble_def)
qed

section \<open>Witnesses\<close>

definition samplePkt :: "uint16 \<Rightarrow> uint8 \<Rightarrow> bool \<Rightarrow> Packet" where
  "samplePkt pid cc start = \<lparr>p_AdaptationField = None,
     p_Header = \<lparr>ph_ContinuityCounter = cc, ph_HasAdaptationField = False, ph_HasPayload = True,
       ph_PayloadUnitStartIndicator = start, ph_PID = pid, ph_TransportErrorIndicator = False,
       ph_TransportPriority = False, ph_TransportScramblingControl = 0\<rparr>, p_Payload = [1]\<rparr>"

lemma samplePkt_simps [simp]:
  "p_Header (samplePkt pid cc start) = \<lparr>ph_ContinuityCounter = cc, ph_HasAdaptationField = False, ph_HasPayload = True,
       ph_PayloadUnitStartIndicator = start, ph_PID = pid, ph_TransportErrorIndicator = False,
       ph_TransportPriority = False, ph_TransportScramblingControl = 0\<rparr>"
  by (simp add: samplePkt_def)

theorem pool_reassembles_witness:
  "\<exists>us b. adds pool_add newPacketPool
      [samplePkt 256 15 True, samplePkt 257 3 True, samplePkt 256 0 False, samplePkt 257 9 True, samplePkt 256 1 True]
      = Some (us, b) \<and>
    units_for 256 us = [[samplePkt 256 15 True, samplePkt 256 0 False]] \<and> pool_buffer b 256 = [samplePkt 256 1 True]"
  using pool_reassembles[of
      "[samplePkt 256 15 True, samplePkt 257 3 True, samplePkt 256 0 False, samplePkt 257 9 True, samplePkt 256 1 True]" 256
      "[[samplePkt 256 15 True, samplePkt 256 0 False], [samplePkt 256 1 True]]"]
  by (simp add: has_field_def unit_of_def breaks_def cc_follows_def)

theorem pool_returns_units_witness:
  "\<exists>b b'. pool_reachable b \<and> pool_step b [samplePkt 256 15 True] b' \<and> (\<exists>pid. unit_of pid [samplePkt 256 15 True])"
proof -
  from pool_add_assemble[of "samplePkt 256 15 True" newPacketPool] obtain b where
    b: "pool_add newPacketPool (samplePkt 256 15 True) = Some ([], b)" "pool_buffer b 256 = [samplePkt 256 15 True]"
    by (auto simp: has_field_def assemble_def packet_pool.buffer_new)
  then have "pool_step newPacketPool [] b" by (intro step_add) (simp_all add: has_field_def)
  then have r: "pool_reachable b" by (rule reach_step[OF reach_new])
  from pool_add_assemble[of "samplePkt 256 0 True" b] b(2) obtain b' where
    "pool_add b (samplePkt 256 0 True) = Some ([samplePkt 256 15 True], b')"
    by (auto simp: has_field_def assemble_def breaks_def cc_follows_def)
  then have s: "pool_step b [samplePkt 256 15 True] b'" by (intro step_add) (simp_all add: has_field_def)
  from pool_returns_units[OF r s] r s show ?thesis by blast
qed

theorem pool_duplicate_drops_unit_witness:
  "\<exists>b b'. pool_add newPacketPool (samplePkt 256 4 True) = Some ([], b) \<and>
    pool_add b (samplePkt 256 4 False) = Some ([], b') \<and> pool_buffer b' 256 = []"
proof -
  from pool_add_assemble[of "samplePkt 256 4 True" newPacketPool] obtain b where
    b: "pool_add newPacketPool (samplePkt 256 4 True) = Some ([], b)"
      "pool_buffer b 256 = [] @ [samplePkt 256 4 True]"
    by (auto simp: has_field_def assemble_def packet_pool.buffer_new)
  with pool_duplicate_drops_unit[of "samplePkt 256 4 False" b "[]" "samplePkt 256 4 True"] show ?thesis
    by (auto simp: has_field_def)
qed

end
