(* ===== verification/Packet_Buffer.thy ===== *)
theory Packet_Buffer
  imports Packet_Codec
begin

text \<open>
  \<^verbatim>\<open>packet_buffer.go\<close>: packets of a fixed size read from an \<^verbatim>\<open>io.Reader\<close>, with the
  detection of that size. The reader is the caller's: a parameter, a record of the methods the code
  calls on an abstract state \<open>'r\<close>.
\<close>

section \<open>Readers\<close>

text \<open>
  \<open>rd_Read n\<close> is \<^verbatim>\<open>Read(b)\<close> on a slice of \<open>n\<close> bytes: the content of the slice after the
  call, the number of bytes read and the error. \<open>rd_Peek\<close> is there when the reader is a
  \<^verbatim>\<open>*bufio.Reader\<close>, and \<open>rd_Seek\<close>, for \<^verbatim>\<open>Seek(0, 0)\<close>, when it is an
  \<^verbatim>\<open>io.Seeker\<close>.
\<close>

record 'r Reader =
  rd_Read :: "nat \<Rightarrow> 'r \<Rightarrow> (byte list \<times> nat \<times> error option) \<times> 'r"
  rd_Peek :: "(nat \<Rightarrow> 'r \<Rightarrow> (error + byte list) \<times> 'r) option"
  rd_Seek :: "('r \<Rightarrow> (error + int) \<times> 'r) option"

text \<open>\<^verbatim>\<open>io.ReadFull\<close>: read until the slice is full or an error comes.\<close>

definition readFull :: "'r Reader \<Rightarrow> nat \<Rightarrow> 'r \<Rightarrow> ((error + byte list) \<times> 'r) option" where
  "readFull R n r = goLoop
     (\<lambda>(buf, r).
        if n \<le> length buf then Some (Return (Inr buf, r))
        else case rd_Read R (n - length buf) r of ((b, k, err), r) \<Rightarrow>
          let buf = buf @ take k b in
          case err of
            None \<Rightarrow> Some (Continue (buf, r))
          | Some e \<Rightarrow> Some (Return
              (if n \<le> length buf then Inr buf
               else Inl (if length buf > 0 \<and> e = ErrEOF then ErrUnexpectedEOF else e), r)))
     ([], r)"

section \<open>The code\<close>

text \<open>
  The reader is kept apart from the struct. The slice \<^verbatim>\<open>packetReadBuffer\<close> is left out: each
  read that succeeds overwrites all of it.
\<close>

record packetBuffer =
  pb_packetSize :: int

text \<open>The bytes peeked, padded to the slice, and whether the reader has moved.\<close>

definition peek :: "'r Reader \<Rightarrow> nat \<Rightarrow> 'r \<Rightarrow> (error + byte list \<times> bool) \<times> 'r" where
  "peek R n r =
     (case rd_Peek R of
       Some pk \<Rightarrow> (case pk n r of
           (Inl e, r) \<Rightarrow> (Inl e, r)
         | (Inr bs, r) \<Rightarrow> (Inr (take n bs @ replicate (n - length bs) 0, False), r))
     | None \<Rightarrow> (case rd_Read R n r of
           ((b, k, Some e), r) \<Rightarrow> (Inl e, r)
         | ((b, k, None), r) \<Rightarrow> (Inr (b, True), r)))"

definition rewind :: "'r Reader \<Rightarrow> 'r \<Rightarrow> (error + int) \<times> 'r" where
  "rewind R r =
     (case rd_Seek R of
       Some sk \<Rightarrow> (case sk r of
           (Inl e, r) \<Rightarrow> (Inl (wrapError ''astits: seeking to 0 failed: '' e), r)
         | (Inr n, r) \<Rightarrow> (Inr n, r))
     | None \<Rightarrow> (Inr (-1), r))"

text \<open>The packet size returned, also next to an error, the error and the reader.\<close>

definition autoDetectPacketSize :: "'r Reader \<Rightarrow> 'r \<Rightarrow> (int \<times> error option) \<times> 'r" where
  "autoDetectPacketSize R r =
     (let l = 193 in
      case peek R l r of
        (Inl e, r) \<Rightarrow> ((0, Some (wrapError ''astits: reading first %d bytes failed: '' e)), r)
      | (Inr (b, shouldRewind), r) \<Rightarrow>
          if b ! 0 \<noteq> syncByte then ((0, Some ErrPacketMustStartWithASyncByte), r)
          else case find (\<lambda>idx. b ! idx = syncByte \<and> int idx \<ge> MpegTsPacketSize) [0..<l] of
            None \<Rightarrow> ((0, Some (ErrMessage ''astits: only one sync byte detected in first %d bytes'' [int l])), r)
          | Some idx \<Rightarrow>
              let packetSize = int idx in
              if \<not> shouldRewind then ((packetSize, None), r)
              else case rewind R r of
                (Inl e, r) \<Rightarrow> ((packetSize, Some (wrapError ''astits: rewinding failed: '' e)), r)
              | (Inr n, r) \<Rightarrow>
                  if n = -1
                  then let ls = packetSize - (int l - packetSize) in
                    case rd_Read R (nat ls) r of
                      ((_, _, Some e), r) \<Rightarrow>
                        ((packetSize, Some (wrapError ''astits: reading %d bytes to sync reader failed: '' e)), r)
                    | ((_, _, None), r) \<Rightarrow> ((packetSize, None), r)
                  else ((packetSize, None), r))"

text \<open>The buffer is returned next to an error too.\<close>

definition newPacketBuffer :: "'r Reader \<Rightarrow> int \<Rightarrow> 'r \<Rightarrow> (packetBuffer \<times> error option) \<times> 'r" where
  "newPacketBuffer R packetSize r =
     (if packetSize = 0
      then case autoDetectPacketSize R r of ((n, err), r) \<Rightarrow>
        ((\<lparr>pb_packetSize = n\<rparr>, map_option (wrapError ''astits: auto detecting packet size failed: '') err), r)
      else ((\<lparr>pb_packetSize = packetSize\<rparr>, None), r))"

text \<open>A negative packet size panics in \<^verbatim>\<open>make\<close>.\<close>

definition pb_next ::
    "'i BytesIterator \<Rightarrow> 'r Reader \<Rightarrow> packetBuffer \<Rightarrow> 'r \<Rightarrow> ((error + Packet) \<times> 'r) option" where
  "pb_next I R pb r =
     (if pb_packetSize pb < 0 then Some (Inl Panic, r)
      else case readFull R (nat (pb_packetSize pb)) r of
        None \<Rightarrow> None
      | Some (Inl e, r) \<Rightarrow> Some (Inl (if e = ErrEOF \<or> e = ErrUnexpectedEOF then ErrNoMorePackets
          else wrapError ''astits: reading %d bytes failed: '' e), r)
      | Some (Inr bs, r) \<Rightarrow> map_option (\<lambda>p. (case p of
            Inl e \<Rightarrow> Inl (wrapError ''astits: building packet failed: '' e)
          | Inr p \<Rightarrow> Inr p, r)) (parseBytes I (parsePacket I) bs))"

end
