(* ===== verification/Demuxer.thy ===== *)
theory Demuxer
  imports Data Packet_Pool Packet_Buffer
begin

text \<open>
  \<^verbatim>\<open>demuxer.go\<close>: packets are read, collected into units by the packet pool, and units are
  parsed into data; the programs of a PAT tell which PIDs carry program map tables.
\<close>

section \<open>The state\<close>

text \<open>
  \<open>'r\<close> is the caller's reader and context. \<open>ctxErr\<close>, a parameter, is \<^verbatim>\<open>ctx.Err()\<close>.
\<close>

record 'r Demuxer =
  dmx_dataBuffer :: "DemuxerData list"
  dmx_optPacketSize :: int
  dmx_optPacketsParser :: "PacketsParser option"
  dmx_packetBuffer :: "packetBuffer option"
  dmx_packetPool :: packetPool
  dmx_programMap :: programMap
  dmx_r :: 'r

definition DemuxerOptPacketSize :: "int \<Rightarrow> 'r Demuxer \<Rightarrow> 'r Demuxer" where
  "DemuxerOptPacketSize packetSize d = d\<lparr>dmx_optPacketSize := packetSize\<rparr>"

definition DemuxerOptPacketsParser :: "PacketsParser \<Rightarrow> 'r Demuxer \<Rightarrow> 'r Demuxer" where
  "DemuxerOptPacketsParser p d = d\<lparr>dmx_optPacketsParser := Some p\<rparr>"

definition NewDemuxer :: "'r \<Rightarrow> ('r Demuxer \<Rightarrow> 'r Demuxer) list \<Rightarrow> 'r Demuxer" where
  "NewDemuxer r opts = fold (\<lambda>opt d. opt d) opts
     \<lparr>dmx_dataBuffer = [], dmx_optPacketSize = 0, dmx_optPacketsParser = None, dmx_packetBuffer = None,
       dmx_packetPool = newPacketPool, dmx_programMap = newProgramMap, dmx_r = r\<rparr>"

section \<open>Packets\<close>

definition NextPacket ::
    "('r \<Rightarrow> error option) \<Rightarrow> 'i BytesIterator \<Rightarrow> 'r Reader \<Rightarrow> 'r Demuxer \<Rightarrow> ((error + Packet) \<times> 'r Demuxer) option" where
  "NextPacket ctxErr I R dmx =
     (case ctxErr (dmx_r dmx) of
       Some e \<Rightarrow> Some (Inl e, dmx)
     | None \<Rightarrow>
         let ((pb, err), dmx) = (case dmx_packetBuffer dmx of
               Some pb \<Rightarrow> ((pb, None), dmx)
             | None \<Rightarrow> (case newPacketBuffer R (dmx_optPacketSize dmx) (dmx_r dmx) of
                 ((pb, err), r) \<Rightarrow> ((pb, err), dmx\<lparr>dmx_packetBuffer := Some pb, dmx_r := r\<rparr>))) in
         case err of
           Some e \<Rightarrow> Some (Inl (wrapError ''astits: creating packet buffer failed: '' e), dmx)
         | None \<Rightarrow> map_option (\<lambda>(p, r). (case p of
               Inl e \<Rightarrow> Inl (if e \<noteq> ErrNoMorePackets
                 then wrapError ''astits: fetching next packet from buffer failed: '' e else e)
             | Inr p \<Rightarrow> Inr p, dmx\<lparr>dmx_r := r\<rparr>)) (pb_next I R pb (dmx_r dmx)))"

section \<open>Data\<close>

text \<open>The programs of the tables among the data, except the one reserved for the NIT.\<close>

definition updateProgram :: "PATProgram \<Rightarrow> programMap \<Rightarrow> programMap" where
  "updateProgram pgm pm =
     (if pgm_ProgramNumber pgm > 0 then pm_set pm (pgm_ProgramMapID pgm) (pgm_ProgramNumber pgm) else pm)"

definition updatePrograms :: "DemuxerData list \<Rightarrow> programMap \<Rightarrow> programMap" where
  "updatePrograms ds pm =
     fold (\<lambda>v pm. case dd_PAT v of None \<Rightarrow> pm | Some pat \<Rightarrow> fold updateProgram (pat_Programs pat) pm) ds pm"

definition updateData :: "'r Demuxer \<Rightarrow> DemuxerData list \<Rightarrow> DemuxerData option \<times> 'r Demuxer" where
  "updateData dmx ds =
     (case ds of
       [] \<Rightarrow> (None, dmx)
     | d # rest \<Rightarrow> (Some d, dmx\<lparr>dmx_dataBuffer := dmx_dataBuffer dmx @ rest,
         dmx_programMap := updatePrograms ds (dmx_programMap dmx)\<rparr>))"

text \<open>
  The loop at the end of the stream. Its variables are the error and the demuxer; \<open>d\<close> is nil at
  the start of every turn. The result of \<^verbatim>\<open>NextData\<close> is a pair of pointers, the data and the error.
\<close>

type_synonym 'r nextData = "(DemuxerData option \<times> error option) \<times> 'r Demuxer"

definition dumpData :: "'i BytesIterator \<Rightarrow> error option \<Rightarrow> 'r Demuxer \<Rightarrow> 'r nextData option" where
  "dumpData I err dmx = goLoop
     (\<lambda>(err, dmx).
        case pool_dump (dmx_packetPool dmx) of (ps, pool) \<Rightarrow>
        let dmx = dmx\<lparr>dmx_packetPool := pool\<rparr> in
        if length ps = 0 then Some (Return ((None, err), dmx))
        else map_option (\<lambda>r. case r of
            Inl e \<Rightarrow> if e = Panic then Return ((None, Some Panic), dmx) else Continue (Some e, dmx)
          | Inr ds \<Rightarrow> (case updateData dmx ds of
                (Some d, dmx) \<Rightarrow> Return ((Some d, None), dmx)
              | (None, dmx) \<Rightarrow> Continue (None, dmx)))
          (parseData I ps (dmx_optPacketsParser dmx) (dmx_programMap dmx)))
     (err, dmx)"

text \<open>One turn of the loop over packets.\<close>

definition nextDataTurn ::
    "('r \<Rightarrow> error option) \<Rightarrow> 'i BytesIterator \<Rightarrow> 'r Reader \<Rightarrow> 'r Demuxer \<Rightarrow> ('r nextData, 'r Demuxer) flow option" where
  "nextDataTurn ctxErr I R dmx =
     (case NextPacket ctxErr I R dmx of
       None \<Rightarrow> None
     | Some (Inl e, dmx) \<Rightarrow>
         if e = ErrNoMorePackets then map_option Return (dumpData I (Some e) dmx)
         else Some (Return ((None, Some (wrapError ''astits: fetching next packet failed: '' e)), dmx))
     | Some (Inr p, dmx) \<Rightarrow> (case pool_add (dmx_packetPool dmx) p of
           None \<Rightarrow> Some (Return ((None, Some Panic), dmx))
         | Some (ps, pool) \<Rightarrow>
             let dmx = dmx\<lparr>dmx_packetPool := pool\<rparr> in
             if length ps = 0 then Some (Continue dmx)
             else map_option (\<lambda>r. case r of
                 Inl e \<Rightarrow> Return ((None, Some (wrapError ''astits: building new data failed: '' e)), dmx)
               | Inr ds \<Rightarrow> (case updateData dmx ds of
                     (Some d, dmx) \<Rightarrow> Return ((Some d, None), dmx)
                   | (None, dmx) \<Rightarrow> Continue dmx))
               (parseData I ps (dmx_optPacketsParser dmx) (dmx_programMap dmx))))"

definition NextData ::
    "('r \<Rightarrow> error option) \<Rightarrow> 'i BytesIterator \<Rightarrow> 'r Reader \<Rightarrow> 'r Demuxer \<Rightarrow> 'r nextData option" where
  "NextData ctxErr I R dmx =
     (case dmx_dataBuffer dmx of
       d # rest \<Rightarrow> Some ((Some d, None), dmx\<lparr>dmx_dataBuffer := rest\<rparr>)
     | [] \<Rightarrow> goLoop (nextDataTurn ctxErr I R) dmx)"

definition Rewind :: "'r Reader \<Rightarrow> 'r Demuxer \<Rightarrow> (error + int) \<times> 'r Demuxer" where
  "Rewind R dmx =
     (let dmx = dmx\<lparr>dmx_dataBuffer := [], dmx_packetBuffer := None, dmx_packetPool := newPacketPool\<rparr> in
      case rewind R (dmx_r dmx) of (n, r) \<Rightarrow>
        (case n of Inl e \<Rightarrow> Inl (wrapError ''astits: rewinding reader failed: '' e) | Inr n \<Rightarrow> Inr n, dmx\<lparr>dmx_r := r\<rparr>))"

end
