(* ===== verification/Demuxer_Stream.thy ===== *)
theory Demuxer_Stream
  imports Demuxer
begin

text \<open>
  The demuxer on a stream: a contract for the caller's reader, an abstract specification of the data
  that a stream of packets holds, and that successive calls of \<^verbatim>\<open>NextData\<close> return them.
\<close>

section \<open>Readers of byte streams\<close>

text \<open>The loop of \<^const>\<open>readFull\<close>, and what it comes to on the bytes that are left.\<close>

abbreviation readTurn :: "'r Reader \<Rightarrow> nat \<Rightarrow> byte list \<times> 'r \<Rightarrow> ((error + byte list) \<times> 'r, byte list \<times> 'r) flow option" where
  "readTurn R n \<equiv> (\<lambda>(buf, r).
     if n \<le> length buf then Some (Return (Inr buf, r))
     else case rd_Read R (n - length buf) r of ((b, k, err), r) \<Rightarrow>
       let buf = buf @ take k b in
       case err of
         None \<Rightarrow> Some (Continue (buf, r))
       | Some e \<Rightarrow> Some (Return
           (if n \<le> length buf then Inr buf
            else Inl (if length buf > 0 \<and> e = ErrEOF then ErrUnexpectedEOF else e), r)))"

definition full_bytes :: "nat \<Rightarrow> byte list \<Rightarrow> error + byte list" where
  "full_bytes n bs = (if n \<le> length bs then Inr (take n bs) else Inl (if bs = [] then ErrEOF else ErrUnexpectedEOF))"

text \<open>
  \<open>left r\<close> is what the reader has not delivered yet. A call of \<^verbatim>\<open>Read\<close> delivers at least
  one byte as long as there is one, possibly together with the end of the file, and ends with
  \<^verbatim>\<open>io.EOF\<close> after that, as the documentation of \<^verbatim>\<open>io.Reader\<close> asks.
\<close>

locale byte_reader =
  fixes R :: "'r Reader" and left :: "'r \<Rightarrow> byte list"
  assumes Read_some: "0 < n \<Longrightarrow> left r \<noteq> [] \<Longrightarrow>
      \<exists>b k err r'. rd_Read R n r = ((b, k, err), r') \<and> 0 < k \<and> k \<le> n \<and> k \<le> length (left r) \<and>
        take k b = take k (left r) \<and> left r' = drop k (left r) \<and> (err = None \<or> err = Some ErrEOF \<and> left r' = [])"
    and Read_end: "0 < n \<Longrightarrow> left r = [] \<Longrightarrow> \<exists>b r'. rd_Read R n r = ((b, 0, Some ErrEOF), r') \<and> left r' = []"
begin

lemma readFull_loop:
  assumes "length buf \<le> n"
  shows "\<exists>r'. goLoop (readTurn R n) (buf, r) = Some (full_bytes n (buf @ left r), r') \<and> left r' = drop (n - length buf) (left r)"
  using assms
proof (induction "n - length buf" arbitrary: buf r rule: less_induct)
  case less
  show ?case
  proof (cases "n \<le> length buf")
    case True
    with less.prems show ?thesis by (subst goLoop.simps) (simp add: full_bytes_def)
  next
    case False
    then have n: "0 < n - length buf" by simp
    show ?thesis
    proof (cases "left r = []")
      case True
      from Read_end[OF n True] obtain b r' where "rd_Read R (n - length buf) r = ((b, 0, Some ErrEOF), r')" "left r' = []" by blast
      with False True show ?thesis by (subst goLoop.simps) (simp add: full_bytes_def)
    next
      case more: False
      from Read_some[OF n more] obtain b k err r' where rd: "rd_Read R (n - length buf) r = ((b, k, err), r')"
        and k: "0 < k" "k \<le> n - length buf" "k \<le> length (left r)" "take k b = take k (left r)" "left r' = drop k (left r)"
        and err: "err = None \<or> err = Some ErrEOF \<and> left r' = []" by blast
      let ?buf = "buf @ take k (left r)"
      have buf: "?buf @ left r' = buf @ left r" "drop (n - length ?buf) (left r') = drop (n - length buf) (left r)"
        using k by (simp_all add: add.commute)
      show ?thesis
      proof (cases err)
        case None
        have "n - length ?buf < n - length buf" "length ?buf \<le> n" using k n by simp_all
        from less.hyps[OF this, of r'] show ?thesis
          unfolding buf by (subst goLoop.simps) (use False None rd k in simp)
      next
        case (Some e)
        with err have e: "e = ErrEOF" "left r' = []" by auto
        then have r: "take k (left r) = left r" using k(5) by simp
        show ?thesis
          by (subst goLoop.simps) (use False Some rd k e r more in \<open>auto simp: full_bytes_def\<close>)
      qed
    qed
  qed
qed

lemma readFull_full: "\<exists>r'. readFull R n r = Some (full_bytes n (left r), r') \<and> left r' = drop n (left r)"
  using readFull_loop[of "[]" n r] by (simp add: readFull_def)

end

text \<open>
  A file: its content and a position, with \<^verbatim>\<open>Seek\<close>. Each read delivers at most 1000 bytes and
  reports the end of the file only in a read of its own.
\<close>

definition fileReader :: "(byte list \<times> nat) Reader" where
  "fileReader = \<lparr>
     rd_Read = (\<lambda>n (bs, pos).
       let chunk = take (min n 1000) (drop pos bs) in
       ((chunk @ replicate (n - length chunk) 0, length chunk, if chunk = [] \<and> 0 < n then Some ErrEOF else None),
        (bs, pos + length chunk))),
     rd_Peek = None,
     rd_Seek = Some (\<lambda>(bs, pos). (Inr 0, (bs, 0)))\<rparr>"

interpretation file_reader: byte_reader fileReader "\<lambda>(bs, pos). drop pos bs"
proof
  fix n :: nat and r :: "byte list \<times> nat"
  obtain bs pos where r: "r = (bs, pos)" by (cases r)
  let ?chunk = "take (min n 1000) (drop pos bs)"
  show "\<exists>b k err r'. rd_Read fileReader n r = ((b, k, err), r') \<and> 0 < k \<and> k \<le> n \<and>
      k \<le> length (case r of (bs, pos) \<Rightarrow> drop pos bs) \<and> take k b = take k (case r of (bs, pos) \<Rightarrow> drop pos bs) \<and>
      (case r' of (bs, pos) \<Rightarrow> drop pos bs) = drop k (case r of (bs, pos) \<Rightarrow> drop pos bs) \<and>
      (err = None \<or> err = Some ErrEOF \<and> (case r' of (bs, pos) \<Rightarrow> drop pos bs) = [])"
    if "0 < n" "(case r of (bs, pos) \<Rightarrow> drop pos bs) \<noteq> []"
    using that
    by (intro exI[of _ "?chunk @ replicate (n - length ?chunk) 0"] exI[of _ "length ?chunk"] exI[of _ None]
        exI[of _ "(bs, pos + length ?chunk)"]) (auto simp: fileReader_def r Let_def add.commute)
  show "\<exists>b r'. rd_Read fileReader n r = ((b, 0, Some ErrEOF), r') \<and> (case r' of (bs, pos) \<Rightarrow> drop pos bs) = []"
    if "0 < n" "(case r of (bs, pos) \<Rightarrow> drop pos bs) = []"
    using that by (simp add: fileReader_def r)
qed

section \<open>Packets of a stream\<close>

text \<open>The demuxer reads packets of \<open>n\<close> bytes.\<close>

definition sized :: "nat \<Rightarrow> 'r Demuxer \<Rightarrow> bool" where
  "sized n dmx \<longleftrightarrow> 0 < n \<and>
     (case dmx_packetBuffer dmx of None \<Rightarrow> dmx_optPacketSize dmx = int n | Some pb \<Rightarrow> pb_packetSize pb = int n)"

definition opened :: "nat \<Rightarrow> 'r \<Rightarrow> 'r Demuxer \<Rightarrow> 'r Demuxer" where
  "opened n r dmx = dmx\<lparr>dmx_packetBuffer := Some \<lparr>pb_packetSize = int n\<rparr>, dmx_r := r\<rparr>"

lemma opened_simps [simp]:
  "dmx_r (opened n r dmx) = r" "dmx_packetPool (opened n r dmx) = dmx_packetPool dmx"
  "dmx_programMap (opened n r dmx) = dmx_programMap dmx" "dmx_dataBuffer (opened n r dmx) = dmx_dataBuffer dmx"
  "dmx_optPacketsParser (opened n r dmx) = dmx_optPacketsParser dmx"
  "sized n (opened n r dmx) \<longleftrightarrow> 0 < n"
  by (simp_all add: opened_def sized_def)

lemma sized_keeps [simp]:
  "sized n (dmx\<lparr>dmx_packetPool := b\<rparr>) = sized n dmx" "sized n (dmx\<lparr>dmx_dataBuffer := ds\<rparr>) = sized n dmx"
  "sized n (dmx\<lparr>dmx_programMap := pm\<rparr>) = sized n dmx"
  by (simp_all add: sized_def cong: option.case_cong)

text \<open>The slices of \<open>n\<close> bytes that a stream is cut into; a shorter rest at the end is dropped.\<close>

function chunks :: "nat \<Rightarrow> byte list \<Rightarrow> byte list list" where
  "chunks n bs = (if n = 0 \<or> length bs < n then [] else take n bs # chunks n (drop n bs))"
  by pat_completeness auto
termination by (relation "measure (\<lambda>(_, bs). length bs)") auto

declare chunks.simps [simp del]

lemma chunks_short: "length bs < n \<Longrightarrow> chunks n bs = []"
  by (subst chunks.simps) simp

lemma chunks_Cons: "0 < n \<Longrightarrow> n \<le> length bs \<Longrightarrow> chunks n bs = take n bs # chunks n (drop n bs)"
  by (subst chunks.simps) simp

lemma chunks_concat: "0 < n \<Longrightarrow> \<forall>w\<in>set ws. length w = n \<Longrightarrow> length rest < n \<Longrightarrow> chunks n (concat ws @ rest) = ws"
proof (induction ws)
  case (Cons w ws)
  then show ?case by (simp add: chunks_Cons)
qed (simp add: chunks_short)

context byte_reader
begin

lemma NextPacket_run:
  assumes "ctxErr (dmx_r dmx) = None" and "sized n dmx"
  shows "\<exists>r. left r = drop n (left (dmx_r dmx)) \<and> NextPacket ctxErr I R dmx =
    (if n \<le> length (left (dmx_r dmx))
     then map_option (\<lambda>p. (case p of
         Inl e \<Rightarrow> Inl (wrapError ''astits: fetching next packet from buffer failed: '' (wrapError ''astits: building packet failed: '' e))
       | Inr p \<Rightarrow> Inr p, opened n r dmx)) (parseBytes I (parsePacket I) (take n (left (dmx_r dmx))))
     else Some (Inl ErrNoMorePackets, opened n r dmx))"
proof -
  from assms(2) have n: "0 < n" by (simp add: sized_def)
  from readFull_full[of n "dmx_r dmx"] obtain r where
    r: "readFull R n (dmx_r dmx) = Some (full_bytes n (left (dmx_r dmx)), r)" "left r = drop n (left (dmx_r dmx))" by blast
  have pb: "pb_next I R \<lparr>pb_packetSize = int n\<rparr> (dmx_r dmx) =
    (if n \<le> length (left (dmx_r dmx))
     then map_option (\<lambda>p. (case p of Inl e \<Rightarrow> Inl (wrapError ''astits: building packet failed: '' e) | Inr p \<Rightarrow> Inr p, r))
       (parseBytes I (parsePacket I) (take n (left (dmx_r dmx))))
     else Some (Inl ErrNoMorePackets, r))"
    by (simp add: pb_next_def r(1) full_bytes_def)
  have wrap: "wrapError ''astits: building packet failed: '' e \<noteq> ErrNoMorePackets" for e by (simp add: wrapError_def)
  have buf: "(case dmx_packetBuffer dmx of
       Some pb \<Rightarrow> ((pb, None), dmx)
     | None \<Rightarrow> (case newPacketBuffer R (dmx_optPacketSize dmx) (dmx_r dmx) of
         ((pb, err), r) \<Rightarrow> ((pb, err), dmx\<lparr>dmx_packetBuffer := Some pb, dmx_r := r\<rparr>))) =
     ((\<lparr>pb_packetSize = int n\<rparr>, None), opened n (dmx_r dmx) dmx)"
    using assms(2) n by (cases dmx) (auto simp: sized_def opened_def newPacketBuffer_def split: option.splits)
  have "NextPacket ctxErr I R dmx = map_option (\<lambda>(p, r). (case p of
               Inl e \<Rightarrow> Inl (if e \<noteq> ErrNoMorePackets
                 then wrapError ''astits: fetching next packet from buffer failed: '' e else e)
             | Inr p \<Rightarrow> Inr p, opened n r dmx)) (pb_next I R \<lparr>pb_packetSize = int n\<rparr> (dmx_r dmx))"
    by (simp add: NextPacket_def assms(1) buf Let_def opened_def)
  also have "\<dots> = (if n \<le> length (left (dmx_r dmx))
     then map_option (\<lambda>p. (case p of
         Inl e \<Rightarrow> Inl (wrapError ''astits: fetching next packet from buffer failed: '' (wrapError ''astits: building packet failed: '' e))
       | Inr p \<Rightarrow> Inr p, opened n r dmx)) (parseBytes I (parsePacket I) (take n (left (dmx_r dmx))))
     else Some (Inl ErrNoMorePackets, opened n r dmx))"
    unfolding pb by (cases "parseBytes I (parsePacket I) (take n (left (dmx_r dmx)))") (auto simp: wrap split: sum.split)
  finally show ?thesis using r(2) by blast
qed

end

section \<open>The data of a stream\<close>

text \<open>
  The units of a stream, in the order in which the demuxer gets them: those that the pool completes,
  and those left in it at the end, by ascending PID.
\<close>

definition units_from :: "packetPool \<Rightarrow> Packet list \<Rightarrow> Packet list list option" where
  "units_from pool ps = map_option (\<lambda>(us, b). map snd us @ map snd (pool_pending b)) (adds pool_add pool ps)"

text \<open>The data of units: each is parsed with the programs of the tables before it.\<close>

primrec demuxed ::
    "'i BytesIterator \<Rightarrow> PacketsParser option \<Rightarrow> programMap \<Rightarrow> Packet list list \<Rightarrow> DemuxerData list option" where
  "demuxed I prs pm [] = Some []"
| "demuxed I prs pm (u # us) = (case parseData I u prs pm of
      Some (Inr ds) \<Rightarrow> map_option (\<lambda>ds'. ds @ ds') (demuxed I prs (updatePrograms ds pm) us)
    | _ \<Rightarrow> None)"

lemma demuxed_ConsE:
  assumes "demuxed I prs pm (u # us) = Some ds"
  obtains ds1 ds2 where "parseData I u prs pm = Some (Inr ds1)" "demuxed I prs (updatePrograms ds1 pm) us = Some ds2" "ds = ds1 @ ds2"
  using assms by (auto split: option.splits sum.splits)

lemma updatePrograms_Nil [simp]: "updatePrograms [] pm = pm"
  by (simp add: updatePrograms_def)

text \<open>\<open>outcome\<close>: what a call of \<^verbatim>\<open>NextData\<close> returns when \<open>ds\<close> are the data to come.\<close>

definition outcome :: "DemuxerData list \<Rightarrow> DemuxerData option \<times> error option \<Rightarrow> bool" where
  "outcome ds res \<longleftrightarrow> (case ds of [] \<Rightarrow> res \<in> {(None, None), (None, Some ErrNoMorePackets)} | d # _ \<Rightarrow> res = (Some d, None))"

text \<open>The end of the stream.\<close>

lemma dumpData_turn:
  assumes "pool_dump (dmx_packetPool dmx) = (u, b)" and "u \<noteq> []"
    and "parseData I u (dmx_optPacketsParser dmx) (dmx_programMap dmx) = Some (Inr ds)"
  shows "dumpData I err dmx = (case ds of
      [] \<Rightarrow> dumpData I None (dmx\<lparr>dmx_packetPool := b\<rparr>)
    | d # rest \<Rightarrow> Some ((Some d, None), dmx\<lparr>dmx_packetPool := b, dmx_dataBuffer := dmx_dataBuffer dmx @ rest,
        dmx_programMap := updatePrograms ds (dmx_programMap dmx)\<rparr>))"
  unfolding dumpData_def
  by (subst goLoop.simps) (use assms in \<open>simp add: updateData_def split: list.split\<close>)

text \<open>The data that are still to come from the pool, and the parts of a demuxer that emptying it leaves alone.\<close>

definition draining :: "'i BytesIterator \<Rightarrow> 'r Demuxer \<Rightarrow> DemuxerData list \<Rightarrow> bool" where
  "draining I dmx ds \<longleftrightarrow> (\<exists>ds'. ds = dmx_dataBuffer dmx @ ds' \<and>
     demuxed I (dmx_optPacketsParser dmx) (dmx_programMap dmx) (map snd (pool_pending (dmx_packetPool dmx))) = Some ds')"

definition same_input :: "'r Demuxer \<Rightarrow> 'r Demuxer \<Rightarrow> bool" where
  "same_input dmx dmx' \<longleftrightarrow> dmx_r dmx' = dmx_r dmx \<and> dmx_packetBuffer dmx' = dmx_packetBuffer dmx \<and>
     dmx_optPacketSize dmx' = dmx_optPacketSize dmx \<and> dmx_optPacketsParser dmx' = dmx_optPacketsParser dmx"

lemma dumpData_run:
  assumes "draining I dmx ds" and "dmx_dataBuffer dmx = []" and "err \<in> {None, Some ErrNoMorePackets}"
  shows "\<exists>res dmx'. dumpData I err dmx = Some (res, dmx') \<and> outcome ds res \<and> draining I dmx' (tl ds) \<and> same_input dmx dmx' \<and>
    (ds = [] \<longrightarrow> pool_pending (dmx_packetPool dmx') = []) \<and> (pool_pending (dmx_packetPool dmx) = [] \<longrightarrow> res = (None, err))"
  using assms
proof (induction "pool_pending (dmx_packetPool dmx)" arbitrary: dmx err)
  case Nil
  from pool_dump_pending(1)[OF Nil(1)[symmetric]] have "dumpData I err dmx = Some ((None, err), dmx\<lparr>dmx_packetPool := newPacketPool\<rparr>)"
    unfolding dumpData_def by (subst goLoop.simps) simp
  moreover have "pool_pending newPacketPool = []" by (simp add: pool_pending_def packet_pool.buffer_new)
  ultimately show ?case using Nil by (auto simp: outcome_def draining_def same_input_def)
next
  case (Cons ku us)
  obtain k u where ku: "ku = (k, u)" by (cases ku)
  with Cons(2) pool_dump_pending(2)[of "dmx_packetPool dmx" k u us] obtain b where
    b: "pool_dump (dmx_packetPool dmx) = (u, b)" "pool_pending b = us" by auto
  have "(k, u) \<in> set (pool_pending (dmx_packetPool dmx))" using Cons(2) ku by (metis list.set_intros(1))
  then have "u \<noteq> []" by (simp add: set_pending)
  have ne: "pool_pending (dmx_packetPool dmx) \<noteq> []" using Cons(2) by (metis list.distinct(1))
  have units: "map snd (pool_pending (dmx_packetPool dmx)) = u # map snd us" using Cons(2) ku by (metis list.simps(9) snd_conv)
  from Cons.prems(1,2) have "demuxed I (dmx_optPacketsParser dmx) (dmx_programMap dmx) (u # map snd us) = Some ds"
    by (simp add: draining_def units)
  then obtain ds1 ds2 where ds1: "parseData I u (dmx_optPacketsParser dmx) (dmx_programMap dmx) = Some (Inr ds1)"
    and ds2: "demuxed I (dmx_optPacketsParser dmx) (updatePrograms ds1 (dmx_programMap dmx)) (map snd us) = Some ds2" "ds = ds1 @ ds2"
    by (rule demuxed_ConsE)
  note turn = dumpData_turn[OF b(1) \<open>u \<noteq> []\<close> ds1, of err]
  show ?case
  proof (cases ds1)
    case Nil
    let ?dmx = "dmx\<lparr>dmx_packetPool := b\<rparr>"
    have "draining I ?dmx ds" using ds2 Nil b(2) Cons.prems(2) by (simp add: draining_def)
    from Cons.hyps(1)[of ?dmx None, OF _ this] b(2) Cons.prems(2) obtain res dmx' where
      "dumpData I None ?dmx = Some (res, dmx')" "outcome ds res" "draining I dmx' (tl ds)" "same_input ?dmx dmx'"
      "ds = [] \<longrightarrow> pool_pending (dmx_packetPool dmx') = []" by auto
    with turn Nil ne show ?thesis by (auto simp: same_input_def)
  next
    case (Cons d rest)
    with turn ds2 b(2) ne \<open>dmx_dataBuffer dmx = []\<close> show ?thesis by (simp add: outcome_def draining_def same_input_def)
  qed
qed

text \<open>A packet that was parsed has the adaptation field that its header announces; the pool takes it.\<close>

lemma parsePacket_has_field:
  assumes "parseBytes I (parsePacket I) bs = Some (Inr p)"
  shows "has_field p"
proof -
  from assms obtain i where "parsePacket I (bi_New I bs) = Some (Inr (p, i))"
    by (auto simp: parseBytes_def split: option.splits sum.splits)
  then show ?thesis
    by (auto simp: parsePacket_def parsePacketContents_def has_field_def pwhen_def psome_def preturn_def pfail_def
        elim!: pbind_InrE split: if_splits)
qed

lemma units_from_total:
  assumes "\<forall>p\<in>set ps. has_field p"
  shows "\<exists>us. units_from pool ps = Some us"
  using packet_pool.adds_assembles[OF assms, of pool] by (auto simp: units_from_def)

section \<open>The calls of NextData\<close>

text \<open>\<open>coming\<close>: the data that the calls of \<^verbatim>\<open>NextData\<close> will return.\<close>

definition parses_to :: "'i BytesIterator \<Rightarrow> byte list \<Rightarrow> Packet \<Rightarrow> bool" where
  "parses_to I w p \<longleftrightarrow> parseBytes I (parsePacket I) w = Some (Inr p)"

definition coming :: "'i BytesIterator \<Rightarrow> nat \<Rightarrow> byte list \<Rightarrow> 'r Demuxer \<Rightarrow> DemuxerData list \<Rightarrow> bool" where
  "coming I n bs dmx ds \<longleftrightarrow> sized n dmx \<and> (\<exists>ps us ds'. list_all2 (parses_to I) (chunks n bs) ps \<and>
     units_from (dmx_packetPool dmx) ps = Some us \<and> ds = dmx_dataBuffer dmx @ ds' \<and>
     demuxed I (dmx_optPacketsParser dmx) (dmx_programMap dmx) us = Some ds')"

lemma coming_end: "length bs < n \<Longrightarrow> coming I n bs dmx ds \<longleftrightarrow> sized n dmx \<and> draining I dmx ds"
  by (auto simp: coming_def draining_def chunks_short units_from_def)

lemma coming_next:
  assumes "coming I n bs dmx ds" and "n \<le> length bs"
  obtains p u b where "parses_to I (take n bs) p" "pool_add (dmx_packetPool dmx) p = Some (u, b)"
    "u = [] \<Longrightarrow> coming I n (drop n bs) (dmx\<lparr>dmx_packetPool := b\<rparr>) ds"
    "u \<noteq> [] \<Longrightarrow> \<exists>ds1 ds2. parseData I u (dmx_optPacketsParser dmx) (dmx_programMap dmx) = Some (Inr ds1) \<and>
      ds = dmx_dataBuffer dmx @ ds1 @ ds2 \<and> coming I n (drop n bs) (dmx\<lparr>dmx_packetPool := b, dmx_dataBuffer := [],
        dmx_programMap := updatePrograms ds1 (dmx_programMap dmx)\<rparr>) ds2"
proof -
  from assms(1) have n: "0 < n" by (simp add: coming_def sized_def)
  from assms(1) obtain ps us ds' where all: "list_all2 (parses_to I) (chunks n bs) ps"
    and us: "units_from (dmx_packetPool dmx) ps = Some us" and ds: "ds = dmx_dataBuffer dmx @ ds'"
    "demuxed I (dmx_optPacketsParser dmx) (dmx_programMap dmx) us = Some ds'" by (auto simp: coming_def)
  from all obtain p ps' where ps: "ps = p # ps'" "parses_to I (take n bs) p" "list_all2 (parses_to I) (chunks n (drop n bs)) ps'"
    unfolding chunks_Cons[OF n assms(2)] by (auto simp: list_all2_Cons1)
  from us ps(1) obtain u b us' where u: "pool_add (dmx_packetPool dmx) p = Some (u, b)" "units_from b ps' = Some us'"
    "us = (if u = [] then us' else u # us')"
    by (auto simp: units_from_def split: option.splits)
  show thesis
  proof (rule that[OF ps(2) u(1)])
    show "coming I n (drop n bs) (dmx\<lparr>dmx_packetPool := b\<rparr>) ds" if "u = []"
      using assms(1) ps(3) u ds that by (auto simp: coming_def)
    show "\<exists>ds1 ds2. parseData I u (dmx_optPacketsParser dmx) (dmx_programMap dmx) = Some (Inr ds1) \<and>
      ds = dmx_dataBuffer dmx @ ds1 @ ds2 \<and> coming I n (drop n bs) (dmx\<lparr>dmx_packetPool := b, dmx_dataBuffer := [],
        dmx_programMap := updatePrograms ds1 (dmx_programMap dmx)\<rparr>) ds2" if "u \<noteq> []"
    proof -
      have "us = u # us'" using u(3) that by simp
      from ds(2)[unfolded this] obtain ds1 ds2 where "parseData I u (dmx_optPacketsParser dmx) (dmx_programMap dmx) = Some (Inr ds1)"
        "demuxed I (dmx_optPacketsParser dmx) (updatePrograms ds1 (dmx_programMap dmx)) us' = Some ds2" "ds' = ds1 @ ds2"
        by (rule demuxed_ConsE)
      with assms(1) ps(3) u(2) ds(1) show ?thesis by (auto simp: coming_def)
    qed
  qed
qed

context byte_reader
begin

lemma nextDataTurn_next:
  assumes "ctxErr (dmx_r dmx) = None" and "coming I n (left (dmx_r dmx)) dmx ds" and "dmx_dataBuffer dmx = []"
    and "n \<le> length (left (dmx_r dmx))"
  shows "(\<exists>dmx'. nextDataTurn ctxErr I R dmx = Some (Continue dmx') \<and> coming I n (left (dmx_r dmx')) dmx' ds \<and>
      dmx_dataBuffer dmx' = [] \<and> left (dmx_r dmx') = drop n (left (dmx_r dmx))) \<or>
    (\<exists>d dmx'. nextDataTurn ctxErr I R dmx = Some (Return ((Some d, None), dmx')) \<and> ds = d # tl ds \<and>
      coming I n (left (dmx_r dmx')) dmx' (tl ds))"
proof -
  from assms(2) have n: "sized n dmx" "0 < n" by (simp_all add: coming_def sized_def)
  from NextPacket_run[of ctxErr dmx n I, OF assms(1) n(1)] obtain r where r: "left r = drop n (left (dmx_r dmx))" and
    fetch: "NextPacket ctxErr I R dmx = map_option (\<lambda>p. (case p of
         Inl e \<Rightarrow> Inl (wrapError ''astits: fetching next packet from buffer failed: '' (wrapError ''astits: building packet failed: '' e))
       | Inr p \<Rightarrow> Inr p, opened n r dmx)) (parseBytes I (parsePacket I) (take n (left (dmx_r dmx))))"
    using assms(4) by auto
  have moved: "coming I n bs (opened n r dmx') es = coming I n bs dmx' es" if "sized n dmx'" for bs es and dmx' :: "'r Demuxer"
    using that n(2) by (simp add: coming_def)
  have "coming I n (left (dmx_r dmx)) (opened n r dmx) ds" using assms(2) moved n by simp
  from coming_next[OF this assms(4)] obtain p u b where p: "parses_to I (take n (left (dmx_r dmx))) p"
    and u: "pool_add (dmx_packetPool dmx) p = Some (u, b)"
    and cont: "u = [] \<Longrightarrow> coming I n (drop n (left (dmx_r dmx))) ((opened n r dmx)\<lparr>dmx_packetPool := b\<rparr>) ds"
    and ret: "u \<noteq> [] \<Longrightarrow> \<exists>ds1 ds2. parseData I u (dmx_optPacketsParser dmx) (dmx_programMap dmx) = Some (Inr ds1) \<and>
      ds = dmx_dataBuffer dmx @ ds1 @ ds2 \<and> coming I n (drop n (left (dmx_r dmx))) ((opened n r dmx)\<lparr>dmx_packetPool := b, dmx_dataBuffer := [],
        dmx_programMap := updatePrograms ds1 (dmx_programMap dmx)\<rparr>) ds2"
    by auto
  have turn: "nextDataTurn ctxErr I R dmx = (let dmx = (opened n r dmx)\<lparr>dmx_packetPool := b\<rparr> in
             if length u = 0 then Some (Continue dmx)
             else map_option (\<lambda>r. case r of
                 Inl e \<Rightarrow> Return ((None, Some (wrapError ''astits: building new data failed: '' e)), dmx)
               | Inr ds \<Rightarrow> (case updateData dmx ds of
                     (Some d, dmx) \<Rightarrow> Return ((Some d, None), dmx)
                   | (None, dmx) \<Rightarrow> Continue dmx))
               (parseData I u (dmx_optPacketsParser dmx) (dmx_programMap dmx)))"
    using p u by (simp add: nextDataTurn_def fetch parses_to_def)
  show ?thesis
  proof (cases "u = []")
    case True
    with turn cont r assms(3) show ?thesis by simp
  next
    case False
    from ret[OF False] obtain ds1 ds2 where ds1: "parseData I u (dmx_optPacketsParser dmx) (dmx_programMap dmx) = Some (Inr ds1)"
      "ds = ds1 @ ds2" and ds2: "coming I n (drop n (left (dmx_r dmx))) ((opened n r dmx)\<lparr>dmx_packetPool := b, dmx_dataBuffer := [],
        dmx_programMap := updatePrograms ds1 (dmx_programMap dmx)\<rparr>) ds2" using assms(3) by auto
    show ?thesis
    proof (cases ds1)
      case Nil
      have "(opened n r dmx)\<lparr>dmx_packetPool := b, dmx_dataBuffer := [], dmx_programMap := dmx_programMap dmx\<rparr> = (opened n r dmx)\<lparr>dmx_packetPool := b\<rparr>"
        using assms(3) by (cases dmx) (simp add: opened_def)
      with ds2 Nil have "coming I n (drop n (left (dmx_r dmx))) ((opened n r dmx)\<lparr>dmx_packetPool := b\<rparr>) ds2" by simp
      with turn False ds1 Nil r assms(3) show ?thesis by (simp add: updateData_def)
    next
      case (Cons d rest)
      with turn False ds1 assms(3) have "nextDataTurn ctxErr I R dmx = Some (Return ((Some d, None), (opened n r dmx)\<lparr>dmx_packetPool := b,
          dmx_dataBuffer := rest, dmx_programMap := updatePrograms ds1 (dmx_programMap dmx)\<rparr>))"
        by (simp add: updateData_def)
      moreover have "coming I n (drop n (left (dmx_r dmx))) ((opened n r dmx)\<lparr>dmx_packetPool := b, dmx_dataBuffer := rest,
          dmx_programMap := updatePrograms ds1 (dmx_programMap dmx)\<rparr>) (rest @ ds2)"
        using ds2 by (auto simp: coming_def)
      ultimately show ?thesis using r ds1(2) Cons by auto
    qed
  qed
qed

lemma nextDataTurn_end:
  assumes "ctxErr (dmx_r dmx) = None" and "sized n dmx" and "draining I dmx ds" and "dmx_dataBuffer dmx = []"
    and "length (left (dmx_r dmx)) < n"
  shows "\<exists>res dmx'. nextDataTurn ctxErr I R dmx = Some (Return (res, dmx')) \<and> outcome ds res \<and> sized n dmx' \<and> draining I dmx' (tl ds) \<and>
    left (dmx_r dmx') = [] \<and> (ds = [] \<longrightarrow> pool_pending (dmx_packetPool dmx') = []) \<and>
    (pool_pending (dmx_packetPool dmx) = [] \<longrightarrow> res = (None, Some ErrNoMorePackets))"
proof -
  from NextPacket_run[of ctxErr dmx n I, OF assms(1,2)] assms(5) obtain r where r: "left r = []"
    "NextPacket ctxErr I R dmx = Some (Inl ErrNoMorePackets, opened n r dmx)" by auto
  have "draining I (opened n r dmx) ds" using assms(3) by (simp add: draining_def)
  from dumpData_run[OF this, of "Some ErrNoMorePackets"] assms(4) obtain res dmx' where
    "dumpData I (Some ErrNoMorePackets) (opened n r dmx) = Some (res, dmx')" "outcome ds res" "draining I dmx' (tl ds)"
    "same_input (opened n r dmx) dmx'" "ds = [] \<longrightarrow> pool_pending (dmx_packetPool dmx') = []"
    "pool_pending (dmx_packetPool dmx) = [] \<longrightarrow> res = (None, Some ErrNoMorePackets)" by auto
  moreover from this(4) have "sized n dmx'" "dmx_r dmx' = r" using assms(2) by (simp_all add: same_input_def opened_def sized_def)
  ultimately show ?thesis using r by (simp add: nextDataTurn_def)
qed

lemma nextData_loop:
  assumes "\<forall>r. ctxErr r = None" and "coming I n (left (dmx_r dmx)) dmx ds" and "dmx_dataBuffer dmx = []"
  shows "\<exists>res dmx'. goLoop (nextDataTurn ctxErr I R) dmx = Some (res, dmx') \<and> outcome ds res \<and>
    coming I n (left (dmx_r dmx')) dmx' (tl ds) \<and>
    (ds = [] \<longrightarrow> left (dmx_r dmx') = [] \<and> pool_pending (dmx_packetPool dmx') = [] \<and> dmx_dataBuffer dmx' = [])"
  using assms
proof (induction "length (left (dmx_r dmx))" arbitrary: dmx rule: less_induct)
  case less
  from less.prems(2) have n: "0 < n" "sized n dmx" by (simp_all add: coming_def sized_def)
  have ctx: "ctxErr (dmx_r dmx) = None" using less.prems(1) by simp
  show ?case
  proof (cases "n \<le> length (left (dmx_r dmx))")
    case True
    from nextDataTurn_next[of ctxErr dmx, OF ctx less.prems(2,3) True] show ?thesis
    proof (elim disjE exE conjE)
      fix dmx' assume dmx': "nextDataTurn ctxErr I R dmx = Some (Continue dmx')" "coming I n (left (dmx_r dmx')) dmx' ds"
        "dmx_dataBuffer dmx' = []" "left (dmx_r dmx') = drop n (left (dmx_r dmx))"
      have "length (left (dmx_r dmx')) < length (left (dmx_r dmx))" using dmx'(4) True n by simp
      from less.hyps[OF this less.prems(1) dmx'(2,3)] show ?thesis by (simp add: goLoop_Continue[of "nextDataTurn ctxErr I R" dmx, OF dmx'(1)])
    next
      fix d dmx' assume dmx': "nextDataTurn ctxErr I R dmx = Some (Return ((Some d, None), dmx'))" "ds = d # tl ds"
        "coming I n (left (dmx_r dmx')) dmx' (tl ds)"
      then have "outcome ds (Some d, None)" "ds \<noteq> []" by (auto simp: outcome_def split: list.split)
      with dmx'(3) goLoop_Return[of "nextDataTurn ctxErr I R" dmx, OF dmx'(1)] show ?thesis by blast
    qed
  next
    case False
    then have short: "length (left (dmx_r dmx)) < n" by simp
    with less.prems(2) have "draining I dmx ds" by (simp add: coming_end)
    from nextDataTurn_end[of ctxErr dmx, OF ctx n(2) this less.prems(3) short] obtain res dmx' where
      dmx': "nextDataTurn ctxErr I R dmx = Some (Return (res, dmx'))" "outcome ds res" "sized n dmx'" "draining I dmx' (tl ds)"
      "left (dmx_r dmx') = []" "ds = [] \<longrightarrow> pool_pending (dmx_packetPool dmx') = []" by blast
    then have "coming I n (left (dmx_r dmx')) dmx' (tl ds)" using n by (simp add: coming_end)
    moreover have "ds = [] \<longrightarrow> dmx_dataBuffer dmx' = []" using dmx'(4) by (auto simp: draining_def)
    ultimately show ?thesis using dmx' goLoop_Return[of "nextDataTurn ctxErr I R" dmx, OF dmx'(1)] by blast
  qed
qed

lemma NextData_run:
  assumes "\<forall>r. ctxErr r = None" and "coming I n (left (dmx_r dmx)) dmx ds"
  shows "\<exists>res dmx'. NextData ctxErr I R dmx = Some (res, dmx') \<and> outcome ds res \<and>
    coming I n (left (dmx_r dmx')) dmx' (tl ds) \<and>
    (ds = [] \<longrightarrow> left (dmx_r dmx') = [] \<and> pool_pending (dmx_packetPool dmx') = [] \<and> dmx_dataBuffer dmx' = [])"
proof (cases "dmx_dataBuffer dmx")
  case Nil
  with nextData_loop[OF assms] show ?thesis by (simp add: NextData_def)
next
  case (Cons d rest)
  with assms(2) show ?thesis by (auto simp: NextData_def outcome_def coming_def)
qed

text \<open>After the end, every call reports that there are no more packets.\<close>

lemma NextData_ended:
  assumes "\<forall>r. ctxErr r = None" and "sized n dmx" and "left (dmx_r dmx) = []" and "pool_pending (dmx_packetPool dmx) = []"
    and "dmx_dataBuffer dmx = []"
  shows "\<exists>dmx'. NextData ctxErr I R dmx = Some ((None, Some ErrNoMorePackets), dmx')"
proof -
  have "draining I dmx []" using assms by (simp add: draining_def)
  with nextDataTurn_end[of ctxErr dmx n I "[]"] assms obtain dmx' where
    "nextDataTurn ctxErr I R dmx = Some (Return ((None, Some ErrNoMorePackets), dmx'))" by (auto simp: sized_def)
  from goLoop_Return[of "nextDataTurn ctxErr I R" dmx, OF this] show ?thesis by (simp add: NextData_def assms(5))
qed

end

text \<open>Calls of \<^verbatim>\<open>NextData\<close> in a row.\<close>

primrec nextDatas :: "('r \<Rightarrow> error option) \<Rightarrow> 'i BytesIterator \<Rightarrow> 'r Reader \<Rightarrow> nat \<Rightarrow> 'r Demuxer \<Rightarrow>
    ((DemuxerData option \<times> error option) list \<times> 'r Demuxer) option" where
  "nextDatas ctxErr I R 0 dmx = Some ([], dmx)"
| "nextDatas ctxErr I R (Suc k) dmx = (case NextData ctxErr I R dmx of
      None \<Rightarrow> None
    | Some (res, dmx) \<Rightarrow> map_option (\<lambda>(rs, dmx). (res # rs, dmx)) (nextDatas ctxErr I R k dmx))"

context byte_reader
begin

lemma nextDatas_run:
  assumes "\<forall>r. ctxErr r = None" and "coming I n (left (dmx_r dmx)) dmx ds"
  shows "\<exists>err dmx'. nextDatas ctxErr I R (length ds + 2) dmx =
      Some (map (\<lambda>d. (Some d, None)) ds @ [(None, err), (None, Some ErrNoMorePackets)], dmx') \<and> err \<in> {None, Some ErrNoMorePackets}"
  using assms(2)
proof (induction ds arbitrary: dmx)
  case Nil
  from NextData_run[OF assms(1) this] obtain res dmx1 where 1: "NextData ctxErr I R dmx = Some (res, dmx1)" "outcome [] res"
    "coming I n (left (dmx_r dmx1)) dmx1 []" "left (dmx_r dmx1) = []" "pool_pending (dmx_packetPool dmx1) = []" "dmx_dataBuffer dmx1 = []"
    by auto
  then have "sized n dmx1" by (simp add: coming_def)
  from NextData_ended[of ctxErr n dmx1 I, OF assms(1) this 1(4-6)] 1(1,2) show ?case
    by (auto simp: outcome_def numeral_2_eq_2)
next
  case (Cons d ds)
  from NextData_run[OF assms(1) this(2)] obtain dmx1 where "NextData ctxErr I R dmx = Some ((Some d, None), dmx1)"
    "coming I n (left (dmx_r dmx1)) dmx1 ds" by (auto simp: outcome_def)
  with Cons.IH[of dmx1] show ?case by auto
qed

end

text \<open>A new demuxer, on packets of \<open>n\<close> bytes, with or without a parser of the caller's.\<close>

lemma coming_new:
  assumes "0 < n" and "list_all2 (parses_to I) (chunks n (left r)) ps"
    and "units_from newPacketPool ps = Some us" and "demuxed I prs newProgramMap us = Some ds"
  defines "dmx \<equiv> NewDemuxer r (DemuxerOptPacketSize (int n) # (case prs of None \<Rightarrow> [] | Some p \<Rightarrow> [DemuxerOptPacketsParser p]))"
  shows "coming I n (left (dmx_r dmx)) dmx ds"
  using assms(1-4) unfolding dmx_def
  by (cases prs) (auto simp: coming_def NewDemuxer_def DemuxerOptPacketSize_def DemuxerOptPacketsParser_def sized_def)

section \<open>Properties\<close>

text \<open>
  \<^bold>\<open>C5\<close>. The demuxer refines its specification. Take a stream of packets of \<open>n\<close> bytes that
  all parse (a shorter rest at its end does not count), the units that the pool makes of them and the data of these units, each parsed with the
  programs of the tables before it, and all without an error. With a context that is never cancelled, a new demuxer returns
  exactly these data, one for each call of \<^verbatim>\<open>NextData\<close>, in this order. The call after that
  returns no data and no error or \<^verbatim>\<open>ErrNoMorePackets\<close>, and the one after that
  \<^verbatim>\<open>ErrNoMorePackets\<close>.
\<close>

theorem demuxer_returns_data:
  assumes "byte_reader R left" and "\<forall>r. ctxErr r = None" and "0 < n"
    and "list_all2 (parses_to I) (chunks n (left r)) ps"
    and "units_from newPacketPool ps = Some us" and "demuxed I prs newProgramMap us = Some ds"
  shows "\<exists>err dmx. nextDatas ctxErr I R (length ds + 2)
      (NewDemuxer r (DemuxerOptPacketSize (int n) # (case prs of None \<Rightarrow> [] | Some p \<Rightarrow> [DemuxerOptPacketsParser p]))) =
    Some (map (\<lambda>d. (Some d, None)) ds @ [(None, err), (None, Some ErrNoMorePackets)], dmx) \<and>
    err \<in> {None, Some ErrNoMorePackets}"
  by (rule byte_reader.nextDatas_run[OF assms(1,2) coming_new[where left = left, OF assms(3-6)]])

section \<open>Witness\<close>

text \<open>A file of two packets of one PID, each with a PES packet, and a stray byte after them.\<close>

definition samplePESPacket :: "uint8 \<Rightarrow> Packet" where
  "samplePESPacket cc = \<lparr>p_AdaptationField = None,
     p_Header = \<lparr>ph_ContinuityCounter = cc, ph_HasAdaptationField = False, ph_HasPayload = True, ph_PayloadUnitStartIndicator = True,
       ph_PID = 0x100, ph_TransportErrorIndicator = False, ph_TransportPriority = False, ph_TransportScramblingControl = 0\<rparr>,
     p_Payload = [0, 0, 1, 0xbe, 0, 0] @ replicate 178 7\<rparr>"

definition sampleFile :: "byte list" where
  "sampleFile = [0x47, 0x41, 0, 0x10, 0, 0, 1, 0xbe, 0, 0] @ replicate 178 7 @ [0x47, 0x41, 0, 0x11, 0, 0, 1, 0xbe, 0, 0] @ replicate 178 7 @ [0x47]"

definition samplePESDatum :: "uint8 \<Rightarrow> DemuxerData" where
  "samplePESDatum cc = (newDemuxerData (samplePESPacket cc) 0x100)\<lparr>dd_PES := Some \<lparr>pes_Data = replicate 178 7,
     pes_Header = \<lparr>pes_OptionalHeader = None, pes_PacketLength = 0, pes_StreamID = 0xbe\<rparr>\<rparr>\<rparr>"

lemma sampleFile:
  "list_all2 (parses_to refIterator) (chunks 188 sampleFile) [samplePESPacket 0, samplePESPacket 1]"
  "units_from newPacketPool [samplePESPacket 0, samplePESPacket 1] = Some [[samplePESPacket 0], [samplePESPacket 1]]"
  "demuxed refIterator None newProgramMap [[samplePESPacket 0], [samplePESPacket 1]] = Some [samplePESDatum 0, samplePESDatum 1]"
  by code_simp+

theorem demuxer_returns_data_witness:
  "\<exists>err dmx. nextDatas (\<lambda>_. None) refIterator fileReader 4 (NewDemuxer (sampleFile, 0) [DemuxerOptPacketSize 188]) =
    Some ([(Some (samplePESDatum 0), None), (Some (samplePESDatum 1), None), (None, err), (None, Some ErrNoMorePackets)], dmx)"
  using demuxer_returns_data[OF file_reader.byte_reader_axioms, of "\<lambda>_. None" 188 refIterator "(sampleFile, 0)", OF _ _ _ sampleFile(2,3)] sampleFile(1)
  by (auto simp: numeral_eq_Suc simp del: nextDatas.simps)

end
