(* ===== verification/Psi_Codec.thy ===== *)
theory Psi_Codec
  imports Psi
begin

text \<open>
  What the serialisers of sections write and the parser reads: formats of program association and
  program map tables, the checksum through the write callback, and the round trip of
  \<^verbatim>\<open>writePSIData\<close> and \<^verbatim>\<open>parsePSIData\<close>.
\<close>

section \<open>Formats\<close>

text \<open>The tables that the package writes.\<close>

type_synonym stream = "StreamType \<times> uint16 \<times> content list"

datatype table = TPAT "PATProgram list" | TPMT uint16 "content list" "stream list"

definition program_bits :: "PATProgram \<Rightarrow> bool list" where
  "program_bits p = bits_of 16 (pgm_ProgramNumber p) @ bits_of 3 (0xff :: uint8) @ bits_of 13 (pgm_ProgramMapID p)"

fun stream_bits :: "stream \<Rightarrow> bool list" where
  "stream_bits (t, pid, cs) = bits_of 8 t @ bits_of 3 (0xff :: uint8) @ bits_of 13 pid @ descriptors_bits cs"

fun stream_of :: "stream \<Rightarrow> PMTElementaryStream" where
  "stream_of (t, pid, cs) = \<lparr>es_ElementaryPID = pid, es_ElementaryStreamDescriptors = map descriptor_of cs, es_StreamType = t\<rparr>"

fun wf_stream :: "stream \<Rightarrow> bool" where
  "wf_stream (t, pid, cs) \<longleftrightarrow> fits 13 pid \<and> (\<forall>c\<in>set cs. wf_content c) \<and> descriptors_size cs < 4096"

fun stream_size :: "stream \<Rightarrow> nat" where
  "stream_size (t, pid, cs) = 5 + descriptors_size cs"

fun table_id :: "table \<Rightarrow> PSITableID" where
  "table_id (TPAT _) = PSITableIDPAT"
| "table_id (TPMT _ _ _) = PSITableIDPMT"

fun table_bits :: "table \<Rightarrow> bool list" where
  "table_bits (TPAT ps) = concat (map program_bits ps)"
| "table_bits (TPMT pcr cs ess) = bits_of 3 (0xff :: uint8) @ bits_of 13 pcr @ descriptors_bits cs @ concat (map stream_bits ess)"

fun table_size :: "table \<Rightarrow> nat" where
  "table_size (TPAT ps) = 4 * length ps"
| "table_size (TPMT pcr cs ess) = 4 + descriptors_size cs + (\<Sum>es\<leftarrow>ess. stream_size es)"

definition pat_of :: "uint16 \<Rightarrow> PATProgram list \<Rightarrow> PATData" where
  "pat_of ext ps = \<lparr>pat_Programs = ps, pat_TransportStreamID = ext\<rparr>"

definition pmt_of :: "uint16 \<Rightarrow> uint16 \<Rightarrow> content list \<Rightarrow> stream list \<Rightarrow> PMTData" where
  "pmt_of ext pcr cs ess = \<lparr>pmt_ElementaryStreams = map stream_of ess, pmt_PCRPID = pcr,
     pmt_ProgramDescriptors = map descriptor_of cs, pmt_ProgramNumber = ext\<rparr>"

fun table_data :: "uint16 \<Rightarrow> table \<Rightarrow> PSISectionSyntaxData" where
  "table_data ext (TPAT ps) = emptyPSISectionSyntaxData\<lparr>ssd_PAT := Some (pat_of ext ps)\<rparr>"
| "table_data ext (TPMT pcr cs ess) = emptyPSISectionSyntaxData\<lparr>ssd_PMT := Some (pmt_of ext pcr cs ess)\<rparr>"

fun wf_table :: "table \<Rightarrow> bool" where
  "wf_table (TPAT ps) \<longleftrightarrow> (\<forall>p\<in>set ps. fits 13 (pgm_ProgramMapID p))"
| "wf_table (TPMT pcr cs ess) \<longleftrightarrow> fits 13 pcr \<and> (\<forall>c\<in>set cs. wf_content c) \<and> descriptors_size cs < 4096 \<and>
     (\<forall>es\<in>set ess. wf_stream es)"

lemma length_descriptors_bits [simp]: "length (descriptors_bits cs) = 16 + 8 * descriptors_size cs"
  by (simp add: descriptors_bits_def descriptors_size_def del: bits_of_numeral)

lemma length_stream_bits [simp]: "length (stream_bits es) = 8 * stream_size es"
  by (cases es) (simp del: bits_of_numeral)

lemma length_program_bits [simp]: "length (program_bits p) = 32"
  by (simp add: program_bits_def del: bits_of_numeral)

lemma length_table_bits [simp]: "length (table_bits t) = 8 * table_size t"
  by (cases t) (simp_all add: length_concat o_def sum_list_triv sum_list_const_mult del: bits_of_numeral)

text \<open>
  A section as a caller gives it to the writer (its length field, checksum and type name may hold
  anything, except that a length of zero leaves the table out), and as the parser returns it.
\<close>

record sectionSpec =
  sp_Length :: uint16
  sp_CRC32 :: uint32
  sp_Type :: string
  sp_PrivateBit :: bool
  sp_SyntaxIndicator :: bool
  sp_Syntax :: PSISectionSyntaxHeader
  sp_Table :: table

definition section_of :: "sectionSpec \<Rightarrow> PSISection" where
  "section_of sp = \<lparr>sec_CRC32 = sp_CRC32 sp,
     sec_Header = Some \<lparr>psh_PrivateBit = sp_PrivateBit sp, psh_SectionLength = sp_Length sp,
       psh_SectionSyntaxIndicator = sp_SyntaxIndicator sp, psh_TableID = table_id (sp_Table sp), psh_TableType = sp_Type sp\<rparr>,
     sec_Syntax = Some \<lparr>syn_Data = Some (table_data (ssh_TableIDExtension (sp_Syntax sp)) (sp_Table sp)),
       syn_Header = Some (sp_Syntax sp)\<rparr>\<rparr>"

lemma sec_Header_section_of: "sec_Header (section_of sp) =
    Some \<lparr>psh_PrivateBit = sp_PrivateBit sp, psh_SectionLength = sp_Length sp,
      psh_SectionSyntaxIndicator = sp_SyntaxIndicator sp, psh_TableID = table_id (sp_Table sp), psh_TableType = sp_Type sp\<rparr>"
  by (simp add: section_of_def)

definition section_length :: "sectionSpec \<Rightarrow> uint16" where
  "section_length sp = word_of_nat (9 + table_size (sp_Table sp))"

definition syntax_bits :: "PSISectionSyntaxHeader \<Rightarrow> bool list" where
  "syntax_bits h = bits_of 16 (ssh_TableIDExtension h) @ bits_of 2 (0xff :: uint8) @ bits_of 5 (ssh_VersionNumber h) @
     [ssh_CurrentNextIndicator h] @ bits_of 8 (ssh_SectionNumber h) @ bits_of 8 (ssh_LastSectionNumber h)"

definition section_head :: "sectionSpec \<Rightarrow> bool list" where
  "section_head sp = bits_of 8 (ucast (table_id (sp_Table sp)) :: uint8) @ [sp_SyntaxIndicator sp, sp_PrivateBit sp] @
     bits_of 2 (0xff :: uint8) @ bits_of 12 (section_length sp)"

definition section_body :: "sectionSpec \<Rightarrow> bool list" where
  "section_body sp = section_head sp @ syntax_bits (sp_Syntax sp) @ table_bits (sp_Table sp)"

definition section_crc :: "sectionSpec \<Rightarrow> uint32" where
  "section_crc sp = computeCRC32 (bits_to_bytes (section_body sp))"

definition section_bits :: "sectionSpec \<Rightarrow> bool list" where
  "section_bits sp = section_body sp @ bits_of 32 (section_crc sp)"

definition settled :: "sectionSpec \<Rightarrow> sectionSpec" where
  "settled sp = sp\<lparr>sp_Length := section_length sp, sp_CRC32 := section_crc sp,
     sp_Type := PSITableID_Type (table_id (sp_Table sp))\<rparr>"

definition wf_section :: "sectionSpec \<Rightarrow> bool" where
  "wf_section sp \<longleftrightarrow> 0 < sp_Length sp \<and> fits 5 (ssh_VersionNumber (sp_Syntax sp)) \<and> wf_table (sp_Table sp) \<and>
     9 + table_size (sp_Table sp) < 4096"

lemma length_section [simp]:
  "length (section_head sp) = 24" "length (syntax_bits h) = 40"
  "length (section_body sp) = 64 + 8 * table_size (sp_Table sp)"
  "length (section_bits sp) = 96 + 8 * table_size (sp_Table sp)"
  by (simp_all add: section_head_def syntax_bits_def section_body_def section_bits_def del: bits_of_numeral)

definition psi_bits :: "nat \<Rightarrow> sectionSpec list \<Rightarrow> bool list" where
  "psi_bits n sps = bytes_to_bits (word_of_nat n # replicate n 0) @ concat (map section_bits sps)"

section \<open>Writing\<close>

lemma calcPMTStreamsLength_size:
  "\<forall>es\<in>set ess. wf_stream es \<Longrightarrow> calcPMTStreamsLength (map stream_of ess) = Some (word_of_nat (\<Sum>es\<leftarrow>ess. stream_size es))"
proof (induction ess)
  case (Cons es ess)
  then show ?case by (cases es) (simp add: calcDescriptorsLength_size)
qed simp

lemma calcPSISectionLength_size:
  assumes "wf_table (sp_Table sp)"
  shows "calcPSISectionLength (section_of sp) = Some (section_length sp)"
proof (cases "sp_Table sp")
  case (TPAT ps)
  then show ?thesis
    by (simp add: calcPSISectionLength_def section_of_def section_length_def hasPSISyntaxHeader_def hasCRC32_def
        calcPATSectionLength_def pat_of_def)
next
  case (TPMT pcr cs ess)
  with assms have "calcPMTSectionLength (pmt_of ext pcr cs ess) = Some (word_of_nat (table_size (sp_Table sp)))" for ext
    by (simp add: calcPMTSectionLength_def pmt_of_def calcPMTStreamsLength_size calcDescriptorsLength_size)
  with TPMT show ?thesis
    by (simp add: calcPSISectionLength_def section_of_def section_length_def hasPSISyntaxHeader_def hasCRC32_def table_ids)
qed

context bits_writer
begin

lemma emits_writePATSection:
  "emits view (writePATSection W (pat_of ext ps)) (concat (map program_bits ps)) (int (4 * length ps))"
proof -
  have eq: "concat (map wcmd_bits (concat (map (\<lambda>p. [Wr (AU16 (pgm_ProgramNumber p)), WrN (AU8 0xff) 3,
      WrN (AU16 (pgm_ProgramMapID p)) 13]) ps))) = concat (map program_bits ps)"
    by (induction ps) (simp_all add: program_bits_def del: bits_of_numeral)
  show ?thesis
    unfolding writePATSection_def
    by (rule emits_conv, rule emits_wbind[OF emits_batch], rule emits_wdone)
      (simp_all add: pat_of_def eq patSectionEntryBytesSize_def)
qed

lemma emits_writeStream:
  assumes "wf_stream es"
  shows "emits view (wbind (batch W [Wr (AU8 (es_StreamType (stream_of es))), WrN (AU8 0xff) 3,
      WrN (AU16 (es_ElementaryPID (stream_of es))) 13] None) (\<lambda>b.
     wbind (writeDescriptorsWithLength W (es_ElementaryStreamDescriptors (stream_of es))) (\<lambda>n.
     wreturn (b, bytesWritten + 3 + n)))) (stream_bits es) (None, bytesWritten + int (stream_size es))"
proof -
  obtain t pid cs where es: "es = (t, pid, cs)" by (cases es)
  with assms have cs: "\<forall>c\<in>set cs. wf_content c" by simp
  show ?thesis unfolding es stream_of.simps PMTElementaryStream.simps
    by (rule emits_conv, rule emits_wbind[OF emits_batch], rule emits_wbind[OF emits_writeDescriptorsWithLength[OF cs]],
        rule emits_wreturn) (simp_all del: bits_of_numeral)
qed

lemma emits_writePMTSection:
  assumes "\<forall>c\<in>set cs. wf_content c" and "\<forall>es\<in>set ess. wf_stream es"
  shows "emits view (writePMTSection W (pmt_of ext pcr cs ess)) (table_bits (TPMT pcr cs ess)) (int (table_size (TPMT pcr cs ess)))"
proof -
  let ?body = "\<lambda>es (b, bytesWritten). wbind (batch W [Wr (AU8 (es_StreamType es)), WrN (AU8 0xff) 3, WrN (AU16 (es_ElementaryPID es)) 13] b) (\<lambda>b.
       wbind (writeDescriptorsWithLength W (es_ElementaryStreamDescriptors es)) (\<lambda>n.
       wreturn (b, bytesWritten + 3 + n)))"
  have "emits view (wfor ess (\<lambda>es. ?body (stream_of es)) (None, k)) (concat (map stream_bits ess))
      (None, k + int (\<Sum>es\<leftarrow>ess. stream_size es))" for k
    using assms(2)
  proof (induction ess arbitrary: k)
    case Nil
    then show ?case by (simp add: emits_wreturn)
  next
    case (Cons es ess)
    have "emits view (wbind (?body (stream_of es) (None, k)) (wfor ess (\<lambda>es. ?body (stream_of es))))
        (stream_bits es @ concat (map stream_bits ess)) (None, k + int (stream_size es) + int (\<Sum>es\<leftarrow>ess. stream_size es))"
      unfolding prod.case by (rule emits_wbind, rule emits_writeStream, use Cons.prems in simp, rule Cons.IH, use Cons.prems in simp)
    then show ?case by (simp add: add.assoc)
  qed
  then have streams: "emits view (wfor (map stream_of ess) ?body (None, k)) (concat (map stream_bits ess))
      (None, k + int (\<Sum>es\<leftarrow>ess. stream_size es))" for k
    by (simp only: wfor_map)
  show ?thesis
    unfolding writePMTSection_def pmt_of_def PMTData.simps
    by (rule emits_conv, rule emits_wbind[OF emits_batch], rule emits_wbind[OF emits_writeDescriptorsWithLength[OF assms(1)]],
        rule emits_wbind[OF streams], unfold prod.case, rule emits_wdone) (simp_all del: bits_of_numeral)
qed

lemma emits_writePSISectionSyntaxHeader: "emits view (writePSISectionSyntaxHeader W h) (syntax_bits h) 5"
  unfolding writePSISectionSyntaxHeader_def
  by (rule emits_conv, rule emits_wbind[OF emits_batch], rule emits_wdone) (simp_all add: syntax_bits_def del: bits_of_numeral)

lemma emits_writePSISectionSyntaxData:
  assumes "wf_table t"
  shows "emits view (writePSISectionSyntaxData W (Some (table_data ext t)) (table_id t)) (table_bits t) (int (table_size t))"
proof (cases t)
  case (TPAT ps)
  have "emits view (writePATSection W (pat_of ext ps)) (table_bits t) (int (table_size t))"
    using emits_writePATSection[of ext ps] by (simp add: TPAT)
  with TPAT show ?thesis by (simp add: writePSISectionSyntaxData_def wderef_def)
next
  case (TPMT pcr cs ess)
  with assms have "emits view (writePMTSection W (pmt_of ext pcr cs ess)) (table_bits t) (int (table_size t))"
    unfolding TPMT by (intro emits_writePMTSection) simp_all
  with TPMT show ?thesis by (simp add: writePSISectionSyntaxData_def wderef_def table_ids)
qed

lemma emits_writePSISectionSyntax:
  assumes "wf_section sp"
  shows "emits view (writePSISectionSyntax W (section_of sp)) (syntax_bits (sp_Syntax sp) @ table_bits (sp_Table sp))
    (int (5 + table_size (sp_Table sp)))"
proof -
  have t: "wf_table (sp_Table sp)" using assms by (simp add: wf_section_def)
  have h: "hasPSISyntaxHeader (table_id (sp_Table sp))" by (cases "sp_Table sp") (simp_all add: hasPSISyntaxHeader_def)
  show ?thesis
    unfolding writePSISectionSyntax_def section_of_def PSISection.simps wderef_def option.case PSISectionHeader.simps wwhen_def
      if_P[OF h] PSISectionSyntax.simps
    by (rule emits_conv, rule emits_wbind[OF emits_writePSISectionSyntaxHeader],
        rule emits_wbind[OF emits_writePSISectionSyntaxData[OF t]], rule emits_wreturn) simp_all
qed


lemma streaming_updateCRC32: "streaming updateCRC32"
  by (simp add: streaming_def updateCRC32_append)

text \<open>The checksum that the callback has collected is that of the bytes written since it was set.\<close>

lemma emits_writePSISection:
  assumes "wf_section sp"
  shows "emits_clean view (writePSISection W (section_of sp)) (section_bits sp) (int (12 + table_size (sp_Table sp)))"
  unfolding emits_clean_def
proof (intro allI impI)
  fix w assume c: "clean (view w)"
  let ?t = "table_id (sp_Table sp)" and ?n = "table_size (sp_Table sp)"
  let ?v = "\<lambda>x. (view w)\<lparr>vw_callback := Some (updateCRC32, x)\<rparr>"
  define w1 where "w1 = bw_SetWriteCallback W (Some (updateCRC32, crc32Polynomial)) w"
  have t: "\<not> (?t \<noteq> PSITableIDPAT \<and> ?t \<noteq> PSITableIDPMT)" "hasCRC32 ?t"
    by (cases "sp_Table sp"; simp add: hasCRC32_def)+
  have pos: "0 < sp_Length sp" and tab: "wf_table (sp_Table sp)" using assms by (simp_all add: wf_section_def)
  have v1: "view w1 = ?v crc32Polynomial" by (simp add: w1_def SetWriteCallback)
  have ok1: "wview_ok (view w1)" using c by (simp add: v1 wview_ok_def clean_def streaming_updateCRC32)
  have "emits view (batch W [Wr (AU8 (ucast ?t)), Wr (ABool (sp_SyntaxIndicator sp)), Wr (ABool (sp_PrivateBit sp)),
          WrN (AU8 0xff) 2, WrN (AU16 (section_length sp)) 12] None) (section_head sp) None"
    by (rule emits_conv, rule emits_batch) (simp_all add: section_head_def del: bits_of_numeral)
  with ok1 obtain w2 where w2: "batch W [Wr (AU8 (ucast ?t)), Wr (ABool (sp_SyntaxIndicator sp)), Wr (ABool (sp_PrivateBit sp)),
          WrN (AU8 0xff) 2, WrN (AU16 (section_length sp)) 12] None w1 = (Inr None, w2)" "view w2 = feed (section_head sp) (view w1)"
    unfolding emits_def by blast
  have ok2: "wview_ok (view w2)" using ok1 w2 by auto
  from emits_writePSISectionSyntax[OF assms] ok2 obtain w3 where
    w3: "writePSISectionSyntax W (section_of sp) w2 = (Inr (int (5 + ?n)), w3)"
      "view w3 = feed (syntax_bits (sp_Syntax sp) @ table_bits (sp_Table sp)) (view w2)"
    unfolding emits_def by blast
  have v3: "view w3 = feed (section_body sp) (view w1)"
    using ok1 by (simp add: w3 w2 section_body_def feed_append)
  have ok3: "wview_ok (view w3)" using ok2 w3 by auto
  have cap: "bw_Captured W w3 = section_crc sp"
    by (rule Captured[of _ updateCRC32])
      (use c in \<open>simp add: v3 v1 feed_bytes clean_def section_crc_def computeCRC32_def\<close>)
  from emits_batch[of "[Wr (AU32 (section_crc sp))]"] ok3 obtain w4 where
    w4: "batch W [Wr (AU32 (section_crc sp))] None w3 = (Inr None, w4)" "view w4 = feed (bits_of 32 (section_crc sp)) (view w3)"
    unfolding emits_def by (force simp del: bits_of_numeral)
  have v4: "view w4 = feed (section_bits sp) (view w1)"
    using ok1 by (simp add: w4 v3 section_bits_def feed_append del: bits_of_numeral)
  have "writePSISection W (section_of sp) w = (Inr (int (12 + ?n)), bw_SetWriteCallback W None w4)"
    using t(2) pos w2(1) w3(1) cap w4(1) calcPSISectionLength_size[OF tab]
    by (simp add: writePSISection_def if_not_P[OF t(1)] sec_Header_section_of wderef_def wdefer_def wbind_def wwhen_def wsetCallback_def
        w1_def[symmetric] wcaptured_def wreturn_def wdone_def Let_def del: batch.simps)
  moreover have "view (bw_SetWriteCallback W None w4) = feed (section_bits sp) (view w)"
    using c by (cases "view w") (simp add: SetWriteCallback v4 v1 feed_def clean_def)
  ultimately show "\<exists>w'. writePSISection W (section_of sp) w = (Inr (int (12 + ?n)), w') \<and>
      view w' = feed (section_bits sp) (view w)" by blast
qed

lemma emits_writePSIData:
  assumes "\<forall>sp\<in>set sps. wf_section sp"
  shows "emits_clean view (writePSIData W \<lparr>psi_PointerField = int n, psi_Sections = map section_of sps\<rparr>) (psi_bits n sps)
    (1 + int n + (\<Sum>sp\<leftarrow>sps. int (12 + table_size (sp_Table sp))))"
proof -
  let ?cmds = "Wr (AU8 (word_of_nat n)) # replicate n (Wr (AU8 0))"
  have bits: "concat (map wcmd_bits ?cmds) = bytes_to_bits (word_of_nat n # replicate n 0)"
    by (induction n) (simp_all add: bytes_to_bits_def)
  have len: "length (concat (map wcmd_bits ?cmds)) mod 8 = 0" unfolding bits by (simp only: length_bytes_to_bits) simp
  have loop: "emits_clean view (wfor (map section_of sps) (\<lambda>s bytesWritten. wbind (writePSISection W s) (\<lambda>n. wreturn (bytesWritten + n))) k)
      (concat (map section_bits sps)) (k + (\<Sum>sp\<leftarrow>sps. int (12 + table_size (sp_Table sp))))" for k
    unfolding wfor_map by (rule emits_clean_wfor_count, rule emits_writePSISection) (use assms in simp_all)
  show ?thesis
    unfolding writePSIData_def psi_bits_def PSIData.simps nat_int of_int_of_nat_eq
    by (rule emits_clean_conv, rule emits_clean_wbind[OF emits_clean_emits[OF emits_batch] len],
        rule emits_clean_wbind[OF emits_clean_emits[OF emits_wdone]], simp, rule loop) (simp_all only: bits append_Nil)
qed

end


section \<open>Reading\<close>

lemma pid_field:
  fixes x :: uint16
  assumes "fits 13 x"
  defines "h \<equiv> bits_to_bytes (bits_of 3 (0xff :: uint8) @ bits_of 13 x)"
  shows "length h = 2" and "push_bit 8 (ucast (h ! 0 AND 0x1f)) OR ucast (h ! 1) = x"
  using assms(1)[THEN fits_bit] by (simp_all add: h_def word_eq_bits bit_simps)

lemma reads_parseDescriptorsOf:
  assumes "\<forall>c\<in>set cs. wf_content c" and "descriptors_size cs < 4096"
  shows "reads (parseDescriptorsOf refIterator) bs off (bits_to_bytes (descriptors_bits cs)) (map descriptor_of cs)"
  unfolding parseDescriptorsOf_def by (intro reads_pwrap reads_parseDescriptors assms)

lemma reads_parseProgram:
  assumes "fits 13 (pgm_ProgramMapID p)"
  shows "reads (pbind (fetchBytesNoCopy refIterator 4) (\<lambda>bs.
        preturn \<lparr>pgm_ProgramMapID = push_bit 8 (ucast (bs ! 2 AND 0x1f)) OR ucast (bs ! 3),
          pgm_ProgramNumber = push_bit 8 (ucast (bs ! 0)) OR ucast (bs ! 1)\<rparr>)) bs off (bits_to_bytes (program_bits p)) p"
  by (rule reads_fetch_return)
    (use assms[THEN fits_bit] in \<open>simp_all add: program_bits_def word_eq_bits bit_simps PATProgram.equality\<close>)

lemma reads_parsePATSection:
  assumes "\<forall>p\<in>set ps. fits 13 (pgm_ProgramMapID p)" and "stop = off + 4 * int (length ps)"
  shows "reads (parsePATSection refIterator stop ext) bs off (bits_to_bytes (concat (map program_bits ps))) (pat_of ext ps)"
proof -
  have eq: "bits_to_bytes (concat (map program_bits ps)) = concat (map (\<lambda>p. bits_to_bytes (program_bits p)) ps) @ []"
    by (induction ps) (simp_all add: bits_to_bytes_aligned)
  show ?thesis
    unfolding parsePATSection_def eq pat_of_def
    by (rule reads_pbind[OF reads_parseItems], rule reads_parseProgram)
      (use assms in \<open>auto simp: length_concat o_def sum_list_triv program_bits_def intro: reads_preturn\<close>)
qed

lemma reads_parsePMTElementaryStream:
  assumes "wf_stream es"
  shows "reads (parsePMTElementaryStream refIterator) bs off (bits_to_bytes (stream_bits es)) (stream_of es)"
proof -
  obtain t pid cs where es: "es = (t, pid, cs)" by (cases es)
  with assms have cs: "\<forall>c\<in>set cs. wf_content c" "descriptors_size cs < 4096" and pid: "fits 13 pid" by simp_all
  let ?p = "bits_to_bytes (bits_of 3 (0xff :: uint8) @ bits_of 13 pid)"
  have eq: "bits_to_bytes (stream_bits es) = [t] @ ?p @ bits_to_bytes (descriptors_bits cs) @ []"
    using bits_to_bytes_aligned[of "bits_of 8 t"] bits_to_bytes_aligned[of "bits_of 3 (0xff :: uint8) @ bits_of 13 pid"]
    by (simp add: es byte8_bits)
  show ?thesis
    unfolding parsePMTElementaryStream_def eq
    by (intro reads_pbind[OF reads_fetchByte] reads_pbind[OF reads_fetchBytesNoCopy] reads_pbind[OF reads_parseDescriptorsOf[OF cs]]
        reads_conv[OF reads_preturn]) (simp_all only: pid_field[OF pid] es stream_of.simps of_nat_numeral)
qed

lemma reads_parsePMTSection:
  assumes "wf_table (TPMT pcr cs ess)" and "stop = off + int (table_size (TPMT pcr cs ess))"
  shows "reads (parsePMTSection refIterator stop ext) bs off (bits_to_bytes (table_bits (TPMT pcr cs ess))) (pmt_of ext pcr cs ess)"
proof -
  let ?p = "bits_to_bytes (bits_of 3 (0xff :: uint8) @ bits_of 13 pcr)"
  from assms(1) have cs: "\<forall>c\<in>set cs. wf_content c" "descriptors_size cs < 4096" and pcr: "fits 13 pcr"
    and ess: "\<And>es. es \<in> set ess \<Longrightarrow> wf_stream es" by simp_all
  have streams: "bits_to_bytes (concat (map stream_bits ess)) = concat (map (\<lambda>es. bits_to_bytes (stream_bits es)) ess)"
    by (induction ess) (simp_all add: bits_to_bytes_aligned)
  have eq: "bits_to_bytes (table_bits (TPMT pcr cs ess)) =
      ?p @ bits_to_bytes (descriptors_bits cs) @ concat (map (\<lambda>es. bits_to_bytes (stream_bits es)) ess) @ []"
    using bits_to_bytes_aligned[of "bits_of 3 (0xff :: uint8) @ bits_of 13 pcr"] bits_to_bytes_aligned[of "descriptors_bits cs"]
    by (simp add: streams)
  have items: "reads (parseItems refIterator stop (parsePMTElementaryStream refIterator)) bs
      (off + int (length ?p) + int (length (bits_to_bytes (descriptors_bits cs))))
      (concat (map (\<lambda>es. bits_to_bytes (stream_bits es)) ess)) (map stream_of ess)"
    by (rule reads_parseItems_map, rule reads_parsePMTElementaryStream)
      (use assms(2) ess in \<open>auto simp: length_concat o_def int_sum_list simp flip: length_0_conv\<close>)
  show ?thesis
    unfolding parsePMTSection_def eq pmt_of_def
    by (rule reads_pbind[OF reads_fetchBytesNoCopy], simp only: pid_field(1)[OF pcr] of_nat_numeral,
        rule reads_pbind[OF reads_parseDescriptorsOf[OF cs]], rule reads_pbind[OF items],
        rule reads_conv[OF reads_preturn]) (simp_all only: pid_field[OF pcr])
qed

lemma reads_parsePSISectionSyntaxHeader:
  assumes "fits 5 (ssh_VersionNumber h)"
  shows "reads (parsePSISectionSyntaxHeader refIterator) bs off (bits_to_bytes (syntax_bits h)) h"
proof -
  let ?b = "byte8 True True (bit (ssh_VersionNumber h) 4) (bit (ssh_VersionNumber h) 3) (bit (ssh_VersionNumber h) 2)
    (bit (ssh_VersionNumber h) 1) (bit (ssh_VersionNumber h) 0) (ssh_CurrentNextIndicator h)"
  have eq: "bits_to_bytes (syntax_bits h) = bits_to_bytes (bits_of 16 (ssh_TableIDExtension h)) @ [?b] @ [ssh_SectionNumber h] @
      [ssh_LastSectionNumber h] @ []"
    by (simp add: syntax_bits_def byte8_bits)
  have ver: "drop_bit 1 (?b AND 0x3f) = ssh_VersionNumber h"
    using assms[THEN fits_bit] by (simp add: word_eq_bits bit_simps)
  show ?thesis
    unfolding parsePSISectionSyntaxHeader_def eq
    by (intro reads_pbind[OF reads_fetchUint16] reads_pbind[OF reads_fetchByte] reads_conv[OF reads_preturn])
      (simp_all only: ver flag_bit bit_byte8_simps, simp)
qed


lemma reads_parsePSISectionSyntaxData:
  assumes "wf_table t" and "psh_TableID h = table_id t" and "stop = off + int (table_size t)"
  shows "reads (parsePSISectionSyntaxData refIterator h (Some sh) stop) bs off (bits_to_bytes (table_bits t))
    (table_data (ssh_TableIDExtension sh) t)"
proof (cases t)
  case (TPAT ps)
  let ?f = "\<lambda>x. preturn (emptyPSISectionSyntaxData\<lparr>ssd_PAT := Some x\<rparr>)"
  have "reads (pbind (pbind (pwrap ''astits: parsing PAT section failed: '' (parsePATSection refIterator stop (ssh_TableIDExtension sh))) ?f)
      preturn) bs off ((bits_to_bytes (table_bits t) @ []) @ []) (table_data (ssh_TableIDExtension sh) t)"
    unfolding TPAT table_bits.simps table_data.simps
    by (rule reads_pbind, rule reads_pbind, rule reads_pwrap, rule reads_parsePATSection, use assms TPAT in simp,
        use assms TPAT in simp, rule reads_preturn, rule reads_preturn)
  then show ?thesis using assms(2) TPAT
    by (simp add: parsePSISectionSyntaxData_def Let_def table_ids pderef_def)
next
  case (TPMT pcr cs ess)
  let ?f = "\<lambda>x. preturn (emptyPSISectionSyntaxData\<lparr>ssd_PMT := Some x\<rparr>)"
  have "reads (pbind (pbind (pwrap ''astits: parsing PMT section failed: '' (parsePMTSection refIterator stop (ssh_TableIDExtension sh))) ?f)
      preturn) bs off ((bits_to_bytes (table_bits t) @ []) @ []) (table_data (ssh_TableIDExtension sh) t)"
    unfolding TPMT table_data.simps
    by (rule reads_pbind, rule reads_pbind, rule reads_pwrap, rule reads_parsePMTSection, use assms TPMT in simp,
        use assms TPMT in simp, rule reads_preturn, rule reads_preturn)
  then show ?thesis using assms(2) TPMT
    by (simp add: parsePSISectionSyntaxData_def Let_def table_ids pderef_def)
qed

lemma table_known:
  "\<not> shouldStopPSIParsing (table_id t)" "hasCRC32 (table_id t)" "hasPSISyntaxHeader (table_id t)"
  "ucast (ucast (table_id t) :: uint8) = table_id t"
  by (cases t; simp add: shouldStopPSIParsing_def isUnknown_def hasCRC32_def hasPSISyntaxHeader_def table_ids)+

lemma reads_parsePSISectionSyntax:
  assumes "wf_section sp" and "psh_TableID h = table_id (sp_Table sp)" and "stop = off + 5 + int (table_size (sp_Table sp))"
  shows "reads (parsePSISectionSyntax refIterator h stop) bs off
    (bits_to_bytes (syntax_bits (sp_Syntax sp)) @ bits_to_bytes (table_bits (sp_Table sp)))
    \<lparr>syn_Data = Some (table_data (ssh_TableIDExtension (sp_Syntax sp)) (sp_Table sp)), syn_Header = Some (sp_Syntax sp)\<rparr>"
proof -
  have wf: "fits 5 (ssh_VersionNumber (sp_Syntax sp))" "wf_table (sp_Table sp)" using assms(1) by (simp_all add: wf_section_def)
  have "reads (parsePSISectionSyntax refIterator h stop) bs off
    (bits_to_bytes (syntax_bits (sp_Syntax sp)) @ bits_to_bytes (table_bits (sp_Table sp)) @ [])
    \<lparr>syn_Data = Some (table_data (ssh_TableIDExtension (sp_Syntax sp)) (sp_Table sp)), syn_Header = Some (sp_Syntax sp)\<rparr>"
    unfolding parsePSISectionSyntax_def pwhen_def assms(2) if_P[OF table_known(3)]
    by (intro reads_pbind[OF reads_psome[OF reads_pwrap[OF reads_parsePSISectionSyntaxHeader[OF wf(1)]]]]
        reads_pbind[OF reads_pwrap[OF reads_parsePSISectionSyntaxData[OF wf(2) assms(2)]]] reads_preturn)
      (use assms(3) in simp)
  then show ?thesis by simp
qed

lemma reads_parsePSISectionHeader:
  assumes "wf_section sp"
  shows "reads (parsePSISectionHeader refIterator) bs off (bits_to_bytes (section_head sp))
    (the (sec_Header (section_of (settled sp))), off, off + 3, off + 8 + int (table_size (sp_Table sp)),
     off + 12 + int (table_size (sp_Table sp)))"
proof -
  let ?n = "section_length sp" and ?id = "table_id (sp_Table sp)"
  let ?h = "bits_to_bytes ([sp_SyntaxIndicator sp, sp_PrivateBit sp] @ bits_of 2 (0xff :: uint8) @ bits_of 12 ?n)"
  have small: "9 + table_size (sp_Table sp) < 4096" using assms by (simp add: wf_section_def)
  then have n: "uint ?n = 9 + int (table_size (sp_Table sp))"
    by (simp add: section_length_def unsigned_of_nat take_bit_nat_eq_self del: of_nat_add of_nat_Suc)
  have "fits 12 ?n" using small by (simp add: fits_def word_less_def n)
  then have h: "length ?h = 2" "push_bit 8 (ucast (?h ! 0 AND 0xf)) OR ucast (?h ! 1) = ?n"
      "bit (?h ! 0) 7 = sp_SyntaxIndicator sp" "bit (?h ! 0) 6 = sp_PrivateBit sp"
    by (simp_all add: word_eq_bits bit_simps fits_bit)
  have eq: "bits_to_bytes (section_head sp) = [ucast ?id] @ ?h @ []"
    using bits_to_bytes_aligned[of "bits_of 8 (ucast ?id :: uint8)"] by (simp add: section_head_def byte8_bits)
  show ?thesis
    unfolding parsePSISectionHeader_def eq Let_def
    by (rule reads_offset_bind, rule reads_pbind[OF reads_fetchByte], unfold table_known(4) if_not_P[OF table_known(1)],
        rule reads_pbind[OF reads_fetchBytesNoCopy], simp only: h of_nat_numeral, rule reads_offset_bind,
        rule reads_conv[OF reads_preturn], simp)
      (simp only: h n if_P[OF table_known(2)] flag_bit, simp add: h settled_def section_of_def del: bits_to_bytes.simps)
qed

lemma parsePSISectionCRC32_ok:
  assumes "stands bs start (xs @ be32 (computeCRC32 xs))"
  shows "parsePSISectionCRC32 refIterator start (start + int (length xs)) (bs, off) =
    Some (Inr (computeCRC32 xs, bs, start + int (length xs)))"
proof -
  let ?c = "be32 (computeCRC32 xs)"
  from assms have s: "stands bs start xs" "stands bs (start + int (length xs)) ?c" by (simp_all add: stands_append)
  have "reads (parseCRC32 refIterator) bs (start + int (length xs)) ?c (computeCRC32 xs)"
    unfolding parseCRC32_def be32_def by (rule reads_fetch_return) (simp_all add: word_eq_bits bit_simps)
  with s(2) have crc: "parseCRC32 refIterator (bs, start + int (length xs)) = Some (Inr (computeCRC32 xs, bs, start + int (length xs) + int (length ?c)))"
    by (simp add: reads_def)
  from reads_fetchBytesNoCopy[of "int (length xs)" xs bs start] s(1) have
    "fetchBytesNoCopy refIterator (int (length xs)) (bs, start) = Some (Inr (xs, bs, start + int (length xs)))"
    by (simp add: reads_def)
  with crc show ?thesis
    by (simp add: parsePSISectionCRC32_def pbind_def seek_def pmove_def pwrap_def preturn_def)
qed

lemma reads_parsePSISection:
  assumes "wf_section sp"
  shows "reads (parsePSISection refIterator) bs off (bits_to_bytes (section_bits sp)) (section_of (settled sp), False)"
  unfolding reads_def
proof
  let ?h = "the (sec_Header (section_of (settled sp)))" and ?n = "int (table_size (sp_Table sp))"
  let ?body = "bits_to_bytes (section_body sp)" and ?head = "bits_to_bytes (section_head sp)"
  let ?syn = "\<lparr>syn_Data = Some (table_data (ssh_TableIDExtension (sp_Syntax sp)) (sp_Table sp)), syn_Header = Some (sp_Syntax sp)\<rparr>"
  let ?rest = "bits_to_bytes (syntax_bits (sp_Syntax sp)) @ bits_to_bytes (table_bits (sp_Table sp))"
  assume st: "stands bs off (bits_to_bytes (section_bits sp))"
  have bits: "bits_to_bytes (section_bits sp) = ?body @ be32 (computeCRC32 ?body)"
    by (simp add: section_bits_def bits_to_bytes_aligned be32_def section_crc_def del: bits_of_numeral)
  have body: "?body = ?head @ ?rest" by (simp add: section_body_def bits_to_bytes_aligned)
  from st have s: "stands bs off (?body @ be32 (computeCRC32 ?body))" "stands bs off ?head" "stands bs (off + 3) ?rest"
    unfolding bits by (simp_all add: body stands_append del: length_bits_to_bytes)
      (simp_all add: body stands_append)
  have h: "psh_TableID ?h = table_id (sp_Table sp)" "psh_SectionLength ?h = section_length sp"
    by (simp_all add: section_of_def settled_def)
  have "0 < section_length sp"
    using assms by (simp add: section_length_def wf_section_def word_less_nat_alt unsigned_of_nat take_bit_nat_eq_self
        del: of_nat_add of_nat_Suc)
  then have pos: "psh_SectionLength ?h > 0" by (simp add: h)
  have 1: "parsePSISectionHeader refIterator (bs, off) = Some (Inr ((?h, off, off + 3, off + 8 + ?n, off + 12 + ?n), bs, off + 3))"
    using reads_parsePSISectionHeader[OF assms, of bs off] s(2) by (simp add: reads_def)
  have 2: "parsePSISectionSyntax refIterator ?h (off + 8 + ?n) (bs, off + 3) = Some (Inr (?syn, bs, off + 8 + ?n))"
    using reads_parsePSISectionSyntax[OF assms h(1), of "off + 8 + ?n" "off + 3" bs] s(3) by (simp add: reads_def)
  have 3: "parsePSISectionCRC32 refIterator off (off + 8 + ?n) (bs, off') = Some (Inr (section_crc sp, bs, off + 8 + ?n))" for off'
    using parsePSISectionCRC32_ok[OF s(1)] by (simp add: section_crc_def add.assoc)
  have sec: "\<lparr>sec_CRC32 = section_crc sp, sec_Header = Some ?h, sec_Syntax = Some ?syn\<rparr> = section_of (settled sp)"
    by (simp add: section_of_def settled_def)
  show "parsePSISection refIterator (bs, off) =
      Some (Inr ((section_of (settled sp), False), bs, off + int (length (bits_to_bytes (section_bits sp)))))"
    using 1 2 3 pos
    by (simp add: parsePSISection_def pbind_def pwrap_def h table_known pwhen_def seek_def pmove_def preturn_def sec)
qed


text \<open>Padding is read as one more section, which ends the loop.\<close>

definition paddingSection :: PSISection where
  "paddingSection = \<lparr>sec_CRC32 = 0,
     sec_Header = Some \<lparr>psh_PrivateBit = False, psh_SectionLength = 0, psh_SectionSyntaxIndicator = False,
       psh_TableID = PSITableIDNull, psh_TableType = PSITableTypeNull\<rparr>,
     sec_Syntax = None\<rparr>"

definition padding :: "nat \<Rightarrow> PSISection list" where
  "padding k = (if k = 0 then [] else [paddingSection])"

lemma parsePSISection_padding:
  assumes "stands bs off [0xff]"
  shows "parsePSISection refIterator (bs, off) = Some (Inr ((paddingSection, True), bs, off + 1))"
proof -
  from reads_fetchByte[of bs off "0xff"] assms have b: "fetchByte refIterator (bs, off) = Some (Inr (0xff, bs, off + 1))"
    by (simp add: reads_def)
  have "shouldStopPSIParsing PSITableIDNull" "PSITableID_Type PSITableIDNull = PSITableTypeNull"
    by (simp_all add: shouldStopPSIParsing_def PSITableID_Type_def table_ids)
  with b show ?thesis
    by (simp add: parsePSISection_def parsePSISectionHeader_def pbind_def pwrap_def offset_def pget_def preturn_def Let_def
        paddingSection_def PSITableIDNull_def)
qed

abbreviation parseSections :: "'i BytesIterator \<Rightarrow> PSISection list \<times> bool \<Rightarrow> ('i, PSISection list \<times> bool) parser" where
  "parseSections I \<equiv> pwhile (\<lambda>(sections, stop) i. bi_HasBytesLeft I i \<and> \<not> stop)
       (\<lambda>(sections, stop). pbind (pwrap ''astits: parsing PSI table failed: '' (parsePSISection I)) (\<lambda>(s, stop).
         preturn (sections @ [s], stop)))"

lemma parseSections_turn:
  assumes "off < int (length bs)" and "parsePSISection refIterator (bs, off) = Some (Inr ((s, stop), bs, off'))"
  shows "parseSections refIterator (acc, False) (bs, off) = parseSections refIterator (acc @ [s], stop) (bs, off')"
  by (subst pwhile_unfold) (use assms in \<open>simp add: pbind_def pwrap_def preturn_def\<close>)

lemma parseSections_ok:
  assumes "\<forall>sp\<in>set sps. wf_section sp"
    and "stands bs off (concat (map (\<lambda>sp. bits_to_bytes (section_bits sp)) sps) @ replicate k 0xff)"
    and "int (length bs) = off + int (length (concat (map (\<lambda>sp. bits_to_bytes (section_bits sp)) sps))) + int k"
  shows "\<exists>stop off'. parseSections refIterator (acc, False) (bs, off) =
    Some (Inr ((acc @ map (\<lambda>sp. section_of (settled sp)) sps @ padding k, stop), bs, off'))"
  using assms
proof (induction sps arbitrary: acc off)
  case Nil
  show ?case
  proof (cases k)
    case 0
    with Nil show ?thesis by (subst pwhile_unfold) (auto simp: padding_def intro: exI[of _ False])
  next
    case (Suc j)
    then have "stands bs off ([0xff] @ replicate j 0xff)" using Nil(2) by simp
    then have "stands bs off [0xff]" unfolding stands_append by simp
    from parseSections_turn[OF _ parsePSISection_padding[OF this], of acc] Nil(3) Suc have
      turn: "parseSections refIterator (acc, False) (bs, off) = parseSections refIterator (acc @ [paddingSection], True) (bs, off + 1)"
      by simp
    show ?thesis unfolding turn by (subst pwhile_unfold) (auto simp: padding_def Suc)
  qed
next
  case (Cons sp sps)
  let ?x = "bits_to_bytes (section_bits sp)"
  from Cons.prems(2) have st: "stands bs off ?x"
    "stands bs (off + int (length ?x)) (concat (map (\<lambda>sp. bits_to_bytes (section_bits sp)) sps) @ replicate k 0xff)"
    by (simp_all add: stands_append)
  have "parsePSISection refIterator (bs, off) = Some (Inr ((section_of (settled sp), False), bs, off + int (length ?x)))"
    using reads_parsePSISection[of sp bs off] Cons.prems(1) st(1) by (simp add: reads_def)
  from parseSections_turn[OF _ this, of acc] Cons.prems(3) have
    turn: "parseSections refIterator (acc, False) (bs, off) =
      parseSections refIterator (acc @ [section_of (settled sp)], False) (bs, off + int (length ?x))" by simp
  show ?case
    unfolding turn using Cons.IH[OF _ st(2), of "acc @ [section_of (settled sp)]"] Cons.prems(1,3) by (simp add: add.assoc)
qed

lemma psi_bytes:
  "bits_to_bytes (psi_bits n sps) = [word_of_nat n] @ replicate n 0 @ concat (map (\<lambda>sp. bits_to_bytes (section_bits sp)) sps)"
proof -
  have "bits_to_bytes (concat (map section_bits sps)) = concat (map (\<lambda>sp. bits_to_bytes (section_bits sp)) sps)"
    by (induction sps) (simp_all add: bits_to_bytes_aligned)
  then show ?thesis
    using bits_to_bytes_aligned[of "bytes_to_bits (word_of_nat n # replicate n 0)" "concat (map section_bits sps)"]
    by (simp add: psi_bits_def del: bits_of_numeral bytes_to_bits_simps bits_to_bytes.simps)
qed

lemma parsePSIData_ok:
  assumes "\<forall>sp\<in>set sps. wf_section sp" and "n < 256"
  shows "parseBytes refIterator (parsePSIData refIterator) (bits_to_bytes (psi_bits n sps) @ replicate k 0xff) =
    Some (Inr \<lparr>psi_PointerField = int n, psi_Sections = map (\<lambda>sp. section_of (settled sp)) sps @ padding k\<rparr>)"
proof -
  let ?ss = "concat (map (\<lambda>sp. bits_to_bytes (section_bits sp)) sps)"
  let ?bs = "bits_to_bytes (psi_bits n sps) @ replicate k 0xff"
  have bs: "?bs = [word_of_nat n] @ replicate n 0 @ ?ss @ replicate k 0xff" by (simp add: psi_bytes)
  have st: "stands ?bs 0 [word_of_nat n]" "stands ?bs (1 + int n) (?ss @ replicate k 0xff)"
    unfolding bs stands_def
    by (rule exI[of _ "[]"], simp) (rule exI[of _ "[word_of_nat n] @ replicate n 0"], simp)
  have n: "uint (word_of_nat n :: uint8) = int n" using assms(2) by (simp add: unsigned_of_nat take_bit_nat_eq_self)
  have b: "fetchByte refIterator (?bs, 0) = Some (Inr (word_of_nat n, ?bs, 1))"
    using reads_fetchByte[of ?bs 0 "word_of_nat n"] st(1) by (simp add: reads_def)
  have "int (length ?bs) = 1 + int n + int (length ?ss) + int k" unfolding bs by simp
  from parseSections_ok[OF assms(1) st(2) this, of "[]"] obtain stop off' where
    "parseSections refIterator ([], False) (?bs, 1 + int n) =
      Some (Inr ((map (\<lambda>sp. section_of (settled sp)) sps @ padding k, stop), ?bs, off'))" by auto
  with b n show ?thesis
    by (simp add: parseBytes_def parsePSIData_def pbind_def skip_def pmove_def preturn_def)
qed

section \<open>Any iterator\<close>

lemmas psi_parser_defs = parseCRC32_def parsePSISectionHeader_def parsePSISectionSyntaxHeader_def
  parsePSISectionSyntaxData_def parsePSISectionSyntax_def parsePSISectionCRC32_def parsePSISection_def

context bytes_iterator
begin

lemma sim_parseDescriptorsOf: "sim I (parseDescriptorsOf I) (parseDescriptorsOf refIterator)"
  unfolding parseDescriptorsOf_def by (intro sim_intros sim_parseDescriptors)

lemma sim_tables:
  "sim I (parsePATSection I stop ext) (parsePATSection refIterator stop ext)"
  "sim I (parsePMTSection I stop ext) (parsePMTSection refIterator stop ext)"
  "sim I (parseNITSection I ext) (parseNITSection refIterator ext)"
  "sim I (parseSDTSection I stop ext) (parseSDTSection refIterator stop ext)"
  "sim I (parseEITSection I stop ext) (parseEITSection refIterator stop ext)"
  "sim I (parseTOTSection I) (parseTOTSection refIterator)"
  unfolding parsePATSection_def parsePMTSection_def parsePMTElementaryStream_def parseNITSection_def
    parseSDTSection_def parseSDTService_def parseEITSection_def parseEITEvent_def parseTOTSection_def Let_def
  by (intro sim_intros sim_ops sim_fetches sim_parseDescriptorsOf sim_parseDVBTime sim_parseDVBDurationSeconds)+

lemma sim_parsePSISection: "sim I (parsePSISection I) (parsePSISection refIterator)"
  unfolding psi_parser_defs
  by (intro sim_intros sim_ops sim_fetches sim_tables)

lemma sim_parsePSIData: "sim I (parsePSIData I) (parsePSIData refIterator)"
  unfolding parsePSIData_def
  by (intro sim_intros sim_ops sim_parsePSISection) (simp_all add: HasBytesLeft Len split_beta)

end

section \<open>Properties\<close>

text \<open>
  \<^bold>\<open>C3\<close>. Writing program tables and parsing them back. For a pointer field that fits its byte
  and any well-formed sections with a program association or program map table,
  \<^verbatim>\<open>writePSIData\<close> returns the number of bytes it wrote, and \<^verbatim>\<open>parsePSIData\<close> on these
  bytes, followed by any amount of padding, returns the same sections with the length, the checksum
  and the type name filled in, and one more section for the padding.
\<close>

theorem psi_roundtrip:
  assumes "astikit I W view" and "n < 256" and "\<forall>sp\<in>set sps. wf_section sp"
  shows "\<exists>bs. writeBytes W (writePSIData W \<lparr>psi_PointerField = int n, psi_Sections = map section_of sps\<rparr>) =
      (Inr (int (length bs)), bs) \<and>
    parseBytes I (parsePSIData I) (bs @ replicate k 0xff) =
      Some (Inr \<lparr>psi_PointerField = int n, psi_Sections = map (\<lambda>sp. section_of (settled sp)) sps @ padding k\<rparr>)"
proof -
  note I = astikit.axioms(1)[OF assms(1)] and W = astikit.axioms(2)[OF assms(1)]
  let ?bs = "bits_to_bytes (psi_bits n sps)"
  have "int (length ?bs) = 1 + int n + (\<Sum>sp\<leftarrow>sps. int (12 + table_size (sp_Table sp)))"
    unfolding psi_bytes by (induction sps) simp_all
  with bits_writer.writeBytes_emits_clean[OF W bits_writer.emits_writePSIData[OF W assms(3)], of n]
    bytes_iterator.parseBytes_transfer[OF I bytes_iterator.sim_parsePSIData[OF I] parsePSIData_ok[OF assms(3,2)], of k]
  show ?thesis by auto
qed


section \<open>Witnesses\<close>

definition sampleSyntax :: PSISectionSyntaxHeader where
  "sampleSyntax = \<lparr>ssh_CurrentNextIndicator = True, ssh_LastSectionNumber = 0, ssh_SectionNumber = 0,
     ssh_TableIDExtension = 7, ssh_VersionNumber = 21\<rparr>"

definition sampleSections :: "sectionSpec list" where
  "sampleSections =
     [\<lparr>sp_Length = 8, sp_CRC32 = 0, sp_Type = '''', sp_PrivateBit = False, sp_SyntaxIndicator = True, sp_Syntax = sampleSyntax,
        sp_Table = TPAT [\<lparr>pgm_ProgramMapID = 0x1000, pgm_ProgramNumber = 1\<rparr>, \<lparr>pgm_ProgramMapID = 0x1abc, pgm_ProgramNumber = 2\<rparr>]\<rparr>,
      \<lparr>sp_Length = 8, sp_CRC32 = 0, sp_Type = '''', sp_PrivateBit = False, sp_SyntaxIndicator = True, sp_Syntax = sampleSyntax,
        sp_Table = TPMT 0x100 [] [(StreamTypeH264Video, 0x100, sampleContents), (StreamTypeAACAudio, 0x101, [])]\<rparr>]"

lemma sampleSections: "\<forall>sp\<in>set sampleSections. wf_section sp"
proof -
  have "descriptors_size sampleContents < 50" by (simp add: sampleContents_def payload_def teletext_item_bits_def)
  then show ?thesis
    by (simp add: sampleSections_def wf_section_def sampleSyntax_def fits_def sampleContents(1))
qed

theorem psi_roundtrip_witness:
  "\<exists>bs. writeBytes refWriter (writePSIData refWriter \<lparr>psi_PointerField = int 3, psi_Sections = map section_of sampleSections\<rparr>) =
      (Inr (int (length bs)), bs) \<and>
    parseBytes refIterator (parsePSIData refIterator) (bs @ replicate 100 0xff) =
      Some (Inr \<lparr>psi_PointerField = int 3, psi_Sections = map (\<lambda>sp. section_of (settled sp)) sampleSections @ padding 100\<rparr>)"
  by (rule psi_roundtrip[OF ref_astikit.astikit_axioms _ sampleSections]) simp

end
