(* ===== verification/Psi_Safety.thy ===== *)
theory Psi_Safety
  imports Psi_Codec
begin

text \<open>
  Parsing program tables from arbitrary bytes: \<^verbatim>\<open>parsePSIData\<close> returns without a panic,
  and a section it accepts carries a valid checksum.
\<close>

section \<open>Parsers that return from every offset\<close>

definition steady :: "byte list \<Rightarrow> int \<Rightarrow> (cursor, 'a) parser \<Rightarrow> bool" where
  "steady bs k p \<longleftrightarrow> (\<forall>off\<ge>0. goes bs off k p)"

named_theorems steady_intros

lemma steadyD: "steady bs k p \<Longrightarrow> 0 \<le> off \<Longrightarrow> goes bs off k p"
  by (simp add: steady_def)

lemma steady_advances: "advances k p \<Longrightarrow> steady bs k p"
  by (simp add: steady_def goes_advances)

lemma steady_mono: "steady bs k p \<Longrightarrow> j \<le> k \<Longrightarrow> steady bs j p"
  by (auto simp: steady_def intro: goes_weaken)

lemma steady_preturn [steady_intros]: "steady bs 0 (preturn a)"
  by (simp add: steady_def goes_preturn)

lemma steady_pwrap [steady_intros]: "steady bs k p \<Longrightarrow> steady bs k (pwrap msg p)"
  by (simp add: steady_def goes_pwrap)

lemma steady_pinstead [steady_intros]: "steady bs k p \<Longrightarrow> e \<noteq> Panic \<Longrightarrow> steady bs k (pinstead e p)"
  unfolding steady_def goes_def pinstead_def by fastforce

lemma steady_first:
  assumes "steady bs k p" and "0 \<le> k" and "\<And>a. steady bs 0 (f a)"
  shows "steady bs k (pbind p f)"
  unfolding steady_def
proof (intro allI impI)
  fix off :: int assume "0 \<le> off"
  then show "goes bs off k (pbind p f)"
    using assms by (intro goes_pbind[OF steadyD[OF assms(1)]] goes_weaken[OF steadyD[OF assms(3)]]) auto
qed

lemma steady_pbind [steady_intros]: "steady bs 0 p \<Longrightarrow> (\<And>a. steady bs 0 (f a)) \<Longrightarrow> steady bs 0 (pbind p f)"
  by (rule steady_first) simp_all

lemma steady_psome [steady_intros]: "steady bs 0 p \<Longrightarrow> steady bs 0 (psome p)"
  unfolding psome_def by (intro steady_intros)

lemma steady_if [steady_intros]:
  "(c \<Longrightarrow> steady bs k p) \<Longrightarrow> (\<not> c \<Longrightarrow> steady bs k q) \<Longrightarrow> steady bs k (if c then p else q)"
  by simp

lemma steady_let [steady_intros]: "steady bs k (f a) \<Longrightarrow> steady bs k (let x = a in f x)"
  by simp

lemma steady_fetches [steady_intros]:
  "steady bs 0 (fetchByte refIterator)" "steady bs 0 (offset refIterator)" "steady bs 0 (fetchUint16 refIterator)"
  "0 \<le> n \<Longrightarrow> steady bs 0 (fetchBytesNoCopy refIterator n)" "0 \<le> n \<Longrightarrow> steady bs 0 (skip refIterator n)"
  "steady bs 0 (parseDVBTime refIterator)" "steady bs 0 (parseDVBDurationSeconds refIterator)"
  by (simp_all add: steady_advances advances_intros advances_fetchUint advances_parseDVBTime)
    (auto simp: parseDVBDurationSeconds_def intro!: steady_advances advances_intros)

lemma steady_reads_1 [steady_intros]:
  "steady bs 1 (fetchByte refIterator)" "steady bs 1 (fetchUint16 refIterator)" "1 \<le> n \<Longrightarrow> steady bs 1 (fetchBytesNoCopy refIterator n)"
proof -
  show "steady bs 1 (fetchByte refIterator)" by (rule steady_advances[OF advances_fetchByte1])
  show n: "1 \<le> n \<Longrightarrow> steady bs 1 (fetchBytesNoCopy refIterator n)" for n
    by (rule steady_mono[OF steady_advances[OF advances_fetchBytesNoCopy]]) simp_all
  show "steady bs 1 (fetchUint16 refIterator)"
    unfolding fetchUint16_def by (rule steady_first[OF n]) (simp_all add: steady_intros)
qed

lemma steady_parseItems [steady_intros]:
  assumes "steady bs 1 p"
  shows "steady bs 0 (parseItems refIterator stop p)"
  unfolding steady_def parseItems_def
proof (intro allI impI, rule goes_pwhile[where stop = stop])
  fix off off' :: int and xs assume "0 \<le> off" "off \<le> off'"
  moreover have "steady bs 1 (pbind p (\<lambda>x. preturn (xs @ [x])))"
    by (rule steady_first[OF assms]) (simp_all add: steady_intros)
  ultimately show "goes bs off' 1 (pbind p (\<lambda>x. preturn (xs @ [x])))" by (simp add: steadyD)
qed simp

text \<open>A byte that is read and put back.\<close>

lemma steady_peek_byte [steady_intros]:
  assumes "\<And>b. steady bs 0 (f b)"
  shows "steady bs 0 (pbind (fetchByte refIterator) (\<lambda>b. pbind (skip refIterator (-1)) (\<lambda>_. f b)))"
proof -
  have "goes bs off 0 (f b)" if "0 \<le> off" for off b using assms that by (rule steadyD)
  then show ?thesis
    by (simp add: steady_def goes_def parser_defs fetchByte_def skip_def)
qed

section \<open>Tables\<close>

lemma steady_parseDescriptorsOf [steady_intros]:
  "DescriptorTagVBIData \<notin> set bs \<Longrightarrow> steady bs 0 (parseDescriptorsOf refIterator)"
  unfolding parseDescriptorsOf_def by (intro steady_pwrap) (simp add: steady_def goes_parseDescriptors)

lemma steady_tables:
  assumes "DescriptorTagVBIData \<notin> set bs"
  shows "steady bs 0 (parsePATSection refIterator stop x)" "steady bs 0 (parsePMTSection refIterator stop x)"
    "steady bs 0 (parseNITSection refIterator x)" "steady bs 0 (parseSDTSection refIterator stop x)"
    "steady bs 0 (parseEITSection refIterator stop x)" "steady bs 0 (parseTOTSection refIterator)"
  unfolding parsePATSection_def parsePMTSection_def parseNITSection_def parseSDTSection_def parseEITSection_def
    parseTOTSection_def parsePMTElementaryStream_def parseSDTService_def parseEITEvent_def
  by (intro steady_parseItems steady_first[of _ 1 "fetchByte refIterator"] steady_first[of _ 1 "fetchUint16 refIterator"]
      steady_first[of _ 1 "fetchBytesNoCopy refIterator 4"]
      steady_peek_byte steady_intros assms; simp)+


lemma steady_parsePSISectionSyntaxHeader: "steady bs 0 (parsePSISectionSyntaxHeader refIterator)"
  unfolding parsePSISectionSyntaxHeader_def by (intro steady_intros)

text \<open>The syntax header that a table parser dereferences is there.\<close>

lemma steady_parsePSISectionSyntaxData:
  assumes "DescriptorTagVBIData \<notin> set bs" and "hasPSISyntaxHeader (psh_TableID h) \<Longrightarrow> sh \<noteq> None"
  shows "steady bs 0 (parsePSISectionSyntaxData refIterator h sh stop)"
proof -
  have deref: "steady bs 0 (pderef sh f)" if "hasPSISyntaxHeader (psh_TableID h)" and "\<And>x. steady bs 0 (f x)" for f :: "_ \<Rightarrow> (cursor, 'a) parser"
    using assms(2)[OF that(1)] that(2) by (auto simp: pderef_def)
  show ?thesis
    unfolding parsePSISectionSyntaxData_def
    by (intro steady_intros deref steady_tables[OF assms(1)]) (auto simp: hasPSISyntaxHeader_def)
qed

lemma pbind_psome: "pbind (psome p) k = pbind p (\<lambda>x. k (Some x))"
  by (auto simp: psome_def pbind_def preturn_def fun_eq_iff split: option.split sum.split)

lemma pbind_preturn: "pbind (preturn a) k = k a"
  by (simp add: pbind_def preturn_def)

lemma steady_parsePSISectionSyntax:
  assumes "DescriptorTagVBIData \<notin> set bs"
  shows "steady bs 0 (parsePSISectionSyntax refIterator h stop)"
  unfolding parsePSISectionSyntax_def pwhen_def
  by (cases "hasPSISyntaxHeader (psh_TableID h)"; simp only: if_True if_False pbind_psome pbind_preturn;
      intro steady_intros steady_parsePSISectionSyntaxHeader steady_parsePSISectionSyntaxData[OF assms]; simp)

section \<open>Sections\<close>

text \<open>The header of a section, read at an offset.\<close>

lemma parsePSISectionHeader_cases:
  assumes "0 \<le> off"
  obtains (Err) e where "parsePSISectionHeader refIterator (bs, off) = Some (Inl e)" "e \<noteq> Panic"
  | (Stop) h where "parsePSISectionHeader refIterator (bs, off) = Some (Inr ((h, off, 0, 0, 0), bs, off + 1))" "shouldStopPSIParsing (psh_TableID h)"
      "psh_TableID h = ucast (bs ! nat off)"
  | (Go) h where "parsePSISectionHeader refIterator (bs, off) = Some (Inr ((h, off, off + 3,
        (if hasCRC32 (psh_TableID h) then off + 3 + uint (psh_SectionLength h) - 4 else off + 3 + uint (psh_SectionLength h)),
        off + 3 + uint (psh_SectionLength h)), bs, off + 3))" "\<not> shouldStopPSIParsing (psh_TableID h)"
      "off + 3 \<le> int (length bs)" "psh_TableID h = ucast (bs ! nat off)"
      "psh_SectionLength h = push_bit 8 (ucast (bs ! nat (off + 1) AND 0xf)) OR ucast (bs ! nat (off + 2))"
proof -
  consider "int (length bs) \<le> off" | "off < int (length bs)" "shouldStopPSIParsing (ucast (bs ! nat off))"
    | "off < int (length bs)" "\<not> shouldStopPSIParsing (ucast (bs ! nat off))" "int (length bs) < off + 3"
    | "\<not> shouldStopPSIParsing (ucast (bs ! nat off))" "off + 3 \<le> int (length bs)" by linarith
  then show thesis
  proof cases
    case 1
    with assms show thesis by (intro Err[of "wrapError ''astits: fetching next byte failed: '' ErrAstikit"])
        (simp_all add: parsePSISectionHeader_def parser_defs offset_def fetchByte_def)
  next
    case 2
    with assms show thesis
      by (intro Stop[of "\<lparr>psh_PrivateBit = False, psh_SectionLength = 0, psh_SectionSyntaxIndicator = False,
       psh_TableID = ucast (bs ! nat off), psh_TableType = PSITableID_Type (ucast (bs ! nat off))\<rparr>"])
        (simp_all add: parsePSISectionHeader_def parser_defs offset_def fetchByte_def Let_def)
  next
    case 3
    with assms show thesis by (intro Err[of "wrapError ''astits: fetching next bytes failed: '' ErrAstikit"])
        (simp_all add: parsePSISectionHeader_def parser_defs offset_def fetchByte_def fetchBytesNoCopy_def Let_def)
  next
    case 4
    have two: "nat (off + 2) = Suc (nat (off + 1))" using assms by simp
    from 4 assms show thesis
      by (intro Go[of "\<lparr>psh_PrivateBit = 0 < bs ! nat (off + 1) AND 0x40,
         psh_SectionLength = push_bit 8 (ucast (bs ! nat (off + 1) AND 0xf)) OR ucast (bs ! nat (off + 2)),
         psh_SectionSyntaxIndicator = 0 < bs ! nat (off + 1) AND 0x80,
         psh_TableID = ucast (bs ! nat off), psh_TableType = PSITableID_Type (ucast (bs ! nat off))\<rparr>"])
        (simp_all add: parsePSISectionHeader_def parser_defs offset_def fetchByte_def fetchBytesNoCopy_def Let_def two)
  qed
qed


text \<open>The check of the checksum, and what it means that it passes.\<close>

definition window :: "byte list \<Rightarrow> int \<Rightarrow> int \<Rightarrow> byte list" where
  "window bs off n = take (nat n) (drop (nat off) bs)"

lemma parsePSISectionCRC32_cases:
  assumes "0 \<le> start" and "start \<le> stop"
  obtains (Err) e where "parsePSISectionCRC32 refIterator start stop (bs, off) = Some (Inl e)" "e \<noteq> Panic"
  | (Ok) c where "parsePSISectionCRC32 refIterator start stop (bs, off) = Some (Inr (c, bs, stop))"
      "stop + 4 \<le> int (length bs)" "window bs stop 4 = be32 (computeCRC32 (window bs start (stop - start)))"
proof -
  let ?x = "window bs stop 4" and ?crc = "computeCRC32 (window bs start (stop - start))"
  let ?c = "push_bit 24 (ucast (?x ! 0)) OR push_bit 16 (ucast (?x ! 1)) OR push_bit 8 (ucast (?x ! 2)) OR ucast (?x ! 3) :: uint32"
  have run: "parsePSISectionCRC32 refIterator start stop (bs, off) =
      (if int (length bs) < stop + 4 then Some (Inl (wrapError ''astits: parsing CRC32 failed: '' (wrapError ''astits: fetching next bytes failed: '' ErrAstikit)))
       else if ?crc \<noteq> ?c then Some (Inl (ErrMessage ''astits: Table CRC32 %x != computed CRC32 %x'' [uint ?c, uint ?crc]))
       else Some (Inr (?c, bs, stop)))"
    using assms by (simp add: parsePSISectionCRC32_def parseCRC32_def parser_defs seek_def fetchBytesNoCopy_def Let_def window_def)
  consider "int (length bs) < stop + 4" | "stop + 4 \<le> int (length bs)" "?crc \<noteq> ?c" | "stop + 4 \<le> int (length bs)" "?crc = ?c"
    by linarith
  then show thesis
  proof cases
    case 1
    show thesis by (rule Err, use 1 run in simp, simp)
  next
    case 2
    show thesis by (rule Err, use 2 run in simp, simp)
  next
    case 3
    then have "length ?x = 4" using assms by (simp add: window_def)
    then have "be32 ?c = ?x" by (rule be32_join)
    with 3 run show thesis by (intro Ok[of ?c]) simp_all
  qed
qed


lemma goes_slice: "goes bs off k p \<Longrightarrow> p (bs, off) = Some (Inr (a, bs', off')) \<Longrightarrow> bs' = bs"
  by (auto simp: goes_def)

lemma goes_seek: "goes bs off (n - off) (seek refIterator n)"
  by (simp add: goes_def seek_def pmove_def)

text \<open>The part of \<^verbatim>\<open>parsePSISection\<close> behind the header.\<close>

definition section_stop :: "PSISectionHeader \<Rightarrow> int \<Rightarrow> int" where
  "section_stop h off = (if hasCRC32 (psh_TableID h) then off + 3 + uint (psh_SectionLength h) - 4 else off + 3 + uint (psh_SectionLength h))"

definition after_header :: "PSISectionHeader \<Rightarrow> int \<Rightarrow> (cursor, PSISection) parser" where
  "after_header h off = (if psh_SectionLength h > 0
     then
       pbind (pwrap ''astits: parsing PSI section syntax failed: '' (parsePSISectionSyntax refIterator h (section_stop h off))) (\<lambda>syn.
       pbind (pwhen (hasCRC32 (psh_TableID h)) 0 (parsePSISectionCRC32 refIterator off (section_stop h off))) (\<lambda>c.
       preturn \<lparr>sec_CRC32 = c, sec_Header = Some h, sec_Syntax = Some syn\<rparr>))
     else preturn \<lparr>sec_CRC32 = 0, sec_Header = Some h, sec_Syntax = None\<rparr>)"

lemma parsePSISection_cases:
  assumes "0 \<le> off"
  obtains (Err) e where "parsePSISection refIterator (bs, off) = Some (Inl e)" "e \<noteq> Panic"
  | (Stop) h where "parsePSISection refIterator (bs, off) = Some (Inr ((\<lparr>sec_CRC32 = 0, sec_Header = Some h, sec_Syntax = None\<rparr>, True), bs, off + 1))"
      "shouldStopPSIParsing (psh_TableID h)" "psh_TableID h = ucast (bs ! nat off)"
  | (Go) h where "parsePSISection refIterator (bs, off) = pbind (after_header h off) (\<lambda>s.
        pbind (seek refIterator (off + 3 + uint (psh_SectionLength h))) (\<lambda>_. preturn (s, False))) (bs, off + 3)"
      "off + 3 \<le> int (length bs)" "psh_TableID h = ucast (bs ! nat off)"
      "psh_SectionLength h = push_bit 8 (ucast (bs ! nat (off + 1) AND 0xf)) OR ucast (bs ! nat (off + 2))"
  using assms
proof (cases rule: parsePSISectionHeader_cases[where bs = bs])
  case (Err e)
  show thesis by (rule that(1)[of "wrapError ''astits: parsing PSI section header failed: '' e"])
    (use Err in \<open>simp_all add: parsePSISection_def pbind_def pwrap_def\<close>)
next
  case (Stop h)
  show thesis by (rule that(2)[of h]) (use Stop in \<open>simp_all add: parsePSISection_def pbind_def pwrap_def preturn_def\<close>)
next
  case (Go h)
  show thesis by (rule that(3)[of h])
    (use Go in \<open>simp_all add: parsePSISection_def pbind_def[of "pwrap _ (parsePSISectionHeader _)"] pwrap_Inr after_header_def section_stop_def\<close>)
qed

lemma section_stop_le: "psh_SectionLength h > 0 \<Longrightarrow> off \<le> section_stop h off"
  by (simp add: section_stop_def word_less_def)

lemma goes_after_header:
  assumes "DescriptorTagVBIData \<notin> set bs" and "0 \<le> off"
  shows "goes bs (off + 3) (-3) (after_header h off)"
proof -
  have crc: "goes bs off' (off - off') (pwhen (hasCRC32 (psh_TableID h)) 0 (parsePSISectionCRC32 refIterator off (section_stop h off)))"
    if "off \<le> off'" "psh_SectionLength h > 0" for off'
    using that section_stop_le[OF that(2), of off]
    by (cases "hasCRC32 (psh_TableID h)";
        cases rule: parsePSISectionCRC32_cases[OF assms(2) section_stop_le[OF that(2), of off], of bs off'])
      (auto simp: goes_def pwhen_def preturn_def)
  show ?thesis
    unfolding after_header_def
    by (intro goes_if goes_preturn goes_pbind[OF goes_pwrap[OF steadyD[OF steady_parsePSISectionSyntax[OF assms(1)]]]]
        goes_pbind[OF crc]) (use assms(2) in auto)
qed

lemma goes_parsePSISection:
  assumes "DescriptorTagVBIData \<notin> set bs" and "0 \<le> off"
  shows "goes bs off 1 (parsePSISection refIterator)"
  using assms(2)
proof (cases rule: parsePSISection_cases[where bs = bs])
  case (Go h)
  have "goes bs (off + 3) (-2) (pbind (after_header h off) (\<lambda>s. pbind (seek refIterator (off + 3 + uint (psh_SectionLength h))) (\<lambda>_. preturn (s, False))))"
  proof (rule goes_pbind[OF goes_after_header[OF assms]], rule goes_pbind[OF goes_seek], rule goes_preturn)
    fix off' off'' :: int assume "off' + (off + 3 + uint (psh_SectionLength h) - off') \<le> off''"
    moreover have "0 \<le> uint (psh_SectionLength h)" by simp
    ultimately show "off' + (off + 3 + -2 - off') - off'' \<le> 0" by linarith
  qed
  with Go(1) show ?thesis by (simp add: goes_def add.commute)
qed (auto simp: goes_def)

lemma goes_parsePSIData:
  assumes "DescriptorTagVBIData \<notin> set bs" and "0 \<le> off"
  shows "goes bs off 1 (parsePSIData refIterator)"
  unfolding parsePSIData_def
proof (rule goes_pbind[OF goes_advances[OF advances_fetchByte1 assms(2)]],
    rule goes_pbind[OF steadyD[OF steady_fetches(5)]], goal_cases)
  case (3 b off' u off'')
  then have off'': "off + 1 \<le> off''" by simp
  have "goes bs o' 1 (case x of (sections, stop) \<Rightarrow> pbind (pwrap ''astits: parsing PSI table failed: '' (parsePSISection refIterator))
      (\<lambda>(s, stop). preturn (sections @ [s], stop)))" if "off'' \<le> o'" for o' x
    using that off'' assms
    by (cases x) (auto intro!: goes_pbind[OF goes_pwrap[OF goes_parsePSISection[OF assms(1)]]] goes_preturn)
  then have "goes bs off'' 0 (pwhile (\<lambda>(sections, stop) i. bi_HasBytesLeft refIterator i \<and> \<not> stop)
       (\<lambda>(sections, stop). pbind (pwrap ''astits: parsing PSI table failed: '' (parsePSISection refIterator)) (\<lambda>(s, stop).
         preturn (sections @ [s], stop))) ([], False))"
    by (rule goes_pwhile[where stop = "int (length bs)"]) auto
  then show ?case by (rule goes_pbind) (use off'' 3 in \<open>auto intro!: goes_preturn\<close>)
qed (use assms(2) in simp_all)

text \<open>An accepted section with a checksum lies in the bytes, and its checksum is that of its content.\<close>

lemma hasCRC32_known: "hasCRC32 t \<Longrightarrow> \<not> shouldStopPSIParsing t"
  by (auto simp: shouldStopPSIParsing_def isUnknown_def hasCRC32_def table_ids)

lemma parsePSISection_accepts:
  assumes "parsePSISection refIterator (bs, off) = Some (Inr (r, i))" and "0 \<le> off"
    and n: "n = push_bit 8 (ucast (bs ! nat (off + 1) AND 0xf)) OR ucast (bs ! nat (off + 2))" "0 < (n :: uint16)"
    and crc: "hasCRC32 (ucast (bs ! nat off))" and vbi: "DescriptorTagVBIData \<notin> set bs"
  shows "off + 3 + uint n \<le> int (length bs)" and "computeCRC32 (window bs off (3 + uint n)) = 0"
proof -
  from assms(2) have "off + 3 + uint n \<le> int (length bs) \<and> computeCRC32 (window bs off (3 + uint n)) = 0"
  proof (cases rule: parsePSISection_cases[where bs = bs])
    case (Go h)
    have h: "psh_SectionLength h = n" "psh_SectionLength h > 0" "hasCRC32 (psh_TableID h)" using n crc Go by simp_all
    from assms(1)[unfolded Go(1)] obtain s j where body: "after_header h off (bs, off + 3) = Some (Inr (s, j))"
      by (elim pbind_InrE)
    have stop: "section_stop h off = off + uint n - 1" using h by (simp add: section_stop_def)
    from body h obtain syn c bs' o' where
      syn: "pwrap ''astits: parsing PSI section syntax failed: '' (parsePSISectionSyntax refIterator h (section_stop h off)) (bs, off + 3) =
        Some (Inr (syn, bs', o'))"
      and c: "parsePSISectionCRC32 refIterator off (section_stop h off) (bs', o') = Some (Inr (c, j))"
      by (auto simp: after_header_def pwhen_def preturn_def elim!: pbind_InrE)
    have "goes bs (off + 3) 0 (pwrap ''astits: parsing PSI section syntax failed: '' (parsePSISectionSyntax refIterator h (section_stop h off)))"
      by (intro goes_pwrap steadyD steady_parsePSISectionSyntax[OF vbi]) (use assms(2) in simp)
    from goes_slice[OF this syn] c have ok: "section_stop h off + 4 \<le> int (length bs)"
        "window bs (section_stop h off) 4 = be32 (computeCRC32 (window bs off (section_stop h off - off)))"
      by (cases rule: parsePSISectionCRC32_cases[OF assms(2) section_stop_le[OF h(2), of off], of bs o']; auto)+
    have "nat (3 + uint n) = nat (section_stop h off - off) + 4" "nat (section_stop h off) = nat off + nat (section_stop h off - off)"
      using stop section_stop_le[OF h(2), of off] assms(2) by simp_all
    then have "window bs off (3 + uint n) = window bs off (section_stop h off - off) @ window bs (section_stop h off) 4"
      by (simp only: window_def take_add drop_drop) (simp add: add.commute)
    with ok stop show ?thesis by (simp add: crc32_self)
  qed (use assms(1) crc in \<open>simp_all add: hasCRC32_known\<close>)
  then show "off + 3 + uint n \<le> int (length bs)" "computeCRC32 (window bs off (3 + uint n)) = 0" by simp_all
qed

text \<open>The first section decides: when it is not accepted, the data are refused.\<close>

lemma parsePSIData_refuses:
  assumes "DescriptorTagVBIData \<notin> set (0 # bs)" and "bs \<noteq> []"
    and "\<And>r i. parsePSISection refIterator (0 # bs, 1) \<noteq> Some (Inr (r, i))"
  shows "\<exists>e. parseBytes refIterator (parsePSIData refIterator) (0 # bs) = Some (Inl e) \<and> e \<noteq> Panic"
proof -
  from goes_parsePSISection[OF assms(1), of 1] assms(3) obtain e where
    "parsePSISection refIterator (0 # bs, 1) = Some (Inl e)" "e \<noteq> Panic" by (fastforce simp: goes_def)
  then have "parseSections refIterator ([], False) (0 # bs, 1) = Some (Inl (wrapError ''astits: parsing PSI table failed: '' e))"
    using assms(2) by (subst pwhile_unfold) (simp add: pbind_def pwrap_def)
  with \<open>e \<noteq> Panic\<close> show ?thesis
    by (simp add: parseBytes_def parsePSIData_def pbind_def fetchByte_def pwrap_def plift_def skip_def pmove_def)
qed

text \<open>The fields of the header of a written section, in the bytes at an offset.\<close>

lemma section_head_fields:
  assumes "wf_section sp" and "stands bs off (bits_to_bytes (section_head sp))" and "0 \<le> off"
  shows "ucast (bs ! nat off) = table_id (sp_Table sp)"
    and "push_bit 8 (ucast (bs ! nat (off + 1) AND 0xf)) OR ucast (bs ! nat (off + 2)) = section_length sp"
proof -
  let ?h = "the (sec_Header (section_of (settled sp)))"
  have run: "parsePSISectionHeader refIterator (bs, off) = Some (Inr ((?h, off, off + 3,
      off + 8 + int (table_size (sp_Table sp)), off + 12 + int (table_size (sp_Table sp))), bs, off + 3))"
    using reads_parsePSISectionHeader[OF assms(1), of bs off] assms(2) by (simp add: reads_def)
  have h: "psh_TableID ?h = table_id (sp_Table sp)" "psh_SectionLength ?h = section_length sp"
    by (simp_all add: section_of_def settled_def)
  from assms(3) have "table_id (sp_Table sp) = ucast (bs ! nat off) \<and>
      section_length sp = push_bit 8 (ucast (bs ! nat (off + 1) AND 0xf)) OR ucast (bs ! nat (off + 2))"
  proof (cases rule: parsePSISectionHeader_cases[where bs = bs])
    case (Go h')
    from run[unfolded Go(1)] have "h' = ?h" by blast
    with Go(4,5) h show ?thesis by simp
  qed (use run in simp_all)
  then show "ucast (bs ! nat off) = table_id (sp_Table sp)"
    "push_bit 8 (ucast (bs ! nat (off + 1) AND 0xf)) OR ucast (bs ! nat (off + 2)) = section_length sp" by auto
qed

lemma parsePSIData_total:
  assumes "bytes_iterator I" and "DescriptorTagVBIData \<notin> set bs"
  shows "\<exists>r. parseBytes I (parsePSIData I) bs = Some r \<and> r \<noteq> Inl Panic"
proof -
  from goes_parsePSIData[OF assms(2), of 0] obtain r where
    "parseBytes refIterator (parsePSIData refIterator) bs = Some r" "r \<noteq> Inl Panic"
    by (auto simp: goes_def parseBytes_def)
  with bytes_iterator.parseBytes_transfer[OF assms(1) bytes_iterator.sim_parsePSIData[OF assms(1)]]
  show ?thesis by blast
qed

section \<open>Properties\<close>

text \<open>
  \<^bold>\<open>C10\<close>. \<^verbatim>\<open>parsePSIData\<close> returns, with sections or an error, and without a panic, on every
  input in which the tag byte of VBI data descriptors does not occur.
\<close>

theorem parsePSIData_returns:
  assumes "bytes_iterator I" and "DescriptorTagVBIData \<notin> set bs"
  shows "\<exists>r. parseBytes I (parsePSIData I) bs = Some r \<and> r \<noteq> Inl Panic"
  using assms by (rule parsePSIData_total)

text \<open>
  \<^bold>\<open>C11\<close>. A corrupted table is refused. Take the bytes that \<^verbatim>\<open>writePSIData\<close> writes for one
  well-formed section and change up to four consecutive bytes behind the section header; whatever
  follows, \<^verbatim>\<open>parsePSIData\<close> returns an error (as before, for input without the tag of VBI data).
\<close>

theorem psi_burst_refused:
  assumes "astikit I W view" and "wf_section sp"
    and "writeBytes W (writePSIData W \<lparr>psi_PointerField = 0, psi_Sections = [section_of sp]\<rparr>) = (Inr n, [0] @ xs @ e @ ys)"
    and "3 \<le> length xs" and "length e' = length e" and "length e \<le> 4" and "e' \<noteq> e"
    and "DescriptorTagVBIData \<notin> set (xs @ e' @ ys @ rest)"
  shows "\<exists>err. parseBytes I (parsePSIData I) ([0] @ xs @ e' @ ys @ rest) = Some (Inl err) \<and> err \<noteq> Panic"
proof -
  note I = astikit.axioms(1)[OF assms(1)] and W = astikit.axioms(2)[OF assms(1)]
  let ?body = "bits_to_bytes (section_body sp)" and ?sec = "xs @ e' @ ys @ rest"
  have bits: "bits_to_bytes (section_bits sp) = ?body @ be32 (computeCRC32 ?body)"
    by (simp add: section_bits_def bits_to_bytes_aligned be32_def section_crc_def del: bits_of_numeral)
  from assms(3) bits_writer.writeBytes_emits_clean[OF W bits_writer.emits_writePSIData[OF W], of "[sp]" 0] assms(2)
  have good: "xs @ e @ ys = bits_to_bytes (section_bits sp)" by (simp add: psi_bytes)
  have "computeCRC32 (xs @ e @ ys) = 0" unfolding good bits by (rule crc32_self)
  then have bad: "computeCRC32 (xs @ e' @ ys) \<noteq> 0" using crc32_burst[OF assms(5), of xs ys] assms(5-7) by auto
  have len: "length (xs @ e @ ys) = 12 + table_size (sp_Table sp)" unfolding good by simp
  have "take 3 xs = take 3 (xs @ e @ ys)" using assms(4) by simp
  also have "\<dots> = bits_to_bytes (section_head sp)" unfolding good bits by (simp add: section_body_def bits_to_bytes_aligned)
  finally have head: "take 3 xs = bits_to_bytes (section_head sp)" .
  have "bits_to_bytes (section_head sp) @ drop 3 xs = xs" unfolding head[symmetric] by (rule append_take_drop_id)
  then have "?sec = (bits_to_bytes (section_head sp) @ drop 3 xs) @ e' @ ys @ rest" by (rule ssubst) (rule refl)
  then have st: "stands (0 # ?sec) 1 (bits_to_bytes (section_head sp))"
    unfolding stands_def by (intro exI[of _ "[0]"] exI[of _ "drop 3 xs @ e' @ ys @ rest"]) simp
  note fields = section_head_fields[OF assms(2) st]
  have n: "0 < section_length sp" "uint (section_length sp) = 9 + int (table_size (sp_Table sp))"
    using assms(2) by (simp_all add: section_length_def wf_section_def word_less_nat_alt unsigned_of_nat take_bit_nat_eq_self
        del: of_nat_add of_nat_Suc)
  have "window (0 # ?sec) 1 (3 + uint (section_length sp)) = xs @ e' @ ys"
    using len assms(5) n by (simp add: window_def nat_add_distrib)
  moreover have vbi: "DescriptorTagVBIData \<notin> set (0 # ?sec)" using assms(8) by (simp add: DescriptorTagVBIData_def)
  ultimately have window: "window (0 # ?sec) 1 (3 + uint (section_length sp)) = xs @ e' @ ys" and vbi: "DescriptorTagVBIData \<notin> set (0 # ?sec)" .
  have "parsePSISection refIterator (0 # ?sec, 1) \<noteq> Some (Inr (r, i))" for r i
  proof
    assume acc: "parsePSISection refIterator (0 # ?sec, 1) = Some (Inr (r, i))"
    have "hasCRC32 (ucast ((0 # ?sec) ! nat 1))" unfolding fields(1)[OF zero_le_one] by (rule table_known(2))
    from parsePSISection_accepts(2)[OF acc zero_le_one fields(2)[OF zero_le_one, symmetric] n(1) this vbi] bad
    show False unfolding window by (rule notE[rotated])
  qed
  moreover have "?sec \<noteq> []" using assms(4) by auto
  ultimately obtain err where
    "parseBytes refIterator (parsePSIData refIterator) (0 # ?sec) = Some (Inl err)" "err \<noteq> Panic"
    using parsePSIData_refuses[OF vbi] by blast
  with bytes_iterator.parseBytes_transfer[OF I bytes_iterator.sim_parsePSIData[OF I]] show ?thesis by fastforce
qed


section \<open>Witnesses\<close>

theorem parsePSIData_returns_witness:
  "\<exists>r. parseBytes refIterator (parsePSIData refIterator) [0, 0, 0xb0, 13, 0, 1] = Some r \<and> r \<noteq> Inl Panic"
  by (rule parsePSIData_returns[OF ref_iterator.bytes_iterator_axioms]) (simp add: DescriptorTagVBIData_def)

text \<open>A table with one program, and its bytes with the program number changed.\<close>

definition sampleSection :: sectionSpec where
  "sampleSection = \<lparr>sp_Length = 8, sp_CRC32 = 0, sp_Type = '''', sp_PrivateBit = False, sp_SyntaxIndicator = True,
     sp_Syntax = sampleSyntax, sp_Table = TPAT [\<lparr>pgm_ProgramMapID = 0x1000, pgm_ProgramNumber = 1\<rparr>]\<rparr>"

lemma sampleSection:
  "wf_section sampleSection"
  "writeBytes refWriter (writePSIData refWriter \<lparr>psi_PointerField = 0, psi_Sections = [section_of sampleSection]\<rparr>) =
     (Inr 17, [0] @ [0x00, 0xb0, 13, 0, 7, 0xeb, 0, 0] @ [0, 1] @ [0xf0, 0] @ be32 (section_crc sampleSection))"
proof -
  show wf: "wf_section sampleSection"
    by (simp add: wf_section_def sampleSection_def sampleSyntax_def fits_def)
  have "bits_to_bytes (section_bits sampleSection) = bits_to_bytes (section_body sampleSection) @ be32 (section_crc sampleSection)"
    by (simp add: section_bits_def bits_to_bytes_aligned be32_def section_crc_def del: bits_of_numeral)
  moreover have "bits_to_bytes (section_body sampleSection) = [0x00, 0xb0, 13, 0, 7, 0xeb, 0, 0] @ [0, 1] @ [0xf0, 0]"
    by code_simp
  ultimately show "writeBytes refWriter (writePSIData refWriter \<lparr>psi_PointerField = 0, psi_Sections = [section_of sampleSection]\<rparr>) =
     (Inr 17, [0] @ [0x00, 0xb0, 13, 0, 7, 0xeb, 0, 0] @ [0, 1] @ [0xf0, 0] @ be32 (section_crc sampleSection))"
    using ref_writer.writeBytes_emits_clean[OF ref_writer.emits_writePSIData, of "[sampleSection]" 0] wf
    by (simp add: psi_bytes sampleSection_def)
qed

theorem psi_burst_refused_witness:
  "\<exists>err. parseBytes refIterator (parsePSIData refIterator)
      ([0] @ [0x00, 0xb0, 13, 0, 7, 0xeb, 0, 0] @ [0, 2] @ ([0xf0, 0] @ be32 (section_crc sampleSection)) @ replicate 100 0xff) =
    Some (Inl err) \<and> err \<noteq> Panic"
proof -
  have "be32 (section_crc sampleSection) = [0xd2, 0x7, 0x8a, 0x52]" by code_simp
  then show ?thesis
    by (intro psi_burst_refused[OF ref_astikit.astikit_axioms sampleSection]) (simp_all add: DescriptorTagVBIData_def)
qed

end
