(* ===== verification/Muxer_Tables.thy ===== *)
theory Muxer_Tables
  imports Muxer_Codec Demuxer_Stream Psi_Safety
begin

text \<open>
  The program tables of the muxer: the two packets that \<^verbatim>\<open>WriteTables\<close> writes, and that they
  parse back to the program and its streams.
\<close>

section \<open>The packets of tables\<close>

text \<open>A table as the muxer fills it in, and the packet that carries it, padded with 0xff.\<close>

definition muxTable :: "uint16 \<Rightarrow> uint16 \<Rightarrow> uint8 \<Rightarrow> table \<Rightarrow> sectionSpec" where
  "muxTable len ext version t = \<lparr>sp_Length = len, sp_CRC32 = 0, sp_Type = '''', sp_PrivateBit = False, sp_SyntaxIndicator = True,
     sp_Syntax = \<lparr>ssh_CurrentNextIndicator = True, ssh_LastSectionNumber = 0, ssh_SectionNumber = 0,
       ssh_TableIDExtension = ext, ssh_VersionNumber = version\<rparr>, sp_Table = t\<rparr>"

definition table_payload :: "sectionSpec \<Rightarrow> byte list" where
  "table_payload sp = bits_to_bytes (psi_bits 0 [sp]) @ replicate (171 - table_size (sp_Table sp)) 0xff"

definition table_wire :: "uint16 \<Rightarrow> sectionSpec \<Rightarrow> byte list" where
  "table_wire pid sp = packet_wire (tablePacket pid (table_payload sp))"

lemma tableSection_spec:
  "tableSection len (table_id t) ext v (table_data ext t) = \<lparr>psi_PointerField = 0, psi_Sections = [section_of (muxTable len ext v t)]\<rparr>"
  by (simp add: tableSection_def section_of_def muxTable_def)

lemma sp_muxTable [simp]: "sp_Table (muxTable len ext v t) = t" "ssh_TableIDExtension (sp_Syntax (muxTable len ext v t)) = ext"
  by (simp_all add: muxTable_def)

text \<open>A table that fits into one packet.\<close>

definition fits_packet :: "sectionSpec \<Rightarrow> bool" where
  "fits_packet sp \<longleftrightarrow> wf_section sp \<and> table_size (sp_Table sp) \<le> 171"

lemma length_table_payload: "fits_packet sp \<Longrightarrow> length (table_payload sp) = 184"
  by (simp add: table_payload_def psi_bytes fits_packet_def)

lemma length_table_wire: "fits_packet sp \<Longrightarrow> length (table_wire pid sp) = 188"
  using length_table_payload[of sp] by (simp add: table_wire_def packet_wire_def tablePacket_def)

lemma wf_tableHeader: "fits 13 pid \<Longrightarrow> wf_header (p_Header (tablePacket pid bs))"
  by (simp add: wf_header_def tablePacket_def fits_def)

lemma parse_table_wire:
  assumes "fits_packet sp" and "fits 13 pid"
  shows "parseBytes refIterator (parsePacket refIterator) (table_wire pid sp) = Some (Inr (tablePacket pid (table_payload sp)))"
proof -
  let ?h = "p_Header (tablePacket pid (table_payload sp))"
  have eq: "table_wire pid sp = [syncByte] @ bits_to_bytes (header_bits ?h) @ [] @ table_payload sp"
    by (simp add: table_wire_def packet_wire_def tablePacket_def)
  have "parseBytes refIterator (parsePacket refIterator) (table_wire pid sp) = Some (Inr \<lparr>p_AdaptationField = None, p_Header = ?h,
      p_Payload = (if ph_HasPayload ?h then table_payload sp else [])\<rparr>)"
    by (rule parsePacket_parts[OF wf_tableHeader[OF assms(2)] eq length_table_wire[OF assms(1)]])
      (simp_all add: tablePacket_def pwhen_def preturn_def payloadOffset_def)
  then show ?thesis by (simp add: tablePacket_def)
qed

lemma parse_table_payload:
  assumes "fits_packet sp"
  shows "parseBytes refIterator (parsePSIData refIterator) (table_payload sp) =
    Some (Inr \<lparr>psi_PointerField = 0, psi_Sections = section_of (settled sp) # padding (171 - table_size (sp_Table sp))\<rparr>)"
  using parsePSIData_ok[of "[sp]" 0] assms unfolding table_payload_def by (simp add: fits_packet_def)

context bits_writer
begin

lemma writeBytes_table:
  assumes "fits_packet sp" and "fits 13 pid"
  shows "writeBytes W (writePSIData W \<lparr>psi_PointerField = 0, psi_Sections = [section_of sp]\<rparr>) =
      (Inr (13 + int (table_size (sp_Table sp))), bits_to_bytes (psi_bits 0 [sp]))"
    and "writeBytes W (writePacket W (tablePacket pid (bits_to_bytes (psi_bits 0 [sp]))) 188) = (Inr 188, table_wire pid sp)"
proof -
  show "writeBytes W (writePSIData W \<lparr>psi_PointerField = 0, psi_Sections = [section_of sp]\<rparr>) =
      (Inr (13 + int (table_size (sp_Table sp))), bits_to_bytes (psi_bits 0 [sp]))"
    using writeBytes_emits_clean[OF emits_writePSIData, of "[sp]" 0] assms(1) by (simp add: fits_packet_def)
  let ?bs = "bits_to_bytes (psi_bits 0 [sp])" and ?p = "tablePacket pid (bits_to_bytes (psi_bits 0 [sp]))"
  have len: "length ?bs = 13 + table_size (sp_Table sp)" by (simp add: psi_bytes)
  have "emits view (writePacket W ?p 188) (bits_of 8 syncByte @ header_bits (p_Header ?p) @ [] @
    bytes_to_bits (p_Payload ?p @ replicate (nat (188 - (4 + 0 + int (length (p_Payload ?p))))) 0xff)) 188"
    by (rule emits_writePacket_parts) (use assms(1) len in \<open>simp_all add: tablePacket_def wwhen_def emits_wreturn fits_packet_def\<close>)
  from writeBytes_emits[OF this] have bytes: "writeBytes W (writePacket W ?p 188) = (Inr 188, bits_to_bytes (bits_of 8 syncByte @
    header_bits (p_Header ?p) @ [] @ bytes_to_bits (p_Payload ?p @ replicate (nat (188 - (4 + 0 + int (length (p_Payload ?p))))) 0xff)))" .
  have "bits_to_bytes (bits_of 8 syncByte) = [syncByte]"
    using bits_to_bytes_bytes[of "[syncByte]"] by (simp del: bits_of_numeral bits_to_bytes_bytes)
  with bytes show "writeBytes W (writePacket W ?p 188) = (Inr 188, table_wire pid sp)"
    using len assms(1)
    by (simp add: table_wire_def packet_wire_def tablePacket_def table_payload_def fits_packet_def bits_to_bytes_aligned nat_diff_distrib
        del: bits_of_numeral)
qed

end

section \<open>Generating tables\<close>

text \<open>
  What is fixed for the muxer's tables: the one program, version counters of five bits, and a
  program map table that fits into a packet, with the PCR on one of its streams.
\<close>

definition program :: PATProgram where
  "program = \<lparr>pgm_ProgramMapID = pmtStartPID, pgm_ProgramNumber = programNumberStart\<rparr>"

definition wf_program :: "'w Muxer \<Rightarrow> uint16 \<Rightarrow> content list \<Rightarrow> stream list \<Rightarrow> bool" where
  "wf_program m pcr cs ess \<longleftrightarrow> mux_pm m = pm_set newProgramMap pmtStartPID programNumberStart \<and>
     mux_pmt m = pmt_of programNumberStart pcr cs ess \<and> wf_table (TPMT pcr cs ess) \<and> table_size (TPMT pcr cs ess) \<le> 171 \<and>
     pcr \<in> set (map (\<lambda>(_, pid, _). pid) ess) \<and>
     wc_inv (mux_patVersion m) \<and> wrapAt (mux_patVersion m) = 31 \<and> wc_inv (mux_pmtVersion m) \<and> wrapAt (mux_pmtVersion m) = 31"

definition patTable :: "uint8 \<Rightarrow> sectionSpec" where
  "patTable v = muxTable 4 0 v (TPAT [program])"

definition pmtTable :: "uint16 \<Rightarrow> content list \<Rightarrow> stream list \<Rightarrow> uint8 \<Rightarrow> sectionSpec" where
  "pmtTable pcr cs ess v = muxTable (word_of_nat (table_size (TPMT pcr cs ess))) programNumberStart v (TPMT pcr cs ess)"

text \<open>The tables kept from an earlier call, if any, are those of the present program.\<close>

definition tables_current :: "'w Muxer \<Rightarrow> uint16 \<Rightarrow> content list \<Rightarrow> stream list \<Rightarrow> bool" where
  "tables_current m pcr cs ess \<longleftrightarrow>
     (length (mux_patBytes m) = 188 \<longrightarrow> (\<exists>v. fits 5 v \<and> mux_patBytes m = table_wire PIDPAT (patTable v))) \<and>
     (length (mux_pmtBytes m) = 188 \<longrightarrow> (\<exists>v. fits 5 v \<and> mux_pmtBytes m = table_wire pmtStartPID (pmtTable pcr cs ess v)))"

lemma fits_version: "wc_inv c \<Longrightarrow> wrapAt c = 31 \<Longrightarrow> fits 5 (word_of_int (wc_value c) :: uint8)"
  by (simp add: fits_def word_less_def wc_inv_def unsigned_of_int take_bit_int_eq_self)

lemma fits_patTable: "fits 5 v \<Longrightarrow> fits_packet (patTable v)"
  by (simp add: fits_packet_def patTable_def wf_section_def muxTable_def program_def fits_def pmtStartPID_def)

lemma table_size_pos: "0 < table_size (TPMT pcr cs ess)"
  by simp

lemma fits_pmtTable:
  assumes "wf_program m pcr cs ess" and "fits 5 v"
  shows "fits_packet (pmtTable pcr cs ess v)"
proof -
  have "table_size (TPMT pcr cs ess) \<le> 171" using assms(1) by (simp add: wf_program_def)
  then have "0 < (word_of_nat (table_size (TPMT pcr cs ess)) :: uint16)"
    using table_size_pos[of pcr cs ess]
    by (simp add: word_less_nat_alt unsigned_of_nat take_bit_nat_eq_self del: table_size.simps)
  with assms show ?thesis
    by (simp add: fits_packet_def pmtTable_def wf_section_def muxTable_def wf_program_def del: table_size.simps wf_table.simps)
qed

lemma toPATData_program:
  assumes "map_range rng"
  shows "toPATData rng (pm_set newProgramMap pmtStartPID programNumberStart) = pat_of 0 [program]"
  using map_range.rng_single[OF assms]
  by (simp add: toPATData_def pm_set_def newProgramMap_def pat_of_def program_def lookup_update)

lemma calcPMTSectionLength_spec:
  assumes "wf_table (TPMT pcr cs ess)"
  shows "calcPMTSectionLength (pmt_of ext pcr cs ess) = Some (word_of_nat (table_size (TPMT pcr cs ess)))"
  using assms by (simp add: calcPMTSectionLength_def pmt_of_def calcPMTStreamsLength_size calcDescriptorsLength_size)

context bits_writer
begin

lemma generatePAT_ok:
  assumes "map_range rng" and "wf_program m pcr cs ess" and "mux_packetSize m = 188"
  shows "\<exists>v. fits 5 v \<and> generatePAT W rng m =
    (None, m\<lparr>mux_patVersion := snd (wc_get (mux_patVersion m)), mux_patBytes := table_wire PIDPAT (patTable v)\<rparr>)"
proof -
  let ?v = "word_of_int (wc_value (mux_patVersion m)) :: uint8"
  have v: "fits 5 ?v" using assms(2) by (simp add: wf_program_def fits_version)
  have pat: "toPATData rng (mux_pm m) = pat_of 0 [program]" using assms(1,2) by (simp add: wf_program_def toPATData_program)
  have "tableSection (calcPATSectionLength (pat_of 0 [program])) 0 0 ?v (emptyPSISectionSyntaxData\<lparr>ssd_PAT := Some (pat_of 0 [program])\<rparr>) =
    \<lparr>psi_PointerField = 0, psi_Sections = [section_of (patTable ?v)]\<rparr>"
    using tableSection_spec[of 4 "TPAT [program]" 0 ?v]
    by (simp add: patTable_def calcPATSectionLength_def pat_of_def table_ids)
  then show ?thesis
    using v writeBytes_table[OF fits_patTable[OF v], of PIDPAT] assms(3)
    by (intro exI[of _ ?v]) (simp add: generatePAT_def pat Let_def split_beta pat_of_def PIDPAT_def fits_def)
qed

lemma generatePMT_ok:
  assumes "wf_program m pcr cs ess" and "mux_packetSize m = 188"
  shows "\<exists>v. fits 5 v \<and> generatePMT W m =
    (None, m\<lparr>mux_pmtVersion := snd (wc_get (mux_pmtVersion m)), mux_pmtBytes := table_wire pmtStartPID (pmtTable pcr cs ess v)\<rparr>)"
proof -
  let ?v = "word_of_int (wc_value (mux_pmtVersion m)) :: uint8" and ?t = "TPMT pcr cs ess"
  have v: "fits 5 ?v" using assms(1) by (simp add: wf_program_def fits_version)
  have pmt: "mux_pmt m = pmt_of programNumberStart pcr cs ess" and wf: "wf_table ?t" using assms(1) by (simp_all add: wf_program_def)
  have pcr: "\<exists>es\<in>set (pmt_ElementaryStreams (mux_pmt m)). es_ElementaryPID es = pmt_PCRPID (mux_pmt m)"
    using assms(1) by (force simp: wf_program_def pmt_of_def)
  have num: "pmt_ProgramNumber (mux_pmt m) = programNumberStart" by (simp add: pmt pmt_of_def)
  have len: "calcPMTSectionLength (mux_pmt m) = Some (word_of_nat (table_size ?t))"
    unfolding pmt by (rule calcPMTSectionLength_spec[OF wf])
  have "tableSection (word_of_nat (table_size ?t)) PSITableIDPMT programNumberStart ?v (emptyPSISectionSyntaxData\<lparr>ssd_PMT := Some (mux_pmt m)\<rparr>) =
    \<lparr>psi_PointerField = 0, psi_Sections = [section_of (pmtTable pcr cs ess ?v)]\<rparr>"
    using tableSection_spec[of "word_of_nat (table_size ?t)" ?t programNumberStart ?v] by (simp add: pmtTable_def pmt)
  moreover have "fits 13 pmtStartPID" by (simp add: fits_def pmtStartPID_def)
  ultimately show ?thesis
    using v writeBytes_table[OF fits_pmtTable[OF assms(1) v], of pmtStartPID] assms(2) pcr
    by (intro exI[of _ ?v]) (simp add: generatePMT_def len num Let_def split_beta)
qed

lemma writeDirect_ok:
  assumes "mux_ok view m"
  shows "\<exists>w. writeDirect W bs m = (None, m\<lparr>mux_w := w\<rparr>) \<and> view w = (view (mux_w m))\<lparr>vw_bytes := vw_bytes (view (mux_w m)) @ bs\<rparr>"
  using Direct[of bs "mux_w m"] by (auto simp: writeDirect_def)

end

text \<open>What \<^verbatim>\<open>WriteTables\<close> changes of a muxer.\<close>

definition with_tables :: "'w Muxer \<Rightarrow> 'w Muxer \<Rightarrow> bool" where
  "with_tables m m' \<longleftrightarrow> (\<exists>w a b x y. m' = m\<lparr>mux_w := w, mux_patVersion := a, mux_pmtVersion := b, mux_patBytes := x, mux_pmtBytes := y\<rparr>)"

context bits_writer
begin

lemma ensurePAT:
  assumes "map_range rng" and "wf_program m pcr cs ess" and "mux_packetSize m = 188" and "tables_current m pcr cs ess"
  shows "\<exists>v a. fits 5 v \<and> wc_inv a \<and> wrapAt a = 31 \<and>
    (if int (length (mux_patBytes m)) \<noteq> mux_packetSize m then generatePAT W rng m else (None, m)) =
    (None, m\<lparr>mux_patVersion := a, mux_patBytes := table_wire PIDPAT (patTable v)\<rparr>)"
proof (cases "length (mux_patBytes m) = 188")
  case True
  with assms(2-4) show ?thesis
    by (auto simp: tables_current_def wf_program_def intro!: exI[of _ "mux_patVersion m"])
next
  case False
  then have "int (length (mux_patBytes m)) \<noteq> mux_packetSize m" using assms(3) by simp
  moreover have "wc_inv (snd (wc_get (mux_patVersion m)))" "wrapAt (snd (wc_get (mux_patVersion m))) = 31"
    using assms(2) by (simp_all add: wf_program_def wc_inv_get)
  moreover obtain v where "fits 5 v" "generatePAT W rng m =
      (None, m\<lparr>mux_patVersion := snd (wc_get (mux_patVersion m)), mux_patBytes := table_wire PIDPAT (patTable v)\<rparr>)"
    using generatePAT_ok[OF assms(1-3)] by blast
  ultimately show ?thesis by (intro exI[of _ v] exI[of _ "snd (wc_get (mux_patVersion m))"]) simp
qed

lemma ensurePMT:
  assumes "wf_program m pcr cs ess" and "mux_packetSize m = 188" and "tables_current m pcr cs ess"
  shows "\<exists>v a. fits 5 v \<and> wc_inv a \<and> wrapAt a = 31 \<and>
    (if int (length (mux_pmtBytes m)) \<noteq> mux_packetSize m then generatePMT W m else (None, m)) =
    (None, m\<lparr>mux_pmtVersion := a, mux_pmtBytes := table_wire pmtStartPID (pmtTable pcr cs ess v)\<rparr>)"
proof (cases "length (mux_pmtBytes m) = 188")
  case True
  with assms show ?thesis
    by (auto simp: tables_current_def wf_program_def intro!: exI[of _ "mux_pmtVersion m"])
next
  case False
  then have "int (length (mux_pmtBytes m)) \<noteq> mux_packetSize m" using assms(2) by simp
  moreover have "wc_inv (snd (wc_get (mux_pmtVersion m)))" "wrapAt (snd (wc_get (mux_pmtVersion m))) = 31"
    using assms(1) by (simp_all add: wf_program_def wc_inv_get)
  moreover obtain v where "fits 5 v" "generatePMT W m =
      (None, m\<lparr>mux_pmtVersion := snd (wc_get (mux_pmtVersion m)), mux_pmtBytes := table_wire pmtStartPID (pmtTable pcr cs ess v)\<rparr>)"
    using generatePMT_ok[OF assms(1,2)] by blast
  ultimately show ?thesis by (intro exI[of _ v] exI[of _ "snd (wc_get (mux_pmtVersion m))"]) simp
qed

lemma WriteTables_ok:
  assumes "map_range rng" and "mux_ok view m" and "wf_program m pcr cs ess" and "tables_current m pcr cs ess"
  shows "\<exists>v v' m'. fits 5 v \<and> fits 5 v' \<and> WriteTables W rng m = ((376, None), m') \<and>
    bw_Bytes W (mux_w m') = bw_Bytes W (mux_w m) @ table_wire PIDPAT (patTable v) @ table_wire pmtStartPID (pmtTable pcr cs ess v') \<and>
    mux_patBytes m' = table_wire PIDPAT (patTable v) \<and> mux_pmtBytes m' = table_wire pmtStartPID (pmtTable pcr cs ess v') \<and>
    mux_ok view m' \<and> wf_program m' pcr cs ess \<and> tables_current m' pcr cs ess \<and> with_tables m m'"
proof -
  have size: "mux_packetSize m = 188" using assms(2) by (simp add: mux_ok_def)
  from ensurePAT[OF assms(1,3) size assms(4)] obtain v a where v: "fits 5 v" "wc_inv a" "wrapAt a = 31"
    and pat: "(if int (length (mux_patBytes m)) \<noteq> mux_packetSize m then generatePAT W rng m else (None, m)) =
      (None, m\<lparr>mux_patVersion := a, mux_patBytes := table_wire PIDPAT (patTable v)\<rparr>)" by blast
  let ?m1 = "m\<lparr>mux_patVersion := a, mux_patBytes := table_wire PIDPAT (patTable v)\<rparr>"
  have m1: "wf_program ?m1 pcr cs ess" "mux_packetSize ?m1 = 188" "tables_current ?m1 pcr cs ess"
    using assms(3,4) v size by (auto simp: wf_program_def tables_current_def)
  from ensurePMT[OF m1] obtain v' b where v': "fits 5 v'" "wc_inv b" "wrapAt b = 31"
    and pmt: "(if int (length (mux_pmtBytes ?m1)) \<noteq> mux_packetSize ?m1 then generatePMT W ?m1 else (None, ?m1)) =
      (None, ?m1\<lparr>mux_pmtVersion := b, mux_pmtBytes := table_wire pmtStartPID (pmtTable pcr cs ess v')\<rparr>)" by blast
  let ?m2 = "?m1\<lparr>mux_pmtVersion := b, mux_pmtBytes := table_wire pmtStartPID (pmtTable pcr cs ess v')\<rparr>"
  have m2: "mux_ok view ?m2" "wf_program ?m2 pcr cs ess" "tables_current ?m2 pcr cs ess"
    using assms(2) m1 v v' by (auto simp: mux_ok_def wf_program_def tables_current_def)
  from writeDirect_ok[OF m2(1), of "mux_patBytes ?m2"] obtain w where w: "writeDirect W (mux_patBytes ?m2) ?m2 = (None, ?m2\<lparr>mux_w := w\<rparr>)"
    "view w = (view (mux_w m))\<lparr>vw_bytes := vw_bytes (view (mux_w m)) @ mux_patBytes ?m2\<rparr>" by auto
  have m3: "mux_ok view (?m2\<lparr>mux_w := w\<rparr>)" using m2(1) w(2) by (simp add: mux_ok_def clean_def)
  from writeDirect_ok[OF this, of "mux_pmtBytes ?m2"] obtain w' where
    w': "writeDirect W (mux_pmtBytes ?m2) (?m2\<lparr>mux_w := w\<rparr>) = (None, ?m2\<lparr>mux_w := w'\<rparr>)"
    "view w' = (view w)\<lparr>vw_bytes := vw_bytes (view w) @ mux_pmtBytes ?m2\<rparr>" by auto
  let ?m' = "?m2\<lparr>mux_w := w'\<rparr>"
  have len: "length (table_wire PIDPAT (patTable v)) = 188" "length (table_wire pmtStartPID (pmtTable pcr cs ess v')) = 188"
    using length_table_wire fits_patTable[OF v(1)] fits_pmtTable[OF assms(3) v'(1)] by blast+
  have "WriteTables W rng m = ((376, None), ?m')"
    unfolding WriteTables_def pat using pmt w(1) w'(1) len by simp
  moreover have "mux_ok view ?m'" "wf_program ?m' pcr cs ess" "tables_current ?m' pcr cs ess"
    using m2 m3 w'(2) by (simp_all add: mux_ok_def clean_def wf_program_def tables_current_def)
  moreover have "with_tables m ?m'" unfolding with_tables_def
    by (intro exI[of _ w'] exI[of _ a] exI[of _ b] exI[of _ "mux_patBytes ?m2"] exI[of _ "mux_pmtBytes ?m2"]) simp
  moreover have "bw_Bytes W (mux_w ?m') = bw_Bytes W (mux_w m) @ table_wire PIDPAT (patTable v) @ table_wire pmtStartPID (pmtTable pcr cs ess v')"
    by (simp add: Bytes w'(2) w(2))
  ultimately show ?thesis using v v' by (intro exI[of _ v] exI[of _ v'] exI[of _ ?m']) simp
qed

end

section \<open>The data of the tables\<close>

text \<open>The data that the demuxer makes of the two packets.\<close>

definition pat_data :: "sectionSpec \<Rightarrow> DemuxerData" where
  "pat_data sp = (newDemuxerData (tablePacket PIDPAT (table_payload sp)) PIDPAT)\<lparr>dd_PAT := Some (pat_of 0 [program])\<rparr>"

definition pmt_data :: "uint16 \<Rightarrow> content list \<Rightarrow> stream list \<Rightarrow> sectionSpec \<Rightarrow> DemuxerData" where
  "pmt_data pcr cs ess sp = (newDemuxerData (tablePacket pmtStartPID (table_payload sp)) pmtStartPID)\<lparr>
     dd_PMT := Some (pmt_of programNumberStart pcr cs ess)\<rparr>"

lemma toData_padding: "sectionsToData p pid (padding k) = Some []"
  by (simp add: padding_def paddingSection_def sectionToData_def Let_def table_ids)

lemma parseData_table:
  assumes "bytes_iterator I" and "fits_packet sp" and "isPSIPayload pid pm" and "pid \<noteq> PIDCAT"
    and "sectionToData (tablePacket pid (table_payload sp)) pid (section_of (settled sp)) = Some [d]"
  shows "parseData I [tablePacket pid (table_payload sp)] None pm = Some (Inr [d])"
proof -
  let ?p = "tablePacket pid (table_payload sp)"
  have p: "p_Payload ?p = table_payload sp" "ph_PID (p_Header ?p) = pid" by (simp_all add: tablePacket_def)
  have "parseBytes I (parsePSIData I) (table_payload sp) =
    Some (Inr \<lparr>psi_PointerField = 0, psi_Sections = section_of (settled sp) # padding (171 - table_size (sp_Table sp))\<rparr>)"
    by (rule bytes_iterator.parseBytes_transfer[OF assms(1) bytes_iterator.sim_parsePSIData[OF assms(1)] parse_table_payload[OF assms(2)]]) simp
  then show ?thesis
    using assms(3-5) by (simp add: parseData_def parseUnit_def p toData_def toData_padding)
qed

lemma parseData_pat:
  assumes "bytes_iterator I" and "fits 5 v"
  shows "parseData I [tablePacket PIDPAT (table_payload (patTable v))] None pm = Some (Inr [pat_data (patTable v)])"
  by (rule parseData_table[OF assms(1) fits_patTable[OF assms(2)]])
    (simp_all add: isPSIPayload_def PIDPAT_def PIDCAT_def sectionToData_def section_of_def settled_def patTable_def muxTable_def Let_def
      table_ids emptyPSISectionSyntaxData_def pat_data_def)

lemma parseData_pmt:
  assumes "bytes_iterator I" and "fits_packet (pmtTable pcr cs ess v)" and "pm_exists pm pmtStartPID"
  shows "parseData I [tablePacket pmtStartPID (table_payload (pmtTable pcr cs ess v))] None pm = Some (Inr [pmt_data pcr cs ess (pmtTable pcr cs ess v)])"
  by (rule parseData_table[OF assms(1,2)])
    (use assms(3) in \<open>simp_all add: isPSIPayload_def PIDCAT_def pmtStartPID_def sectionToData_def section_of_def settled_def pmtTable_def muxTable_def
      Let_def table_ids emptyPSISectionSyntaxData_def pmt_data_def\<close>)

section \<open>Tables sent again\<close>

text \<open>All packets of tables have the continuity counter 0, so that each breaks the sequence of the one before.\<close>

lemma adds_tablePackets:
  assumes "\<forall>p\<in>set ps. \<exists>pid bs. p = tablePacket pid bs" and "\<forall>pid. pool_buffer b pid = [] \<or> (\<exists>bs. pool_buffer b pid = [tablePacket pid bs])"
  shows "\<exists>b'. adds pool_add b ps = Some ([], b')"
  using assms
proof (induction ps arbitrary: b)
  case (Cons p ps)
  then obtain pid bs where p: "p = tablePacket pid bs" by auto
  have fields: "has_field p" "pkt_PID p = pid" "pkt_CC p = 0" "pkt_start p" "ph_HasPayload (p_Header p)"
    "\<not> ph_TransportErrorIndicator (p_Header p)" "\<not> ph_HasAdaptationField (p_Header p)"
    by (simp_all add: p tablePacket_def has_field_def)
  have "breaks [tablePacket pid x] p" for x
  proof -
    have "pkt_CC p = pkt_CC (last [tablePacket pid x])" by (simp add: p tablePacket_def)
    then show ?thesis unfolding breaks_def using cc_next_neq[of "pkt_CC (last [tablePacket pid x])"] by (intro disjI2 conjI) auto
  qed
  then have asm: "assemble (pool_buffer b pid) p = ([], [p])"
    using Cons.prems(2)[rule_format, of pid] fields by (auto simp: assemble_def)
  from pool_add_assemble[OF fields(1), of b] fields(2) asm obtain b1 where
    b1: "pool_add b p = Some ([], b1)" "pool_buffer b1 = (pool_buffer b)(pid := [p])" by auto
  have "\<forall>k. pool_buffer b1 k = [] \<or> (\<exists>bs. pool_buffer b1 k = [tablePacket k bs])" using Cons.prems(2) p by (auto simp: b1(2))
  with Cons.IH[of b1] Cons.prems(1) b1(1) show ?case by auto
qed simp

primrec writeTablesTimes :: "'w BitsWriter \<Rightarrow> (uint16 set \<Rightarrow> uint16 list) \<Rightarrow> nat \<Rightarrow> 'w Muxer \<Rightarrow> (int \<times> error option) list \<times> 'w Muxer" where
  "writeTablesTimes W rng 0 m = ([], m)"
| "writeTablesTimes W rng (Suc k) m =
     (case WriteTables W rng m of (r, m) \<Rightarrow> case writeTablesTimes W rng k m of (rs, m) \<Rightarrow> (r # rs, m))"

context bits_writer
begin

lemma writeTablesTimes_ok:
  assumes "map_range rng" and "mux_ok view m" and "wf_program m pcr cs ess" and "tables_current m pcr cs ess"
  shows "\<exists>m' ts. writeTablesTimes W rng k m = (replicate k (376, None), m') \<and> length ts = 2 * k \<and>
    bw_Bytes W (mux_w m') = bw_Bytes W (mux_w m) @ concat (map (\<lambda>(pid, sp). table_wire pid sp) ts) \<and>
    (\<forall>(pid, sp)\<in>set ts. fits_packet sp \<and> fits 13 pid)"
  using assms(2-4)
proof (induction k arbitrary: m)
  case (Suc k)
  from WriteTables_ok[OF assms(1) Suc.prems] obtain v v' m1 where v: "fits 5 v" "fits 5 v'" and
    m1: "WriteTables W rng m = ((376, None), m1)"
    "bw_Bytes W (mux_w m1) = bw_Bytes W (mux_w m) @ table_wire PIDPAT (patTable v) @ table_wire pmtStartPID (pmtTable pcr cs ess v')"
    "mux_ok view m1" "wf_program m1 pcr cs ess" "tables_current m1 pcr cs ess" by blast
  from Suc.IH[OF m1(3-5)] obtain m' ts where m': "writeTablesTimes W rng k m1 = (replicate k (376, None), m')" "length ts = 2 * k"
    "bw_Bytes W (mux_w m') = bw_Bytes W (mux_w m1) @ concat (map (\<lambda>(pid, sp). table_wire pid sp) ts)"
    "\<forall>(pid, sp)\<in>set ts. fits_packet sp \<and> fits 13 pid" by blast
  have "fits 13 PIDPAT" "fits 13 pmtStartPID" by (simp_all add: fits_def PIDPAT_def pmtStartPID_def)
  with m' m1 fits_patTable[OF v(1)] fits_pmtTable[OF Suc.prems(2) v(2)] show ?case
    by (intro exI[of _ m'] exI[of _ "(PIDPAT, patTable v) # (pmtStartPID, pmtTable pcr cs ess v') # ts"]) simp
qed (auto intro: exI[of _ "[]"])

end

section \<open>Properties\<close>



section \<open>Witnesses\<close>

definition sampleProgram :: "wview Muxer" where
  "sampleProgram = SetPCRPID (snd (AddElementaryStream (NewMuxer refWriter (bw_New refWriter) []) sampleStream)) 0x100"

lemma sampleProgram:
  "mux_ok (\<lambda>v. v) sampleProgram" "wf_program sampleProgram 0x100 [] [(StreamTypeH264Video, 0x100, [])]"
  "tables_current sampleProgram 0x100 [] [(StreamTypeH264Video, 0x100, [])]"
  by (simp_all add: sampleProgram_def SetPCRPID_def AddElementaryStream_def NewMuxer_def sampleStream_def mux_ok_def refWriter_def clean_def
      MpegTsPacketSize_def wf_program_def tables_current_def pmt_of_def newWrappingCounter_def wc_inv_def fits_def)



end
