(* ===== verification/Mux_Demux.thy ===== *)
theory Mux_Demux
  imports Muxer_Tables
begin

text \<open>
  The muxer and the demuxer together: the packets of a sequence of calls of
  \<^verbatim>\<open>WriteData\<close>, the units that the packet pool makes of them, and their data.
\<close>

section \<open>Writing data in sequence\<close>

primrec writeDatas :: "'w BitsWriter \<Rightarrow> (uint16 set \<Rightarrow> uint16 list) \<Rightarrow> MuxerData list \<Rightarrow> 'w Muxer \<Rightarrow>
    ((int \<times> error option) list \<times> 'w Muxer) option" where
  "writeDatas W rng [] m = Some ([], m)"
| "writeDatas W rng (d # ds) m = (case WriteData W rng m d of
      None \<Rightarrow> None
    | Some (r, m, _) \<Rightarrow> map_option (\<lambda>(rs, m). (r # rs, m)) (writeDatas W rng ds m))"

text \<open>The packets of the calls; \<open>f\<close> gives the context of each stream, whose counter goes on.\<close>

definition bump :: "nat \<Rightarrow> esContext \<Rightarrow> esContext" where
  "bump n ctx = ctx\<lparr>ec_cc := (ec_cc ctx)\<lparr>wc_value := (wc_value (ec_cc ctx) + int n) mod 16\<rparr>\<rparr>"

primrec muxed_seq :: "(uint16 \<Rightarrow> esContext) \<Rightarrow> MuxerData list \<Rightarrow> Packet list list" where
  "muxed_seq f [] = []"
| "muxed_seq f (d # ds) = (let ps = muxed_packets (f (md_PID d)) d
     in ps # muxed_seq (f(md_PID d := bump (length ps) (f (md_PID d)))) ds)"

definition ready :: "'w Muxer \<Rightarrow> (uint16 \<Rightarrow> esContext) \<Rightarrow> MuxerData list \<Rightarrow> bool" where
  "ready m f ds \<longleftrightarrow> (\<forall>d\<in>set ds. Mapping.lookup (mux_esContexts m) (md_PID d) = Some (f (md_PID d)) \<and> wf_ctx (f (md_PID d)) \<and>
     wf_data (f (md_PID d)) d \<and>
     (\<forall>af. md_AdaptationField d = Some af \<longrightarrow> \<not> (af_RandomAccessIndicator af \<and> md_PID d = pmt_PCRPID (mux_pmt m))))"

lemma setStreamID_bump [simp]: "setStreamID (bump n ctx) d = setStreamID ctx d"
  by (simp add: setStreamID_def bump_def Let_def)

lemma wf_ctx_bump: "wf_ctx ctx \<Longrightarrow> wf_ctx (bump n ctx)"
  by (simp add: wf_ctx_def bump_def wc_inv_def)

lemma wf_data_bump [simp]: "wf_data (bump n ctx) d = wf_data ctx d"
  by (simp add: wf_data_def)

lemma advanced_facts:
  assumes "advanced pid ctx n m m'"
  shows "Mapping.lookup (mux_esContexts m') q = (if q = pid then Some (bump n ctx) else Mapping.lookup (mux_esContexts m) q)"
    and "mux_pmt m' = mux_pmt m" and "mux_tablesRetransmitCounter m' = mux_tablesRetransmitCounter m"
    and "mux_tablesRetransmitPeriod m' = mux_tablesRetransmitPeriod m"
  using assms by (auto simp: advanced_def bump_def)

lemma ready_next:
  assumes "ready m f (d # ds)" and "advanced (md_PID d) (f (md_PID d)) n m1 m'"
    and "mux_esContexts m1 = mux_esContexts m" and "mux_pmt m1 = mux_pmt m"
  shows "ready m' (f(md_PID d := bump n (f (md_PID d)))) ds"
  using assms(1) unfolding ready_def advanced_facts(1,2)[OF assms(2)] assms(3,4) by (auto simp: wf_ctx_bump)

context bits_writer
begin

lemma WriteData_run:
  assumes ok: "mux_ok view m1" and ctx: "Mapping.lookup (mux_esContexts m) (md_PID d) = Some ctx" "wf_ctx ctx" and d: "wf_data ctx d"
    and tables: "retransmitTables W rng (case md_AdaptationField d of None \<Rightarrow> False | Some af \<Rightarrow>
      af_RandomAccessIndicator af \<and> md_PID d = pmt_PCRPID (mux_pmt m)) m = ((n, None), m1)"
  defines "pkts \<equiv> muxed_packets ctx d"
  shows "\<exists>m'. WriteData W rng m d = Some ((n + 188 * int (length pkts), None), m', setStuffing 0 (setStreamID ctx d)) \<and>
    bw_Bytes W (mux_w m') = bw_Bytes W (mux_w m1) @ concat (map packet_wire pkts) \<and> mux_ok view m' \<and>
    advanced (md_PID d) ctx (length pkts) m1 m'"
proof -
  from loop_data[OF ok, where ctx = ctx and md = d and n = n, OF _ _ refl _ refl _ _ refl] ctx(2) d obtain m' where
    m': "goLoop (\<lambda>s. Some (writeDataTurn W s)) \<lparr>ws_m = m1, ws_ctx = ctx, ws_d = d, ws_payloadStart = True,
      ws_writeAf = md_AdaptationField d \<noteq> None, ws_payloadBytesWritten = 0, ws_bytesWritten = n\<rparr> =
      Some ((n + 188 * int (length pkts), None), m', setStuffing 0 (setStreamID ctx d))"
    "view (mux_w m') = feed (bytes_to_bits (concat (map packet_wire pkts))) (view (mux_w m1))"
    "mux_ok view m'" "advanced (md_PID d) ctx (length pkts) m1 m'"
    by (auto simp: wf_ctx_def wf_data_def pkts_def muxed_packets_def)
  have "bw_Bytes W (mux_w m') = bw_Bytes W (mux_w m1) @ concat (map packet_wire pkts)"
    using ok by (simp add: Bytes m'(2) feed_def mux_ok_def clean_def)
  moreover have "WriteData W rng m d = Some ((n + 188 * int (length pkts), None), m', setStuffing 0 (setStreamID ctx d))"
    using m'(1) ctx(1) tables by (simp add: WriteData_def)
  ultimately show ?thesis using m'(3,4) by blast
qed

lemma writeDatas_ok:
  assumes "mux_ok view m" and "ready m f ds" and "mux_tablesRetransmitCounter m + int (length ds) < mux_tablesRetransmitPeriod m"
  shows "\<exists>rs m'. writeDatas W rng ds m = Some (rs, m') \<and> (\<forall>r\<in>set rs. snd r = None) \<and>
    bw_Bytes W (mux_w m') = bw_Bytes W (mux_w m) @ concat (map packet_wire (concat (muxed_seq f ds)))"
  using assms
proof (induction ds arbitrary: m f)
  case (Cons d ds)
  let ?ctx = "f (md_PID d)" and ?m1 = "m\<lparr>mux_tablesRetransmitCounter := mux_tablesRetransmitCounter m + 1\<rparr>"
  have d: "Mapping.lookup (mux_esContexts m) (md_PID d) = Some ?ctx" "wf_ctx ?ctx" "wf_data ?ctx d" and due: "tables_not_due m d"
    using Cons.prems(2,3) by (auto simp: ready_def tables_not_due_def)
  have "mux_ok view ?m1" using Cons.prems(1) by (simp add: mux_ok_def)
  from WriteData_run[OF this d retransmitTables_not_due[OF due]] obtain m' where
    m': "WriteData W rng m d = Some ((188 * int (length (muxed_packets ?ctx d)), None), m', setStuffing 0 (setStreamID ?ctx d))"
    "bw_Bytes W (mux_w m') = bw_Bytes W (mux_w m) @ concat (map packet_wire (muxed_packets ?ctx d))" "mux_ok view m'"
    and adv: "advanced (md_PID d) ?ctx (length (muxed_packets ?ctx d)) ?m1 m'" by auto
  have "mux_tablesRetransmitCounter m' + int (length ds) < mux_tablesRetransmitPeriod m'"
    using Cons.prems(3) by (simp add: advanced_facts(3,4)[OF adv])
  moreover have "ready m' (f(md_PID d := bump (length (muxed_packets ?ctx d)) ?ctx)) ds"
    by (rule ready_next[OF Cons.prems(2) adv]) simp_all
  ultimately obtain rs m'' where "writeDatas W rng ds m' = Some (rs, m'')" "\<forall>r\<in>set rs. snd r = None"
    "bw_Bytes W (mux_w m'') = bw_Bytes W (mux_w m') @ concat (map packet_wire (concat (muxed_seq (f(md_PID d := bump (length (muxed_packets ?ctx d)) ?ctx)) ds)))"
    using Cons.IH[OF m'(3)] by blast
  with m'(1,2) show ?case by (simp add: Let_def)
qed simp

text \<open>The same when the first call finds the tables due.\<close>

lemma writeDatas_due:
  assumes "map_range rng" and "mux_ok view m" and "wf_program m pcr cs ess" and "tables_current m pcr cs ess"
    and "ready m f ds" and "ds \<noteq> []" and "mux_tablesRetransmitPeriod m \<le> mux_tablesRetransmitCounter m + 1"
    and "int (length ds) \<le> mux_tablesRetransmitPeriod m"
  shows "\<exists>rs m' v v'. writeDatas W rng ds m = Some (rs, m') \<and> (\<forall>r\<in>set rs. snd r = None) \<and> fits 5 v \<and> fits 5 v' \<and>
    bw_Bytes W (mux_w m') = bw_Bytes W (mux_w m) @ table_wire PIDPAT (patTable v) @ table_wire pmtStartPID (pmtTable pcr cs ess v') @
      concat (map packet_wire (concat (muxed_seq f ds)))"
proof -
  from assms(6) obtain d ds' where ds: "ds = d # ds'" by (cases ds) auto
  let ?ctx = "f (md_PID d)" and ?m0 = "m\<lparr>mux_tablesRetransmitCounter := mux_tablesRetransmitCounter m + 1\<rparr>"
  have d: "Mapping.lookup (mux_esContexts m) (md_PID d) = Some ?ctx" "wf_ctx ?ctx" "wf_data ?ctx d"
    using assms(5) by (auto simp: ready_def ds)
  have m0: "mux_ok view ?m0" "wf_program ?m0 pcr cs ess" "tables_current ?m0 pcr cs ess"
    using assms(2-4) by (simp_all add: mux_ok_def wf_program_def tables_current_def)
  from WriteTables_ok[OF assms(1) m0] obtain v v' m1 where v: "fits 5 v" "fits 5 v'" and
    m1: "WriteTables W rng ?m0 = ((376, None), m1)"
    "bw_Bytes W (mux_w m1) = bw_Bytes W (mux_w m) @ table_wire PIDPAT (patTable v) @ table_wire pmtStartPID (pmtTable pcr cs ess v')"
    "mux_ok view m1" "with_tables ?m0 m1" by auto
  let ?m2 = "m1\<lparr>mux_tablesRetransmitCounter := 0\<rparr>"
  have m2: "mux_ok view ?m2" "mux_esContexts ?m2 = mux_esContexts m" "mux_pmt ?m2 = mux_pmt m"
    "mux_tablesRetransmitPeriod ?m2 = mux_tablesRetransmitPeriod m"
    using m1(3,4) by (auto simp: mux_ok_def with_tables_def)
  have "retransmitTables W rng force m = ((376, None), ?m2)" for force
    using m1(1) assms(7) by (simp add: retransmitTables_def)
  from WriteData_run[OF m2(1) d this] obtain m3 where
    m3: "WriteData W rng m d = Some ((376 + 188 * int (length (muxed_packets ?ctx d)), None), m3, setStuffing 0 (setStreamID ?ctx d))"
    "bw_Bytes W (mux_w m3) = bw_Bytes W (mux_w m1) @ concat (map packet_wire (muxed_packets ?ctx d))" "mux_ok view m3"
    and adv: "advanced (md_PID d) ?ctx (length (muxed_packets ?ctx d)) ?m2 m3" by auto
  have "mux_tablesRetransmitCounter m3 + int (length ds') < mux_tablesRetransmitPeriod m3"
    using assms(8) m2(4) by (simp add: advanced_facts(3,4)[OF adv] ds)
  from writeDatas_ok[OF m3(3) ready_next[OF assms(5)[unfolded ds] adv m2(2,3)] this, of rng] obtain rs m' where
    "writeDatas W rng ds' m3 = Some (rs, m')" "\<forall>r\<in>set rs. snd r = None"
    "bw_Bytes W (mux_w m') = bw_Bytes W (mux_w m3) @ concat (map packet_wire (concat (muxed_seq (f(md_PID d := bump (length (muxed_packets ?ctx d)) ?ctx)) ds')))"
    by blast
  with m3(1,2) m1(2) v show ?thesis by (intro exI[of _ "(376 + 188 * int (length (muxed_packets ?ctx d)), None) # rs"] exI[of _ m'] exI[of _ v] exI[of _ v'])
    (simp add: ds Let_def)
qed

end

section \<open>The packets of a stream\<close>

text \<open>The packets of one PID, as they are parsed: one block for each of its data.\<close>

primrec stream_blocks :: "uint16 \<Rightarrow> (uint16 \<Rightarrow> esContext) \<Rightarrow> MuxerData list \<Rightarrow> Packet list list" where
  "stream_blocks pid f [] = []"
| "stream_blocks pid f (d # ds) = (let ps = muxed_packets (f (md_PID d)) d;
       rest = stream_blocks pid (f(md_PID d := bump (length ps) (f (md_PID d)))) ds
     in if md_PID d = pid then map packet_parsed ps # rest else rest)"

text \<open>Continuity counters that count on from \<open>c\<close>.\<close>

definition counted :: "nat \<Rightarrow> Packet list \<Rightarrow> bool" where
  "counted c ps \<longleftrightarrow> (\<forall>i<length ps. pkt_CC (ps ! i) = word_of_nat ((c + i) mod 16))"

lemma counted_append: "counted c (xs @ ys) \<longleftrightarrow> counted c xs \<and> counted (c + length xs) ys"
proof
  assume *: "counted c (xs @ ys)"
  show "counted c xs \<and> counted (c + length xs) ys"
    unfolding counted_def
  proof (intro conjI allI impI)
    fix i assume "i < length xs"
    then show "pkt_CC (xs ! i) = word_of_nat ((c + i) mod 16)" using *[unfolded counted_def, rule_format, of i] by (simp add: nth_append)
  next
    fix i assume "i < length ys"
    then show "pkt_CC (ys ! i) = word_of_nat ((c + length xs + i) mod 16)"
      using *[unfolded counted_def, rule_format, of "length xs + i"] by (simp add: nth_append add.assoc)
  qed
next
  assume *: "counted c xs \<and> counted (c + length xs) ys"
  show "counted c (xs @ ys)"
    unfolding counted_def
  proof (intro allI impI)
    fix i assume "i < length (xs @ ys)"
    then show "pkt_CC ((xs @ ys) ! i) = word_of_nat ((c + i) mod 16)"
      using conjunct1[OF *, unfolded counted_def, rule_format, of i] conjunct2[OF *, unfolded counted_def, rule_format, of "i - length xs"]
      by (cases "i < length xs") (simp_all add: nth_append)
  qed
qed

lemma counted_mod: "counted (c mod 16) ps = counted c ps"
  by (simp add: counted_def mod_simps)

lemma word_next_mod: "(word_of_nat ((c + 1) mod 16) :: uint8) = (word_of_nat (c mod 16) + 1) mod 16"
proof -
  have "\<forall>k\<in>set [0..<16]. (word_of_nat ((k + 1) mod 16) :: uint8) = (word_of_nat k + 1) mod 16" by code_simp
  then have "(word_of_nat ((c mod 16 + 1) mod 16) :: uint8) = (word_of_nat (c mod 16) + 1) mod 16" by simp
  then show ?thesis by (simp add: mod_simps)
qed

lemma counted_follows: "counted c ps \<Longrightarrow> successively cc_follows ps"
proof (induction ps arbitrary: c rule: induct_list012)
  case (3 p q ps)
  from counted_append[of c "[p]" "q # ps"] 3(3) have rest: "counted (c + 1) (q # ps)" by simp
  have "pkt_CC p = word_of_nat (c mod 16)" "pkt_CC q = word_of_nat ((c + 1) mod 16)"
    using 3(3)[unfolded counted_def, rule_format, of 0] 3(3)[unfolded counted_def, rule_format, of 1] by simp_all
  with 3(2)[OF rest] word_next_mod[of c] show ?case by (simp add: cc_follows_def)
qed simp_all

text \<open>A block is a unit of its PID, with counters from that of the stream on.\<close>

definition steady_field :: "MuxerData \<Rightarrow> bool" where
  "steady_field d \<longleftrightarrow> (\<forall>af. md_AdaptationField d = Some af \<longrightarrow> \<not> af_DiscontinuityIndicator af)"

lemma rest_packets_field: "p \<in> set (rest_packets pid c bs) \<Longrightarrow> \<exists>cc start x. p = data_packet pid cc None start x"
proof (induction pid c bs rule: rest_packets.induct)
  case (1 pid c bs)
  then show ?case by (subst (asm) (2) rest_packets.simps) (auto split: if_splits)
qed

lemma muxed_packets_field:
  assumes "p \<in> set (muxed_packets ctx d)"
  obtains cc start x af where "p = data_packet (md_PID d) cc af start x" "af = None \<or> af = md_AdaptationField d"
proof -
  from assms have "(\<exists>cc start x. p = data_packet (md_PID d) cc (md_AdaptationField d) start x) \<or> (\<exists>cc start x. p = data_packet (md_PID d) cc None start x)"
    by (auto simp: muxed_packets_def data_packets_def dest: rest_packets_field split: if_splits)
  then show thesis using that by blast
qed

lemma not_breaks_parsed:
  assumes "p \<in> set (muxed_packets ctx d)" and "steady_field d"
  shows "\<not> breaks [] (packet_parsed p)" and "has_field (packet_parsed p)"
proof -
  from assms(1) obtain cc start x af where p: "p = data_packet (md_PID d) cc af start x" "af = None \<or> af = md_AdaptationField d"
    by (rule muxed_packets_field)
  have "\<not> af_DiscontinuityIndicator (af_parsed a)" if "stuffed af n = Some a" for n a
    using that p(2) assms(2)
    by (auto simp: stuffed_def af_parsed_def steady_field_def newStuffingAdaptationField_def zeroAdaptationField_def split: if_splits option.splits)
  then show "\<not> breaks [] (packet_parsed p)" "has_field (packet_parsed p)"
    by (auto simp: breaks_def has_field_def packet_parsed_def p(1) p_data_packet)
qed

lemma muxed_packets_unit:
  assumes "wf_ctx ctx" and "wf_data ctx d"
  shows "unit_of (md_PID d) (map packet_parsed (muxed_packets ctx d))"
    and "counted (nat (wc_value (ec_cc ctx))) (map packet_parsed (muxed_packets ctx d))"
proof -
  let ?ps = "map packet_parsed (muxed_packets ctx d)" and ?c = "nat (wc_value (ec_cc ctx))"
  have header: "p_Header (packet_parsed p) = p_Header p" for p by (simp add: packet_parsed_def)
  note facts = cut_packet_facts(2-6)[OF muxed_packets_cut[OF assms]]
  show count: "counted ?c ?ps" using facts(2) by (simp add: counted_def header)
  have ne: "muxed_packets ctx d \<noteq> []" using assms(2) by (simp add: muxed_packets_def data_packets_def wf_data_def)
  then have "pkt_start (hd ?ps)" using facts(3)[of 0] by (simp add: hd_conv_nth header)
  moreover have "\<not> pkt_start p" if "p \<in> set (tl ?ps)" for p
  proof -
    from that obtain i where "i < length (tl ?ps)" "p = tl ?ps ! i" by (auto simp: in_set_conv_nth)
    then show ?thesis using facts(3)[of "Suc i"] by (simp add: nth_tl header)
  qed
  moreover have "pkt_PID p = md_PID d \<and> ph_HasPayload (p_Header p) \<and> \<not> ph_TransportErrorIndicator (p_Header p)" if "p \<in> set ?ps" for p
  proof -
    from that obtain i where "i < length (muxed_packets ctx d)" "p = packet_parsed (muxed_packets ctx d ! i)" by (auto simp: in_set_conv_nth)
    with facts(1,4,5)[of i] show ?thesis by (simp add: header)
  qed
  ultimately show "unit_of (md_PID d) ?ps" using ne counted_follows[OF count] by (simp add: unit_of_def)
qed

text \<open>The contexts and data are as the muxer needs them.\<close>

definition streams_ok :: "(uint16 \<Rightarrow> esContext) \<Rightarrow> MuxerData list \<Rightarrow> bool" where
  "streams_ok f ds \<longleftrightarrow> (\<forall>d\<in>set ds. wf_ctx (f (md_PID d)) \<and> wf_data (f (md_PID d)) d \<and> steady_field d)"

lemma streams_ok_next: "streams_ok f (d # ds) \<Longrightarrow> streams_ok (f(md_PID d := bump n (f (md_PID d)))) ds"
  by (auto simp: streams_ok_def wf_ctx_bump)

lemma nat_bump: "wf_ctx ctx \<Longrightarrow> nat (wc_value (ec_cc (bump n ctx))) = (nat (wc_value (ec_cc ctx)) + n) mod 16"
  by (simp add: bump_def wf_ctx_def wc_inv_def nat_mod_distrib nat_add_distrib)

lemma stream_blocks_ok:
  assumes "streams_ok f ds"
  shows "\<forall>u\<in>set (stream_blocks pid f ds). unit_of pid u"
    and "counted (nat (wc_value (ec_cc (f pid)))) (concat (stream_blocks pid f ds))"
    and "filter (\<lambda>p. pkt_PID p = pid) (map packet_parsed (concat (muxed_seq f ds))) = concat (stream_blocks pid f ds)"
    and "\<forall>p\<in>set (map packet_parsed (concat (muxed_seq f ds))). \<not> breaks [] p \<and> has_field p"
proof -
  have "(\<forall>u\<in>set (stream_blocks pid f ds). unit_of pid u) \<and>
    counted (nat (wc_value (ec_cc (f pid)))) (concat (stream_blocks pid f ds)) \<and>
    filter (\<lambda>p. pkt_PID p = pid) (map packet_parsed (concat (muxed_seq f ds))) = concat (stream_blocks pid f ds) \<and>
    (\<forall>p\<in>set (map packet_parsed (concat (muxed_seq f ds))). \<not> breaks [] p \<and> has_field p)"
    using assms
  proof (induction ds arbitrary: f)
    case Nil
    show ?case by (simp add: counted_def)
  next
    case (Cons d ds)
    let ?ctx = "f (md_PID d)" and ?ps = "muxed_packets (f (md_PID d)) d"
    define g where g: "g = f(md_PID d := bump (length ?ps) ?ctx)"
    from Cons.prems have d: "wf_ctx ?ctx" "wf_data ?ctx d" "steady_field d" by (simp_all add: streams_ok_def)
    note IH = Cons.IH[of g, OF streams_ok_next[OF Cons.prems, of "length ?ps", folded g]]
    note u = muxed_packets_unit[OF d(1,2)]
    have blocks: "stream_blocks pid f (d # ds) = (if md_PID d = pid then map packet_parsed ?ps # stream_blocks pid g ds else stream_blocks pid g ds)"
      "muxed_seq f (d # ds) = ?ps # muxed_seq g ds" by (simp_all add: g Let_def)
    have filt: "filter (\<lambda>p. pkt_PID p = pid) (map packet_parsed ?ps) = (if md_PID d = pid then map packet_parsed ?ps else [])"
      using u(1) by (auto simp: unit_of_def intro!: filter_True filter_False)
    have safe: "\<forall>p\<in>set ?ps. \<not> breaks [] (packet_parsed p) \<and> has_field (packet_parsed p)" using not_breaks_parsed d(3) by blast
    show ?case
    proof (cases "md_PID d = pid")
      case True
      then have "nat (wc_value (ec_cc (g pid))) = (nat (wc_value (ec_cc (f pid))) + length ?ps) mod 16"
        using nat_bump[OF d(1), of "length ?ps"] by (simp add: g)
      then have "counted (nat (wc_value (ec_cc (f pid)))) (map packet_parsed ?ps @ concat (stream_blocks pid g ds))"
        using u(2) IH True by (simp add: counted_append counted_mod)
      with True IH u(1) filt safe show ?thesis unfolding blocks by auto
    next
      case False
      then have "g pid = f pid" by (simp add: g)
      with False IH filt safe show ?thesis unfolding blocks by auto
    qed
  qed
  then show "\<forall>u\<in>set (stream_blocks pid f ds). unit_of pid u"
    "counted (nat (wc_value (ec_cc (f pid)))) (concat (stream_blocks pid f ds))"
    "filter (\<lambda>p. pkt_PID p = pid) (map packet_parsed (concat (muxed_seq f ds))) = concat (stream_blocks pid f ds)"
    "\<forall>p\<in>set (map packet_parsed (concat (muxed_seq f ds))). \<not> breaks [] p \<and> has_field p" by blast+
qed

section \<open>The data of the units\<close>

text \<open>The PES packet that a demuxer gets: the caller's, with the stream identifier and the length filled in.\<close>

definition sent :: "esContext \<Rightarrow> MuxerData \<Rightarrow> PESData" where
  "sent ctx d = (let h = pes_Header (md_PES (setStreamID ctx d)); bs = pes_Data (md_PES d)
     in \<lparr>pes_Data = bs, pes_Header = h\<lparr>pes_PacketLength := word_of_int (pesPacketLength h (int (length bs)))\<rparr>\<rparr>)"

definition unit_pes :: "Packet list \<Rightarrow> PESData option" where
  "unit_pes u = (case parseBytes refIterator (parsePESData refIterator) (concat (map p_Payload u)) of Some (Inr pes) \<Rightarrow> Some pes | _ \<Rightarrow> None)"

text \<open>PIDs that carry PES packets: no tables, and not the PID of the program map table.\<close>

definition plain :: "uint16 \<Rightarrow> bool" where
  "plain pid \<longleftrightarrow> pid \<noteq> PIDCAT \<and> pid \<noteq> pmtStartPID \<and> \<not> isPSIPayload pid newProgramMap"

definition only_program :: "programMap \<Rightarrow> bool" where
  "only_program pm \<longleftrightarrow> (\<forall>k. pm_exists pm k \<longrightarrow> k = pmtStartPID)"

lemma plain_not_psi: "plain pid \<Longrightarrow> only_program pm \<Longrightarrow> \<not> isPSIPayload pid pm"
  by (auto simp: plain_def isPSIPayload_def only_program_def)

lemma sent_bump [simp]: "sent (bump n ctx) d = sent ctx d"
  by (simp add: sent_def)

lemma muxed_payload:
  "wf_data ctx d \<Longrightarrow> concat (map p_Payload (map packet_parsed (muxed_packets ctx d))) =
    pes_bytes (pes_Header (md_PES (setStreamID ctx d))) (pes_Data (md_PES d))"
  using muxed_packets_payload[of ctx d] by (simp add: packet_parsed_def o_def)

lemma parse_muxed:
  assumes "wf_data ctx d"
  shows "parseBytes refIterator (parsePESData refIterator) (concat (map p_Payload (map packet_parsed (muxed_packets ctx d)))) = Some (Inr (sent ctx d))"
  unfolding muxed_payload[OF assms] sent_def Let_def by (rule parsePESData_ref) (use assms in \<open>simp add: wf_data_def\<close>)

lemma isPESPayload_pes_bytes: "wf_pes h \<Longrightarrow> isPESPayload (pes_bytes h bs)"
  by (simp add: isPESPayload_def pes_bytes_eq)

lemma parseData_pes:
  assumes "bytes_iterator I" and "wf_ctx ctx" and "wf_data ctx d" and "plain (md_PID d)" and "only_program pm"
  defines "u \<equiv> map packet_parsed (muxed_packets ctx d)"
  shows "parseData I u None pm = Some (Inr [(newDemuxerData (hd u) (md_PID d))\<lparr>dd_PES := unit_pes u\<rparr>])"
proof -
  have "unit_of (md_PID d) u" unfolding u_def by (rule muxed_packets_unit[OF assms(2,3)])
  then have u: "u \<noteq> []" "pkt_PID (hd u) = md_PID d" by (auto simp: unit_of_def)
  have pes: "unit_pes u = Some (sent ctx d)" unfolding unit_pes_def u_def parse_muxed[OF assms(3)] by simp
  have "parseBytes I (parsePESData I) (concat (map p_Payload u)) = Some (Inr (sent ctx d))"
    unfolding u_def
    by (rule bytes_iterator.parseBytes_transfer[OF assms(1) bytes_iterator.sim_parsePESData[OF assms(1)] parse_muxed[OF assms(3)]]) simp
  moreover have "isPESPayload (concat (map p_Payload u))" unfolding u_def muxed_payload[OF assms(3)]
    by (rule isPESPayload_pes_bytes) (use assms(3) in \<open>simp add: wf_data_def\<close>)
  moreover have "md_PID d \<noteq> PIDCAT" using assms(4) by (simp add: plain_def)
  ultimately show ?thesis
    using plain_not_psi[OF assms(4,5)] u by (simp add: parseData_def parseUnit_def pes)
qed

text \<open>Units that each give one datum, none of them a program association table.\<close>

lemma demuxed_singles:
  assumes "\<forall>x\<in>set us. parseData I (snd x) None pm = Some (Inr [D x]) \<and> dd_PAT (D x) = None"
  shows "demuxed I None pm (map snd us @ vs) = map_option (\<lambda>ds. map D us @ ds) (demuxed I None pm vs)"
  using assms
proof (induction us)
  case (Cons x us)
  then have "updatePrograms [D x] pm = pm" by (simp add: updatePrograms_def)
  with Cons show ?case by (simp add: option.map_comp o_def)
next
  case Nil
  show ?case by (cases "demuxed I None pm vs") simp_all
qed

text \<open>The pool at the end, for each PID.\<close>

lemma units_for_map_of:
  "distinct (map fst us) \<Longrightarrow> units_for pid us = (case map_of us pid of None \<Rightarrow> [] | Some u \<Rightarrow> [u])"
proof (induction us)
  case (Cons x us)
  obtain k u where x: "x = (k, u)" by (cases x)
  have "units_for pid us = []" if "k = pid"
  proof -
    have "map_of us pid = None" using Cons.prems that x by (simp add: map_of_eq_None_iff)
    with Cons show ?thesis by simp
  qed
  with Cons x show ?case by simp
qed simp

lemma pending_for: "units_for pid (pool_pending b) = (if pool_buffer b pid = [] then [] else [pool_buffer b pid])"
proof -
  have "map_of (pool_pending b) pid = (if pool_buffer b pid = [] then None else Some (pool_buffer b pid))"
    using map_of_is_SomeI[OF distinct_pending, of pid "pool_buffer b pid" b] by (force simp: set_pending map_of_eq_None_iff)
  then show ?thesis by (simp add: units_for_map_of[OF distinct_pending])
qed

text \<open>The units of a stream of packets by PID, when those of each PID are known.\<close>

lemma units_from_blocks:
  assumes fields: "\<forall>p\<in>set ps. has_field p \<and> \<not> breaks [] p"
    and blocks: "\<And>pid. filter (\<lambda>p. pkt_PID p = pid) ps = concat (blocks pid)" "\<And>pid. \<forall>u\<in>set (blocks pid). unit_of pid u"
      "\<And>pid. successively cc_follows (concat (blocks pid))"
  obtains us b where "adds pool_add newPacketPool ps = Some (us, b)" "\<And>pid. units_for pid us = butlast (blocks pid)"
    "\<And>pid. units_for pid (pool_pending b) = (if blocks pid = [] then [] else [last (blocks pid)])"
proof -
  have f: "\<forall>p\<in>set ps. has_field p" using fields by blast
  from packet_pool.adds_assembles[OF f, of newPacketPool] obtain us b where us: "adds pool_add newPacketPool ps = Some (us, b)" by blast
  have *: "units_for pid us = butlast (blocks pid) \<and> pool_buffer b pid = (if blocks pid = [] then [] else last (blocks pid))" for pid
  proof -
    have "\<forall>p\<in>set (concat (blocks pid)). \<not> breaks [] p" using fields unfolding blocks(1)[symmetric] by simp
    from packet_pool.adds_units[OF f blocks(1,2) this blocks(3)] us show ?thesis by auto
  qed
  have "last (blocks pid) \<noteq> []" if "blocks pid \<noteq> []" for pid using last_in_set[OF that] blocks(2)[of pid] by (auto simp: unit_of_def)
  then have "units_for pid (pool_pending b) = (if blocks pid = [] then [] else [last (blocks pid)])" for pid
    using *[of pid] by (simp add: pending_for)
  with us * show thesis by (intro that) auto
qed

section \<open>Everything together\<close>

text \<open>
  The packets of a transmission: the two tables, then the data. \<open>mux_blocks\<close> are their units by
  PID, and \<open>unit_datum\<close> is what the demuxer makes of a unit.
\<close>

definition mux_packets :: "sectionSpec \<Rightarrow> sectionSpec \<Rightarrow> (uint16 \<Rightarrow> esContext) \<Rightarrow> MuxerData list \<Rightarrow> Packet list" where
  "mux_packets pat pmt f ds = tablePacket PIDPAT (table_payload pat) # tablePacket pmtStartPID (table_payload pmt) #
     map packet_parsed (concat (muxed_seq f ds))"

definition mux_blocks :: "sectionSpec \<Rightarrow> sectionSpec \<Rightarrow> (uint16 \<Rightarrow> esContext) \<Rightarrow> MuxerData list \<Rightarrow> uint16 \<Rightarrow> Packet list list" where
  "mux_blocks pat pmt f ds pid =
     (if pid = PIDPAT then [[tablePacket PIDPAT (table_payload pat)]]
      else if pid = pmtStartPID then [[tablePacket pmtStartPID (table_payload pmt)]]
      else stream_blocks pid f ds)"

lemma stream_blocks_none: "\<forall>d\<in>set ds. md_PID d \<noteq> pid \<Longrightarrow> stream_blocks pid f ds = []"
  by (induction ds arbitrary: f) (simp_all add: Let_def)

lemma mux_blocks_ok:
  assumes "streams_ok f ds" and "\<forall>d\<in>set ds. plain (md_PID d)"
  shows "\<forall>p\<in>set (mux_packets pat pmt f ds). has_field p \<and> \<not> breaks [] p"
    and "filter (\<lambda>p. pkt_PID p = pid) (mux_packets pat pmt f ds) = concat (mux_blocks pat pmt f ds pid)"
    and "\<forall>u\<in>set (mux_blocks pat pmt f ds pid). unit_of pid u" and "successively cc_follows (concat (mux_blocks pat pmt f ds pid))"
proof -
  note s = stream_blocks_ok[OF assms(1)]
  have t: "has_field (tablePacket k x) \<and> \<not> breaks [] (tablePacket k x)" "pkt_PID (tablePacket k x) = k" "unit_of k [tablePacket k x]" for k x
    by (simp_all add: has_field_def breaks_def tablePacket_def unit_of_def)
  show "\<forall>p\<in>set (mux_packets pat pmt f ds). has_field p \<and> \<not> breaks [] p" using t(1) s(4) by (auto simp: mux_packets_def)
  have no: "stream_blocks PIDPAT f ds = []" "stream_blocks pmtStartPID f ds = []"
    using assms(2) by (auto intro!: stream_blocks_none simp: plain_def isPSIPayload_def)
  have ne: "PIDPAT \<noteq> pmtStartPID" by (simp add: PIDPAT_def pmtStartPID_def)
  have "filter (\<lambda>p. pkt_PID p = pid) (mux_packets pat pmt f ds) =
      (if pid = PIDPAT then [tablePacket PIDPAT (table_payload pat)] else []) @
      (if pid = pmtStartPID then [tablePacket pmtStartPID (table_payload pmt)] else []) @ concat (stream_blocks pid f ds)"
    unfolding mux_packets_def filter.simps t(2) s(3)[of pid] by auto
  then show "filter (\<lambda>p. pkt_PID p = pid) (mux_packets pat pmt f ds) = concat (mux_blocks pat pmt f ds pid)"
    using no ne by (auto simp: mux_blocks_def)
  show "\<forall>u\<in>set (mux_blocks pat pmt f ds pid). unit_of pid u" using t(3) s(1) by (auto simp: mux_blocks_def)
  show "successively cc_follows (concat (mux_blocks pat pmt f ds pid))" using counted_follows[OF s(2)[of pid]] by (simp add: mux_blocks_def)
qed

definition unit_datum :: "sectionSpec \<Rightarrow> uint16 \<Rightarrow> content list \<Rightarrow> stream list \<Rightarrow> sectionSpec \<Rightarrow> uint16 \<times> Packet list \<Rightarrow> DemuxerData" where
  "unit_datum pat pcr cs ess pmt = (\<lambda>(pid, u).
     if pid = PIDPAT then pat_data pat else if pid = pmtStartPID then pmt_data pcr cs ess pmt
     else (newDemuxerData (hd u) pid)\<lparr>dd_PES := unit_pes u\<rparr>)"

lemma dd_PID_unit_datum: "dd_PID (unit_datum pat pcr cs ess pmt (pid, u)) = pid"
  by (simp add: unit_datum_def pat_data_def pmt_data_def newDemuxerData_def)

lemma stream_block_of:
  assumes "u \<in> set (stream_blocks pid f ds)" and "streams_ok f ds"
  shows "\<exists>d ctx. d \<in> set ds \<and> md_PID d = pid \<and> wf_ctx ctx \<and> wf_data ctx d \<and> u = map packet_parsed (muxed_packets ctx d)"
  using assms
proof (induction ds arbitrary: f)
  case (Cons d ds)
  define g where g: "g = f(md_PID d := bump (length (muxed_packets (f (md_PID d)) d)) (f (md_PID d)))"
  note next_ok = streams_ok_next[OF Cons.prems(2), of "length (muxed_packets (f (md_PID d)) d)", folded g]
  from Cons.prems(1) have "md_PID d = pid \<and> u = map packet_parsed (muxed_packets (f pid) d) \<or> u \<in> set (stream_blocks pid g ds)"
    by (auto simp: g Let_def split: if_splits)
  then show ?case
  proof
    assume "md_PID d = pid \<and> u = map packet_parsed (muxed_packets (f pid) d)"
    with Cons.prems(2) show ?thesis by (auto simp: streams_ok_def)
  next
    assume "u \<in> set (stream_blocks pid g ds)"
    from Cons.IH[OF this next_ok] show ?thesis by auto
  qed
qed simp

section \<open>Demuxing what was muxed\<close>

lemma units_for_set: "(pid, u) \<in> set us \<Longrightarrow> u \<in> set (units_for pid us)"
  by (force simp: units_for_def)

lemma units_for_append [simp]: "units_for pid (us @ vs) = units_for pid us @ units_for pid vs"
  by (simp add: units_for_def)

lemma mux_block_parse:
  assumes "bytes_iterator I" and "streams_ok f ds" and "\<forall>d\<in>set ds. plain (md_PID d)" and "fits_packet (pmtTable pcr cs ess v')"
    and "u \<in> set (mux_blocks pat (pmtTable pcr cs ess v') f ds pid)" and "only_program pm"
    and "pid \<noteq> PIDPAT" and "pid = pmtStartPID \<Longrightarrow> pm_exists pm pmtStartPID"
  defines "x \<equiv> unit_datum pat pcr cs ess (pmtTable pcr cs ess v') (pid, u)"
  shows "parseData I u None pm = Some (Inr [x]) \<and> dd_PAT x = None"
proof (cases "pid = pmtStartPID")
  case True
  then have "u = [tablePacket pmtStartPID (table_payload (pmtTable pcr cs ess v'))]" using assms(5,7) by (simp add: mux_blocks_def)
  with True assms(7,8) parseData_pmt[OF assms(1,4)] show ?thesis
    by (simp add: x_def unit_datum_def pmt_data_def newDemuxerData_def)
next
  case False
  with assms(5,7) have "u \<in> set (stream_blocks pid f ds)" by (simp add: mux_blocks_def)
  from stream_block_of[OF this assms(2)] obtain d ctx where d: "d \<in> set ds" "md_PID d = pid" "wf_ctx ctx" "wf_data ctx d"
    "u = map packet_parsed (muxed_packets ctx d)" by blast
  from assms(3) d(1) have "plain (md_PID d)" by blast
  from parseData_pes[OF assms(1) d(3,4) this assms(6)] assms(7) False d(2,5) show ?thesis
    by (simp add: x_def unit_datum_def newDemuxerData_def)
qed

text \<open>The program association table comes first in the pool.\<close>

lemma pending_head:
  assumes "units_for PIDPAT (pool_pending b) = [u]"
  obtains rest where "pool_pending b = (PIDPAT, u) # rest" "\<forall>x\<in>set rest. fst x \<noteq> PIDPAT"
proof (cases "pool_pending b")
  case Nil
  with assms show thesis by simp
next
  case (Cons x rest)
  obtain k v where x: "x = (k, v)" by (cases x)
  have "\<exists>y\<in>set (pool_pending b). fst y = PIDPAT"
  proof (rule ccontr)
    assume "\<not> ?thesis"
    then have "filter (\<lambda>y. fst y = PIDPAT) (pool_pending b) = []" by (auto simp: filter_empty_conv)
    with assms show False by (simp add: units_for_def)
  qed
  moreover have "\<forall>y\<in>set (pool_pending b). k \<le> fst y" using sorted_pending[of b] x by (simp add: Cons)
  ultimately have k: "k = PIDPAT" by (auto simp: PIDPAT_def)
  then have rest: "\<forall>y\<in>set rest. fst y \<noteq> PIDPAT" using distinct_pending[of b] x by (force simp: Cons)
  then have "filter (\<lambda>y. fst y = PIDPAT) rest = []" by (auto simp: filter_empty_conv)
  with assms have "v = u" by (simp add: Cons x k units_for_def)
  with rest that[of rest] show thesis by (simp add: Cons x k)
qed

lemma pat_program:
  "only_program newProgramMap" "only_program (updatePrograms [pat_data sp] newProgramMap)"
  "pm_exists (updatePrograms [pat_data sp] newProgramMap) pmtStartPID"
  by (auto simp: only_program_def updatePrograms_def pat_data_def pat_of_def updateProgram_def program_def programNumberStart_def pm_exists_def
      pm_set_def newProgramMap_def lookup_update' split: if_splits)

text \<open>The units that the demuxer gets give one datum each, and those of a PID come in the order in which they were written.\<close>

lemma demuxed_blocks:
  assumes I: "bytes_iterator I" and "streams_ok f ds" and "\<forall>d\<in>set ds. plain (md_PID d)"
    and v: "fits 5 v" and "fits_packet (pmtTable pcr cs ess v')"
  defines "pat \<equiv> patTable v" and "pmt \<equiv> pmtTable pcr cs ess v'"
  obtains us xs where "units_from newPacketPool (mux_packets pat pmt f ds) = Some us" "demuxed I None newProgramMap us = Some xs"
    "\<And>pid. filter (\<lambda>x. dd_PID x = pid) xs = map (\<lambda>u. unit_datum pat pcr cs ess pmt (pid, u)) (mux_blocks pat pmt f ds pid)"
proof -
  let ?D = "unit_datum pat pcr cs ess pmt" and ?blocks = "mux_blocks pat pmt f ds"
  from units_from_blocks[OF mux_blocks_ok[OF assms(2,3)], of pat pmt] obtain us b where
    us: "adds pool_add newPacketPool (mux_packets pat pmt f ds) = Some (us, b)" "\<And>pid. units_for pid us = butlast (?blocks pid)"
    "\<And>pid. units_for pid (pool_pending b) = (if ?blocks pid = [] then [] else [last (?blocks pid)])" by blast
  have tables: "?blocks PIDPAT = [[tablePacket PIDPAT (table_payload pat)]]" "\<exists>u. ?blocks pmtStartPID = [u]" by (simp_all add: mux_blocks_def)
  note parse = mux_block_parse[OF I assms(2,3,5), where pat = pat, folded pmt_def]
  have first: "\<forall>x\<in>set us. parseData I (snd x) None newProgramMap = Some (Inr [?D x]) \<and> dd_PAT (?D x) = None"
  proof
    fix x assume "x \<in> set us"
    then have x: "snd x \<in> set (butlast (?blocks (fst x)))" using units_for_set[of "fst x" "snd x" us] us(2) by simp
    with tables have "fst x \<noteq> PIDPAT" "fst x \<noteq> pmtStartPID" by auto
    with parse[OF in_set_butlastD[OF x] pat_program(1)] show "parseData I (snd x) None newProgramMap = Some (Inr [?D x]) \<and> dd_PAT (?D x) = None" by simp
  qed
  from us(3)[of PIDPAT] tables(1) obtain rest where rest: "pool_pending b = (PIDPAT, [tablePacket PIDPAT (table_payload pat)]) # rest"
    "\<forall>x\<in>set rest. fst x \<noteq> PIDPAT" using pending_head[of b "[tablePacket PIDPAT (table_payload pat)]"] by auto
  let ?pm = "updatePrograms [pat_data pat] newProgramMap"
  have later: "\<forall>x\<in>set rest. parseData I (snd x) None ?pm = Some (Inr [?D x]) \<and> dd_PAT (?D x) = None"
  proof
    fix x assume x: "x \<in> set rest"
    then have "snd x \<in> set (units_for (fst x) (pool_pending b))"
      using units_for_set[of "fst x" "snd x" "pool_pending b"] unfolding rest(1) by simp
    then have "snd x \<in> set (?blocks (fst x))" using us(3)[of "fst x"] by (auto split: if_splits)
    with parse[OF this pat_program(2)] rest(2) x pat_program(3) show "parseData I (snd x) None ?pm = Some (Inr [?D x]) \<and> dd_PAT (?D x) = None" by simp
  qed
  have "demuxed I None ?pm (map snd rest) = Some (map ?D rest)" using demuxed_singles[OF later, of "[]"] by simp
  moreover have "?D (PIDPAT, [tablePacket PIDPAT (table_payload pat)]) = pat_data pat" by (simp add: unit_datum_def)
  ultimately have "demuxed I None newProgramMap (map snd (pool_pending b)) = Some (map ?D (pool_pending b))"
    using parseData_pat[OF I v, of newProgramMap] unfolding rest(1) by (simp add: pat_def)
  then have "demuxed I None newProgramMap (map snd us @ map snd (pool_pending b)) = Some (map ?D (us @ pool_pending b))"
    by (simp add: demuxed_singles[OF first])
  moreover have "filter (\<lambda>x. dd_PID x = pid) (map ?D (us @ pool_pending b)) = map (\<lambda>u. ?D (pid, u)) (?blocks pid)" for pid
  proof -
    have "filter (\<lambda>x. dd_PID x = pid) (map ?D vs) = map (\<lambda>u. ?D (pid, u)) (units_for pid vs)" for vs
      by (induction vs) (auto simp: dd_PID_unit_datum)
    moreover have "units_for pid (us @ pool_pending b) = ?blocks pid" using us(2,3)[of pid] by simp
    ultimately show ?thesis by (simp only:)
  qed
  ultimately show thesis using us(1) that by (simp add: units_from_def)
qed

text \<open>The PES packets of a stream are those that were sent.\<close>

lemma stream_blocks_sent:
  assumes "streams_ok f ds"
  shows "map unit_pes (stream_blocks pid f ds) = map (\<lambda>d. Some (sent (f pid) d)) (filter (\<lambda>d. md_PID d = pid) ds)"
  using assms
proof (induction ds arbitrary: f)
  case (Cons d ds)
  define g where g: "g = f(md_PID d := bump (length (muxed_packets (f (md_PID d)) d)) (f (md_PID d)))"
  note IH = Cons.IH[of g, OF streams_ok_next[OF Cons.prems, of "length (muxed_packets (f (md_PID d)) d)", folded g]]
  have "wf_data (f (md_PID d)) d" using Cons.prems by (simp add: streams_ok_def)
  from parse_muxed[OF this] have "unit_pes (map packet_parsed (muxed_packets (f (md_PID d)) d)) = Some (sent (f (md_PID d)) d)"
    by (simp add: unit_pes_def)
  moreover have "sent (g pid) = sent (f pid)" by (auto simp: g)
  moreover have "stream_blocks pid f (d # ds) = (if md_PID d = pid then map packet_parsed (muxed_packets (f (md_PID d)) d) # stream_blocks pid g ds
    else stream_blocks pid g ds)" by (simp add: g Let_def)
  ultimately show ?case using IH by (cases "md_PID d = pid") (simp_all del: stream_blocks.simps)
qed simp

text \<open>The bytes of a transmission are cut into the packets again.\<close>

lemma muxed_seq_wires:
  assumes "bytes_iterator I" and "streams_ok f ds"
  shows "\<forall>p\<in>set (concat (muxed_seq f ds)). length (packet_wire p) = 188 \<and> parses_to I (packet_wire p) (packet_parsed p)"
  using assms(2)
proof (induction ds arbitrary: f)
  case (Cons d ds)
  let ?ctx = "f (md_PID d)" and ?ps = "muxed_packets (f (md_PID d)) d"
  define g where g: "g = f(md_PID d := bump (length ?ps) ?ctx)"
  note IH = Cons.IH[of g, OF streams_ok_next[OF Cons.prems, of "length ?ps", folded g]]
  have d: "wf_ctx ?ctx" "wf_data ?ctx d" using Cons.prems by (simp_all add: streams_ok_def)
  then have pid: "fits 13 (md_PID d)" by (simp add: wf_data_def)
  note cut = cut_packet_facts[OF muxed_packets_cut[OF d]]
  have "length (packet_wire p) = 188 \<and> parses_to I (packet_wire p) (packet_parsed p)" if "p \<in> set ?ps" for p
  proof -
    from that obtain i where i: "i < length ?ps" "p = ?ps ! i" by (auto simp: in_set_conv_nth)
    have "parseBytes refIterator (parsePacket refIterator) (packet_wire p) = Some (Inr (packet_parsed p))"
      using cut(7)[OF i(1) pid] i(2) by simp
    from bytes_iterator.parseBytes_transfer[OF assms(1) bytes_iterator.sim_parsePacket[OF assms(1)] this]
    show ?thesis using cut(1)[OF i(1)] i(2) by (simp add: parses_to_def)
  qed
  moreover have "muxed_seq f (d # ds) = ?ps # muxed_seq g ds" by (simp add: g Let_def)
  ultimately show ?case using IH by (auto simp del: muxed_seq.simps)
qed simp

lemma mux_chunks:
  assumes "bytes_iterator I" and "streams_ok f ds" and "fits_packet pat" and "fits_packet pmt"
  shows "list_all2 (parses_to I)
    (chunks 188 (table_wire PIDPAT pat @ table_wire pmtStartPID pmt @ concat (map packet_wire (concat (muxed_seq f ds))))) (mux_packets pat pmt f ds)"
proof -
  let ?ws = "table_wire PIDPAT pat # table_wire pmtStartPID pmt # map packet_wire (concat (muxed_seq f ds))"
  note wires = muxed_seq_wires[OF assms(1,2)]
  have "\<forall>w\<in>set ?ws. length w = 188" using wires length_table_wire assms(3,4) by auto
  from chunks_concat[OF _ this, of "[]"] have cut: "chunks 188 (concat ?ws) = ?ws" by simp
  have "fits 13 PIDPAT" "fits 13 pmtStartPID" by (simp_all add: fits_def PIDPAT_def pmtStartPID_def)
  note tables = parse_table_wire[OF assms(3) this(1)] parse_table_wire[OF assms(4) this(2)]
  note transfer = bytes_iterator.parseBytes_transfer[OF assms(1) bytes_iterator.sim_parsePacket[OF assms(1)]]
  have "list_all2 (parses_to I) ?ws (mux_packets pat pmt f ds)"
    using wires transfer[OF tables(1)] transfer[OF tables(2)]
    by (simp add: mux_packets_def list_all2_map1 list_all2_map2 list_all2_same parses_to_def)
  then show ?thesis using cut by simp
qed

section \<open>Properties\<close>

text \<open>
  \<^bold>\<open>C1\<close>. What is muxed is demuxed. Take a muxer that has written nothing yet and whose tables are due,
  with a program map table that fits into a packet and has the PCR on one of its streams, and a sequence of well-formed
  PES packets with payload for its streams, at least one and not more than the period of the tables. None of
  them is a random access point of the PCR stream or has the discontinuity indicator set, the adaptation field and
  the PES header fit into the first packet, and no PID of a stream is one that the demuxer takes for tables. All calls of
  \<^verbatim>\<open>WriteData\<close> succeed. With a context that is never cancelled, a demuxer with packets of 188 bytes, on any
  reader that delivers the bytes written, then returns one datum for each call of
  \<^verbatim>\<open>NextData\<close>: one program association table that names the muxer's program, one program map
  table, which is the muxer's, and for every PID the PES packets that were sent to it, complete and in
  their order, with the stream identifier and the length that the muxer fills in; nothing else. The call
  after these returns no data, the one after that \<^verbatim>\<open>ErrNoMorePackets\<close>.
\<close>

theorem mux_demux:
  assumes "astikit I W view" and "map_range rng" and "byte_reader R left" and "\<forall>r. ctxErr r = None"
    and "mux_ok view m" and "bw_Bytes W (mux_w m) = []" and "wf_program m pcr cs ess" and "tables_current m pcr cs ess"
    and "ready m f mds" and "\<forall>d\<in>set mds. steady_field d \<and> plain (md_PID d)" and "mds \<noteq> []"
    and "mux_tablesRetransmitPeriod m \<le> mux_tablesRetransmitCounter m + 1" and "int (length mds) \<le> mux_tablesRetransmitPeriod m"
  shows "\<exists>rs m' xs. writeDatas W rng mds m = Some (rs, m') \<and> (\<forall>r\<in>set rs. snd r = None) \<and>
    (\<forall>r. left r = bw_Bytes W (mux_w m') \<longrightarrow> (\<exists>err dmx. nextDatas ctxErr I R (length xs + 2) (NewDemuxer r [DemuxerOptPacketSize 188]) =
       Some (map (\<lambda>x. (Some x, None)) xs @ [(None, err), (None, Some ErrNoMorePackets)], dmx) \<and> err \<in> {None, Some ErrNoMorePackets})) \<and>
    map (map_option pat_Programs \<circ> dd_PAT) (filter (\<lambda>x. dd_PID x = PIDPAT) xs) =
      [Some [\<lparr>pgm_ProgramMapID = pmtStartPID, pgm_ProgramNumber = programNumberStart\<rparr>]] \<and>
    map dd_PMT (filter (\<lambda>x. dd_PID x = pmtStartPID) xs) = [Some (mux_pmt m)] \<and>
    (\<forall>pid. pid \<notin> {PIDPAT, pmtStartPID} \<longrightarrow>
      map dd_PES (filter (\<lambda>x. dd_PID x = pid) xs) = map (\<lambda>d. Some (sent (f pid) d)) (filter (\<lambda>d. md_PID d = pid) mds))"
proof -
  note I = astikit.axioms(1)[OF assms(1)] and W = astikit.axioms(2)[OF assms(1)]
  have ok: "streams_ok f mds" and plain: "\<forall>d\<in>set mds. plain (md_PID d)" using assms(9,10) by (auto simp: streams_ok_def ready_def)
  from bits_writer.writeDatas_due[OF W assms(2,5,7-9,11-13)] obtain rs m' v v' where
    calls_ok: "writeDatas W rng mds m = Some (rs, m')" "\<forall>r\<in>set rs. snd r = None" and v: "fits 5 v" "fits 5 v'" and
    bytes: "bw_Bytes W (mux_w m') = table_wire PIDPAT (patTable v) @ table_wire pmtStartPID (pmtTable pcr cs ess v') @
      concat (map packet_wire (concat (muxed_seq f mds)))" unfolding assms(6) by auto
  let ?pat = "patTable v" and ?pmt = "pmtTable pcr cs ess v'"
  note fits = fits_patTable[OF v(1)] fits_pmtTable[OF assms(7) v(2)]
  from demuxed_blocks[OF I ok plain v(1) fits(2)] obtain us xs where
    us: "units_from newPacketPool (mux_packets ?pat ?pmt f mds) = Some us" "demuxed I None newProgramMap us = Some xs"
    and xs: "\<And>pid. filter (\<lambda>x. dd_PID x = pid) xs = map (\<lambda>u. unit_datum ?pat pcr cs ess ?pmt (pid, u)) (mux_blocks ?pat ?pmt f mds pid)" by blast
  have calls: "\<exists>err dmx. nextDatas ctxErr I R (length xs + 2) (NewDemuxer r [DemuxerOptPacketSize 188]) =
      Some (map (\<lambda>x. (Some x, None)) xs @ [(None, err), (None, Some ErrNoMorePackets)], dmx) \<and> err \<in> {None, Some ErrNoMorePackets}"
    if r: "left r = bw_Bytes W (mux_w m')" for r
  proof -
    have "list_all2 (parses_to I) (chunks 188 (left r)) (mux_packets ?pat ?pmt f mds)"
      unfolding r bytes by (rule mux_chunks[OF I ok fits])
    from byte_reader.nextDatas_run[OF assms(3,4) coming_new[where left = left and prs = None, OF _ this us]] show ?thesis by simp
  qed
  have "dd_PES (unit_datum ?pat pcr cs ess ?pmt (pid, u)) = unit_pes u" if "pid \<notin> {PIDPAT, pmtStartPID}" for pid u
    using that by (simp add: unit_datum_def)
  then have pes: "map dd_PES (filter (\<lambda>x. dd_PID x = pid) xs) = map (\<lambda>d. Some (sent (f pid) d)) (filter (\<lambda>d. md_PID d = pid) mds)"
    if "pid \<notin> {PIDPAT, pmtStartPID}" for pid
    using that stream_blocks_sent[OF ok, of pid] by (simp add: xs mux_blocks_def o_def)
  have "map (map_option pat_Programs \<circ> dd_PAT) (filter (\<lambda>x. dd_PID x = PIDPAT) xs) =
      [Some [\<lparr>pgm_ProgramMapID = pmtStartPID, pgm_ProgramNumber = programNumberStart\<rparr>]]"
    by (simp add: xs mux_blocks_def unit_datum_def pat_data_def pat_of_def program_def)
  moreover have "map dd_PMT (filter (\<lambda>x. dd_PID x = pmtStartPID) xs) = [Some (mux_pmt m)]"
    using assms(7) by (simp add: xs mux_blocks_def unit_datum_def pmt_data_def wf_program_def PIDPAT_def pmtStartPID_def)
  ultimately show ?thesis using calls_ok calls pes by (intro exI[of _ rs] exI[of _ m'] exI[of _ xs]) blast
qed

section \<open>Witnesses\<close>

text \<open>A new muxer with one stream, to which two PES packets are sent.\<close>

definition sampleDatas :: "MuxerData list" where
  "sampleDatas = [sampleData, sampleData\<lparr>md_AdaptationField := None\<rparr>]"

lemma sampleDatas:
  "ready sampleProgram (\<lambda>_. newEsContext sampleStream) sampleDatas" "\<forall>d\<in>set sampleDatas. steady_field d \<and> plain (md_PID d)"
proof -
  have "wf_data (newEsContext sampleStream) (sampleData\<lparr>md_AdaptationField := None\<rparr>)"
    using sampleData by (auto simp: wf_data_def wf_given_def setStreamID_def Let_def af_room_def sampleData_def af_size_def zeroAdaptationField_def split: if_splits)
  moreover have "Mapping.lookup (mux_esContexts sampleProgram) 0x100 = Some (newEsContext sampleStream)"
    by (simp add: sampleProgram_def SetPCRPID_def AddElementaryStream_def NewMuxer_def sampleStream_def lookup_update)
  ultimately show "ready sampleProgram (\<lambda>_. newEsContext sampleStream) sampleDatas"
    using sampleData sampleMuxer(3) by (simp add: ready_def sampleDatas_def) (simp add: sampleData_def zeroAdaptationField_def)
  show "\<forall>d\<in>set sampleDatas. steady_field d \<and> plain (md_PID d)"
    by (simp add: sampleDatas_def sampleData_def steady_field_def zeroAdaptationField_def plain_def isPSIPayload_def pm_exists_def newProgramMap_def
        PIDCAT_def PIDPAT_def pmtStartPID_def)
qed

theorem mux_demux_witness:
  "\<exists>rs m' xs. writeDatas refWriter sorted_list_of_set sampleDatas sampleProgram = Some (rs, m') \<and> (\<forall>r\<in>set rs. snd r = None) \<and>
    (\<exists>err dmx. nextDatas (\<lambda>_. None) refIterator fileReader (length xs + 2) (NewDemuxer (bw_Bytes refWriter (mux_w m'), 0) [DemuxerOptPacketSize 188]) =
       Some (map (\<lambda>x. (Some x, None)) xs @ [(None, err), (None, Some ErrNoMorePackets)], dmx)) \<and>
    map dd_PMT (filter (\<lambda>x. dd_PID x = pmtStartPID) xs) = [Some (mux_pmt sampleProgram)] \<and>
    map dd_PES (filter (\<lambda>x. dd_PID x = 0x100) xs) = map (\<lambda>d. Some (sent (newEsContext sampleStream) d)) sampleDatas"
proof -
  have m: "bw_Bytes refWriter (mux_w sampleProgram) = []" "sampleDatas \<noteq> []"
    "mux_tablesRetransmitPeriod sampleProgram \<le> mux_tablesRetransmitCounter sampleProgram + 1"
    "int (length sampleDatas) \<le> mux_tablesRetransmitPeriod sampleProgram"
    by (simp_all add: sampleDatas_def sampleProgram_def SetPCRPID_def AddElementaryStream_def NewMuxer_def sampleStream_def refWriter_def)
  have pid: "(0x100 :: uint16) \<notin> {PIDPAT, pmtStartPID}" "filter (\<lambda>d. md_PID d = 0x100) sampleDatas = sampleDatas"
    by (simp_all add: PIDPAT_def pmtStartPID_def sampleDatas_def sampleData_def)
  from mux_demux[OF ref_astikit.astikit_axioms sorted_range.map_range_axioms file_reader.byte_reader_axioms _ sampleProgram(1) m(1)
      sampleProgram(2,3) sampleDatas m(2-4), of "\<lambda>_. None"]
  obtain rs m' xs where written: "writeDatas refWriter sorted_list_of_set sampleDatas sampleProgram = Some (rs, m')" "\<forall>r\<in>set rs. snd r = None"
    and calls: "\<forall>r. (case r of (bs, pos) \<Rightarrow> drop pos bs) = bw_Bytes refWriter (mux_w m') \<longrightarrow>
      (\<exists>err dmx. nextDatas (\<lambda>_. None) refIterator fileReader (length xs + 2) (NewDemuxer r [DemuxerOptPacketSize 188]) =
        Some (map (\<lambda>x. (Some x, None)) xs @ [(None, err), (None, Some ErrNoMorePackets)], dmx) \<and> err \<in> {None, Some ErrNoMorePackets})"
    and pmt: "map dd_PMT (filter (\<lambda>x. dd_PID x = pmtStartPID) xs) = [Some (mux_pmt sampleProgram)]"
    and pes: "\<forall>pid. pid \<notin> {PIDPAT, pmtStartPID} \<longrightarrow>
      map dd_PES (filter (\<lambda>x. dd_PID x = pid) xs) = map (\<lambda>d. Some (sent (newEsContext sampleStream) d)) (filter (\<lambda>d. md_PID d = pid) sampleDatas)"
    by auto
  from calls[rule_format, of "(bw_Bytes refWriter (mux_w m'), 0)"] obtain err dmx where
    "nextDatas (\<lambda>_. None) refIterator fileReader (length xs + 2) (NewDemuxer (bw_Bytes refWriter (mux_w m'), 0) [DemuxerOptPacketSize 188]) =
      Some (map (\<lambda>x. (Some x, None)) xs @ [(None, err), (None, Some ErrNoMorePackets)], dmx)" by auto
  with written pmt pes[rule_format, OF pid(1), unfolded pid(2)] show ?thesis by (intro exI[of _ rs] exI[of _ m'] exI[of _ xs]) blast
qed

end
