(* ===== verification/Demuxer_Safety.thy ===== *)
theory Demuxer_Safety
  imports Demuxer_Stream Psi_Safety
begin

text \<open>
  The demuxer on arbitrary bytes: every call of \<^verbatim>\<open>NextData\<close> returns, unless the stream makes
  a descriptor parser diverge, and the inputs on which it panics.
\<close>

section \<open>Parsers without loops\<close>

definition total :: "('i, 'a) parser \<Rightarrow> bool" where
  "total p \<longleftrightarrow> (\<forall>i. p i \<noteq> None)"

named_theorems total_intros

lemma total_basic [total_intros]:
  "total (preturn a)" "total (plift f)" "total (pget g)" "total (pmove h)" "total (offset I)" "total (seek I n)"
  by (simp_all add: total_def parser_defs offset_def seek_def)

lemma total_pbind [total_intros]: "total p \<Longrightarrow> (\<And>a. total (f a)) \<Longrightarrow> total (pbind p f)"
  by (auto simp: total_def pbind_def split: option.split sum.split)

lemma total_pwrap [total_intros]: "total p \<Longrightarrow> total (pwrap msg p)"
  by (auto simp: total_def pwrap_def split: option.split sum.split)

lemma total_cases [total_intros]:
  "total p \<Longrightarrow> total q \<Longrightarrow> total (if c then p else q)" "total p \<Longrightarrow> total (pwhen c d p)" "total (f a) \<Longrightarrow> total (let x = a in f x)"
  "(\<And>x y. total (g x y)) \<Longrightarrow> total (case z of (x, y) \<Rightarrow> g x y)"
  by (simp_all add: pwhen_def total_basic split: prod.split)

lemma total_fetches [total_intros]: "total (fetchByte I)" "total (fetchBytes I n)" "total (fetchBytesNoCopy I n)"
  unfolding fetchByte_def fetchBytes_def fetchBytesNoCopy_def by (intro total_intros)+

lemma total_psome [total_intros]: "total p \<Longrightarrow> total (psome p)"
  unfolding psome_def by (intro total_intros)

lemma total_parsePESData: "total (parsePESData I)"
  unfolding parsePESData_def parsePESHeader_def parsePESOptionalHeader_def parsePESTimestamps_def parsePESExtension_def
    parsePESExtension2_def parsePTSOrDTS_def parseESCR_def
  by (intro total_intros)

lemma parseBytes_total: "total p \<Longrightarrow> \<exists>r. parseBytes I p bs = Some r"
  by (auto simp: total_def parseBytes_def split: option.split sum.split)

section \<open>Units without the tag of VBI data\<close>

definition harmless :: "Packet \<Rightarrow> bool" where
  "harmless p \<longleftrightarrow> DescriptorTagVBIData \<notin> set (p_Payload p)"

lemma parseData_returns:
  assumes "bytes_iterator I" and "\<forall>p\<in>set ps. harmless p"
  shows "\<exists>r. parseData I ps prs pm = Some r"
proof -
  have "DescriptorTagVBIData \<notin> set (concat (map p_Payload ps))" using assms(2) by (auto simp: harmless_def)
  from parsePSIData_total[OF assms(1) this] parseBytes_total[OF total_parsePESData, of I I "concat (map p_Payload ps)"]
  have "\<exists>r. parseUnit I ps pm ds = Some r" for ds by (auto simp: parseUnit_def Let_def)
  then show ?thesis by (auto simp: parseData_def split: option.split sum.split)
qed

text \<open>The payload of a packet is a part of the slice it was parsed from.\<close>

lemma advances_slice: "advances k p \<Longrightarrow> 0 \<le> off \<Longrightarrow> p (bs, off) = Some (Inr (a, bs', off')) \<Longrightarrow> bs' = bs \<and> off + k \<le> off'"
  by (rule advancesE[of k p off bs]) auto

lemma parsePacket_payload_ref:
  assumes "parseBytes refIterator (parsePacket refIterator) bs = Some (Inr p)" and "187 \<le> length bs"
  shows "set (p_Payload p) \<subseteq> set bs"
proof -
  let ?off = "int (length bs) - 187"
  let ?header = "pwrap ''astits: parsing packet header failed: '' (parsePacketHeader refIterator)"
  let ?field = "\<lambda>h. pwhen (ph_HasAdaptationField h) None
       (psome (pwrap ''astits: parsing packet adaptation field failed: '' (parsePacketAdaptationField refIterator)))"
  have off: "0 \<le> ?off" using assms(2) by simp
  from assms obtain i where "parsePacketContents refIterator ?off (bs, ?off) = Some (Inr (p, i))"
    by (auto simp: parseBytes_def parsePacket_def parser_defs seek_def offset_def MpegTsPacketSize_def
        split: if_splits option.splits sum.splits)
  then obtain h bs1 o1 a bs2 o2 where h: "?header (bs, ?off) = Some (Inr (h, bs1, o1))" and a: "?field h (bs1, o1) = Some (Inr (a, bs2, o2))"
    and p: "set (p_Payload p) \<subseteq> set bs2"
    by (auto simp: set_drop_subset parsePacketContents_def pwhen_def[of "ph_HasPayload _"] preturn_def pfail_def seek_def pmove_def dump_def plift_def
        elim!: pbind_InrE split: if_splits option.splits)
  have adv: "advances 0 ?header" "advances 0 (?field h)"
    by (intro advances_intros advances_parsePacketHeader advances_parsePacketAdaptationField)+
  from advances_slice[OF adv(1) off h] have "bs1 = bs" "0 \<le> o1" using off by linarith+
  with advances_slice[OF adv(2) _ a] have "bs2 = bs" by blast
  with p show ?thesis by simp
qed

lemma parsePacket_run:
  assumes "bytes_iterator I" and "187 \<le> length bs"
  obtains e where "parseBytes I (parsePacket I) bs = Some (Inl e)"
  | p where "parseBytes I (parsePacket I) bs = Some (Inr p)" "has_field p" "set (p_Payload p) \<subseteq> set bs"
proof -
  from parsePacket_returns_ref[OF assms(2)] obtain r where r: "parseBytes refIterator (parsePacket refIterator) bs = Some r" "r \<noteq> Inl Panic" by blast
  note I = bytes_iterator.parseBytes_transfer[OF assms(1) bytes_iterator.sim_parsePacket[OF assms(1)] r]
  show thesis
  proof (cases r)
    case (Inl e)
    with I that(1) show thesis by blast
  next
    case (Inr p)
    with I r(1) parsePacket_payload_ref[OF _ assms(2)] parsePacket_has_field that(2) show thesis by blast
  qed
qed

section \<open>Termination\<close>

text \<open>A loop with a falling measure returns, with what its turns establish of the result.\<close>

lemma goLoop_ends:
  assumes "\<And>s. J s \<Longrightarrow> (\<exists>r. body s = Some (Return r) \<and> Q r) \<or> (\<exists>s'. body s = Some (Continue s') \<and> J s' \<and> m s' < (m s :: nat))"
    and "J s"
  shows "\<exists>r. goLoop body s = Some r \<and> Q r"
  using assms(2)
proof (induction "m s" arbitrary: s rule: less_induct)
  case less
  from assms(1)[OF less.prems] show ?case
  proof (elim disjE exE conjE)
    fix r assume "body s = Some (Return r)" "Q r"
    then show ?thesis by (simp add: goLoop_Return)
  next
    fix s' assume "body s = Some (Continue s')" "J s'" "m s' < m s"
    with less.hyps[of s'] show ?thesis by (simp add: goLoop_Continue)
  qed
qed

text \<open>The packets of a demuxer, in the pool and to come, do not hold the tag.\<close>

definition harmless_pool :: "packetPool \<Rightarrow> bool" where
  "harmless_pool b \<longleftrightarrow> (\<forall>pid. \<forall>p\<in>set (pool_buffer b pid). harmless p)"

definition harmless_dmx :: "nat \<Rightarrow> byte list \<Rightarrow> 'r Demuxer \<Rightarrow> bool" where
  "harmless_dmx n bs dmx \<longleftrightarrow> 187 \<le> n \<and> sized n dmx \<and> DescriptorTagVBIData \<notin> set bs \<and> harmless_pool (dmx_packetPool dmx)"

lemma harmless_add:
  assumes "harmless_pool b" and "harmless p" and "has_field p"
  obtains u b' where "pool_add b p = Some (u, b')" "harmless_pool b'" "\<forall>q\<in>set u. harmless q"
proof -
  from pool_add_assemble[OF assms(3), of b] obtain b' where b': "pool_add b p = Some (fst (assemble (pool_buffer b (pkt_PID p)) p), b')"
    "pool_buffer b' = (pool_buffer b)(pkt_PID p := snd (assemble (pool_buffer b (pkt_PID p)) p))" by blast
  have "\<forall>q\<in>set (fst (assemble (pool_buffer b (pkt_PID p)) p)) \<union> set (snd (assemble (pool_buffer b (pkt_PID p)) p)). harmless q"
    using assms(1,2) by (auto simp: assemble_def harmless_pool_def Let_def)
  with b' assms(1) show thesis by (intro that[OF b'(1)]) (auto simp: harmless_pool_def)
qed

lemma harmless_dump:
  assumes "harmless_pool b" and "pool_dump b = (u, b')"
  shows "harmless_pool b'" and "\<forall>q\<in>set u. harmless q" and "u \<noteq> [] \<Longrightarrow> length (pool_pending b') < length (pool_pending b)"
proof -
  have "harmless_pool b' \<and> (\<forall>q\<in>set u. harmless q) \<and> (u \<noteq> [] \<longrightarrow> length (pool_pending b') < length (pool_pending b))"
  proof (cases "pool_pending b")
    case Nil
    with pool_dump_pending(1) assms(2) show ?thesis by (simp add: harmless_pool_def packet_pool.buffer_new)
  next
    case (Cons ku rest)
    obtain k v where ku: "ku = (k, v)" by (cases ku)
    with pool_dump_pending(2)[of b k v rest] Cons assms(2) have u: "u = v" "pool_pending b' = rest" "pool_buffer b' = (pool_buffer b)(k := [])" by auto
    have "(k, v) \<in> set (pool_pending b)" using Cons ku by simp
    then have "pool_buffer b k = v" by (simp add: set_pending)
    with u assms(1) Cons show ?thesis by (auto simp: harmless_pool_def)
  qed
  then show "harmless_pool b'" "\<forall>q\<in>set u. harmless q" "u \<noteq> [] \<Longrightarrow> length (pool_pending b') < length (pool_pending b)" by blast+
qed

lemma updateData_keeps:
  "dmx_packetPool (snd (updateData dmx ds)) = dmx_packetPool dmx" "dmx_r (snd (updateData dmx ds)) = dmx_r dmx"
  "sized n (snd (updateData dmx ds)) = sized n dmx"
  by (simp_all add: updateData_def split: list.split)

lemma harmless_updateData:
  "harmless_dmx n bs (snd (updateData dmx ds)) = harmless_dmx n bs dmx"
  by (simp add: harmless_dmx_def updateData_keeps)

abbreviation dumpTurn :: "'i BytesIterator \<Rightarrow> error option \<times> 'r Demuxer \<Rightarrow> ('r nextData, error option \<times> 'r Demuxer) flow option" where
  "dumpTurn I \<equiv> (\<lambda>(err, dmx).
     case pool_dump (dmx_packetPool dmx) of (ps, pool) \<Rightarrow>
     let dmx = dmx\<lparr>dmx_packetPool := pool\<rparr> in
     if length ps = 0 then Some (Return ((None, err), dmx))
     else map_option (\<lambda>r. case r of
         Inl e \<Rightarrow> if e = Panic then Return ((None, Some Panic), dmx) else Continue (Some e, dmx)
       | Inr ds \<Rightarrow> (case updateData dmx ds of
             (Some d, dmx) \<Rightarrow> Return ((Some d, None), dmx)
           | (None, dmx) \<Rightarrow> Continue (None, dmx)))
       (parseData I ps (dmx_optPacketsParser dmx) (dmx_programMap dmx)))"

lemma dumpTurn_step:
  assumes "bytes_iterator I" and d: "harmless_dmx n bs d" "dmx_r d = r"
  shows "(\<exists>res dmx'. dumpTurn I (err, d) = Some (Return (res, dmx')) \<and> harmless_dmx n bs dmx' \<and> dmx_r dmx' = r) \<or>
    (\<exists>err' dmx'. dumpTurn I (err, d) = Some (Continue (err', dmx')) \<and> harmless_dmx n bs dmx' \<and> dmx_r dmx' = r \<and>
      length (pool_pending (dmx_packetPool dmx')) < length (pool_pending (dmx_packetPool d)))"
proof -
  obtain u b where u: "pool_dump (dmx_packetPool d) = (u, b)" by fastforce
  have pool: "harmless_pool (dmx_packetPool d)" using d(1) by (simp add: harmless_dmx_def)
  note safe = harmless_dump[OF pool u]
  let ?d = "d\<lparr>dmx_packetPool := b\<rparr>"
  have d': "harmless_dmx n bs ?d" using d(1) safe(1) by (simp add: harmless_dmx_def)
  show ?thesis
  proof (cases "u = []")
    case True
    with u d d' show ?thesis by simp
  next
    case False
    from parseData_returns[OF assms(1) safe(2)] obtain res where
      res: "parseData I u (dmx_optPacketsParser d) (dmx_programMap d) = Some res" by blast
    note less = safe(3)[OF False]
    show ?thesis
    proof (cases res)
      case (Inl e)
      with u d d' False res less show ?thesis by (cases "e = Panic") simp_all
    next
      case (Inr ds)
      with u d d' False res less show ?thesis
        using harmless_updateData[of n bs ?d ds] updateData_keeps(1,2)[of ?d ds]
        by (cases "updateData ?d ds"; cases "fst (updateData ?d ds)") simp_all
    qed
  qed
qed

lemma dumpData_returns:
  assumes "bytes_iterator I" and "harmless_dmx n bs dmx"
  shows "\<exists>res dmx'. dumpData I err dmx = Some (res, dmx') \<and> harmless_dmx n bs dmx' \<and> dmx_r dmx' = dmx_r dmx"
proof -
  let ?J = "\<lambda>d. harmless_dmx n bs d \<and> dmx_r d = dmx_r dmx"
  have "\<exists>res. goLoop (dumpTurn I) (err, dmx) = Some res \<and> ?J (snd res)"
  proof (rule goLoop_ends[where J = "\<lambda>s. ?J (snd s)" and m = "\<lambda>s. length (pool_pending (dmx_packetPool (snd s)))"])
    fix s :: "error option \<times> 'b Demuxer" assume J: "?J (snd s)"
    show "(\<exists>r. dumpTurn I s = Some (Return r) \<and> ?J (snd r)) \<or> (\<exists>s'. dumpTurn I s = Some (Continue s') \<and> ?J (snd s') \<and>
      length (pool_pending (dmx_packetPool (snd s'))) < length (pool_pending (dmx_packetPool (snd s))))"
      using dumpTurn_step[OF assms(1) conjunct1[OF J] conjunct2[OF J], of "fst s"] unfolding prod.collapse by force
  qed (use assms(2) in simp)
  then show ?thesis by (auto simp: dumpData_def)
qed

context byte_reader
begin

lemma nextDataTurn_step:
  assumes I: "bytes_iterator I" and dmx: "harmless_dmx n (left (dmx_r dmx)) dmx"
  shows "(\<exists>res dmx'. nextDataTurn ctxErr I R dmx = Some (Return (res, dmx')) \<and> harmless_dmx n (left (dmx_r dmx')) dmx') \<or>
    (\<exists>dmx'. nextDataTurn ctxErr I R dmx = Some (Continue dmx') \<and> harmless_dmx n (left (dmx_r dmx')) dmx' \<and>
      length (left (dmx_r dmx')) < length (left (dmx_r dmx)))"
proof (cases "ctxErr (dmx_r dmx)")
  case (Some e)
  with dmx have "NextPacket ctxErr I R dmx = Some (Inl e, dmx)" by (simp add: NextPacket_def)
  with dmx dumpData_returns[OF I dmx, of "Some e"] show ?thesis by (auto simp: nextDataTurn_def)
next
  case None
  let ?bs = "left (dmx_r dmx)"
  from dmx have n: "sized n dmx" "187 \<le> n" "DescriptorTagVBIData \<notin> set ?bs" "harmless_pool (dmx_packetPool dmx)"
    by (simp_all add: harmless_dmx_def)
  from NextPacket_run[of ctxErr dmx n I, OF None n(1)] obtain r where r: "left r = drop n ?bs" and
    run: "NextPacket ctxErr I R dmx = (if n \<le> length ?bs
     then map_option (\<lambda>p. (case p of
         Inl e \<Rightarrow> Inl (wrapError ''astits: fetching next packet from buffer failed: '' (wrapError ''astits: building packet failed: '' e))
       | Inr p \<Rightarrow> Inr p, opened n r dmx)) (parseBytes I (parsePacket I) (take n ?bs))
     else Some (Inl ErrNoMorePackets, opened n r dmx))" by blast
  have drop: "DescriptorTagVBIData \<notin> set (drop n ?bs)" using n(3) by (auto dest: in_set_dropD)
  have opened: "harmless_dmx n (left r) (opened n r dmx)" using n r drop by (simp add: harmless_dmx_def)
  show ?thesis
  proof (cases "n \<le> length ?bs")
    case False
    with dumpData_returns[OF I opened, of "Some ErrNoMorePackets"] run show ?thesis by (auto simp: nextDataTurn_def)
  next
    case True
    then have "187 \<le> length (take n ?bs)" using n(2) by simp
    from I this show ?thesis
    proof (rule parsePacket_run)
      fix e assume e: "parseBytes I (parsePacket I) (take n ?bs) = Some (Inl e)"
      have "wrapError m e' \<noteq> ErrNoMorePackets" for m e' by (simp add: wrapError_def)
      with e run True opened show ?thesis by (auto simp: nextDataTurn_def)
    next
      fix p assume p: "parseBytes I (parsePacket I) (take n ?bs) = Some (Inr p)" "has_field p" "set (p_Payload p) \<subseteq> set (take n ?bs)"
      then have "harmless p" using n(3) by (auto simp: harmless_def dest: in_set_takeD)
      from n(4) this p(2) obtain u b where u: "pool_add (dmx_packetPool dmx) p = Some (u, b)" "harmless_pool b" "\<forall>q\<in>set u. harmless q"
        by (rule harmless_add)
      let ?d = "(opened n r dmx)\<lparr>dmx_packetPool := b\<rparr>"
      have d: "harmless_dmx n (left (dmx_r ?d)) ?d" using opened u(2) by (simp add: harmless_dmx_def)
      have less: "length (left (dmx_r ?d)) < length ?bs" using r True n(2) by simp
      from parseData_returns[OF I u(3)] obtain res where
        res: "parseData I u (dmx_optPacketsParser dmx) (dmx_programMap dmx) = Some res" by blast
      have turn: "nextDataTurn ctxErr I R dmx = (if u = [] then Some (Continue ?d) else Some (case res of
                 Inl e \<Rightarrow> Return ((None, Some (wrapError ''astits: building new data failed: '' e)), ?d)
               | Inr ds \<Rightarrow> (case updateData ?d ds of
                     (Some d, dmx) \<Rightarrow> Return ((Some d, None), dmx)
                   | (None, dmx) \<Rightarrow> Continue dmx)))"
        using run True p(1) u(1) res by (simp add: nextDataTurn_def Let_def)
      have upd: "harmless_dmx n (left (dmx_r d')) d' \<and> length (left (dmx_r d')) < length ?bs" if "updateData ?d ds = (x, d')" for x d' ds
        using d less harmless_updateData[of n "left (dmx_r ?d)" ?d ds] updateData_keeps(2)[of ?d ds] that by simp
      show ?thesis
        unfolding turn using d less by (auto dest: upd split: sum.split option.split prod.split)
    qed
  qed
qed

lemma NextData_returns_run:
  assumes I: "bytes_iterator I" and dmx: "harmless_dmx n (left (dmx_r dmx)) dmx"
  shows "\<exists>res dmx'. NextData ctxErr I R dmx = Some (res, dmx') \<and> harmless_dmx n (left (dmx_r dmx')) dmx'"
proof (cases "dmx_dataBuffer dmx")
  case (Cons d rest)
  with dmx show ?thesis by (simp add: NextData_def harmless_dmx_def)
next
  case Nil
  let ?J = "\<lambda>d. harmless_dmx n (left (dmx_r d)) d"
  have "\<exists>res. goLoop (nextDataTurn ctxErr I R) dmx = Some res \<and> ?J (snd res)"
  proof (rule goLoop_ends[where J = ?J and m = "\<lambda>d. length (left (dmx_r d))"])
    fix d assume "?J d"
    from nextDataTurn_step[OF I this, of ctxErr]
    show "(\<exists>r. nextDataTurn ctxErr I R d = Some (Return r) \<and> ?J (snd r)) \<or>
      (\<exists>d'. nextDataTurn ctxErr I R d = Some (Continue d') \<and> ?J d' \<and> length (left (dmx_r d')) < length (left (dmx_r d)))" by force
  qed (rule dmx)
  with Nil show ?thesis by (auto simp: NextData_def)
qed

lemma nextDatas_returns:
  assumes "bytes_iterator I" and "harmless_dmx n (left (dmx_r dmx)) dmx"
  shows "\<exists>rs dmx'. nextDatas ctxErr I R k dmx = Some (rs, dmx')"
  using assms(2)
proof (induction k arbitrary: dmx)
  case (Suc k)
  from NextData_returns_run[OF assms(1) Suc.prems, of ctxErr] obtain res dmx1 where
    "NextData ctxErr I R dmx = Some (res, dmx1)" "harmless_dmx n (left (dmx_r dmx1)) dmx1" by blast
  with Suc.IH[of dmx1] show ?case by auto
qed simp

end

section \<open>A panic\<close>

text \<open>A packet with a program association table whose section length is zero, followed by padding.\<close>

definition emptyTableBytes :: "byte list" where
  "emptyTableBytes = [0x47, 0x40, 0x00, 0x10] @ [0x00, 0x00, 0xb0, 0x00] @ replicate 180 0xff"

definition emptyTable :: Packet where
  "emptyTable = \<lparr>p_AdaptationField = None,
     p_Header = \<lparr>ph_ContinuityCounter = 0, ph_HasAdaptationField = False, ph_HasPayload = True, ph_PayloadUnitStartIndicator = True,
       ph_PID = 0, ph_TransportErrorIndicator = False, ph_TransportPriority = False, ph_TransportScramblingControl = 0\<rparr>,
     p_Payload = [0x00, 0x00, 0xb0, 0x00] @ replicate 180 0xff\<rparr>"

definition emptySections :: "PSISection list" where
  "emptySections = [\<lparr>sec_CRC32 = 0,
     sec_Header = Some \<lparr>psh_PrivateBit = False, psh_SectionLength = 0, psh_SectionSyntaxIndicator = True,
       psh_TableID = PSITableIDPAT, psh_TableType = PSITableTypePAT\<rparr>, sec_Syntax = None\<rparr>, paddingSection]"

lemma emptyTable_parse:
  "parseBytes refIterator (parsePacket refIterator) emptyTableBytes = Some (Inr emptyTable)"
  "parseBytes refIterator (parsePSIData refIterator) (p_Payload emptyTable) = Some (Inr \<lparr>psi_PointerField = 0, psi_Sections = emptySections\<rparr>)"
  by code_simp+

lemma emptyTable_panics:
  assumes "bytes_iterator I"
  shows "parseBytes I (parsePacket I) emptyTableBytes = Some (Inr emptyTable)" and "parseData I [emptyTable] None pm = Some (Inl Panic)"
proof -
  note transfer = bytes_iterator.parseBytes_transfer[OF assms]
  show "parseBytes I (parsePacket I) emptyTableBytes = Some (Inr emptyTable)"
    by (rule transfer[OF bytes_iterator.sim_parsePacket[OF assms] emptyTable_parse(1)]) simp
  have "parseBytes I (parsePSIData I) (p_Payload emptyTable) = Some (Inr \<lparr>psi_PointerField = 0, psi_Sections = emptySections\<rparr>)"
    by (rule transfer[OF bytes_iterator.sim_parsePSIData[OF assms] emptyTable_parse(2)]) simp
  moreover have "toData \<lparr>psi_PointerField = 0, psi_Sections = emptySections\<rparr> emptyTable 0 = None"
    by (simp add: toData_def emptySections_def sectionToData_def Let_def table_ids)
  moreover have "ph_PID (p_Header emptyTable) = 0" by (simp add: emptyTable_def)
  ultimately show "parseData I [emptyTable] None pm = Some (Inl Panic)"
    by (simp add: parseData_def parseUnit_def isPSIPayload_def PIDPAT_def PIDCAT_def)
qed

lemma emptyTable_pool:
  "\<exists>b b'. pool_add newPacketPool emptyTable = Some ([], b) \<and> pool_dump b = ([emptyTable], b')"
proof -
  have p: "has_field emptyTable" "pkt_PID emptyTable = 0" "assemble [] emptyTable = ([], [emptyTable])"
    by (simp_all add: has_field_def emptyTable_def assemble_def breaks_def)
  from pool_add_assemble[OF p(1), of newPacketPool] p(2,3) obtain b where
    b: "pool_add newPacketPool emptyTable = Some ([], b)" "pool_buffer b = (\<lambda>_. [])(0 := [emptyTable])"
    by (auto simp: packet_pool.buffer_new fun_eq_iff)
  have "set (pool_pending b) = {(0, [emptyTable])}" by (auto simp: set_pending b(2) split: if_splits)
  then obtain u rest where "pool_pending b = (0, [emptyTable]) # rest"
    by (cases "pool_pending b") auto
  from pool_dump_pending(2)[OF this] b(1) show ?thesis by blast
qed

section \<open>Properties\<close>

text \<open>
  \<^bold>\<open>C9\<close>. \<^verbatim>\<open>NextData\<close> returns. On any finite stream, whatever its bytes, in which the tag
  byte of VBI data descriptors does not occur, with packets of at least 187 bytes, with or without a
  parser of the caller's (a function that returns) and whatever the context says, any number of calls of
  \<^verbatim>\<open>NextData\<close> on a new demuxer return, with data, an error or a panic as in the next property: none loops
  forever.
\<close>

theorem NextData_returns:
  assumes "bytes_iterator I" and "byte_reader R left" and "DescriptorTagVBIData \<notin> set (left r)" and "187 \<le> n"
  shows "\<exists>rs dmx. nextDatas ctxErr I R k
      (NewDemuxer r (DemuxerOptPacketSize (int n) # (case prs of None \<Rightarrow> [] | Some p \<Rightarrow> [DemuxerOptPacketsParser p]))) = Some (rs, dmx)"
proof (rule byte_reader.nextDatas_returns[OF assms(2,1)])
  show "harmless_dmx n (left (dmx_r (NewDemuxer r (DemuxerOptPacketSize (int n) # (case prs of None \<Rightarrow> [] | Some p \<Rightarrow> [DemuxerOptPacketsParser p])))))
     (NewDemuxer r (DemuxerOptPacketSize (int n) # (case prs of None \<Rightarrow> [] | Some p \<Rightarrow> [DemuxerOptPacketsParser p])))"
    using assms(3,4)
    by (cases prs) (auto simp: harmless_dmx_def harmless_pool_def packet_pool.buffer_new NewDemuxer_def DemuxerOptPacketSize_def
        DemuxerOptPacketsParser_def sized_def)
qed

text \<open>
  \<^bold>\<open>C21\<close>. Bytes that crash the demuxer: for a stream of one packet that carries a program
  association table with a section length of zero, \<^verbatim>\<open>NextData\<close> panics, since
  \<^verbatim>\<open>toData\<close> dereferences the syntax that \<^verbatim>\<open>parsePSISection\<close> leaves nil.
\<close>

theorem empty_table_panics:
  assumes "bytes_iterator I" and "byte_reader R left" and "\<forall>r. ctxErr r = None" and "left r = emptyTableBytes"
  shows "\<exists>dmx. NextData ctxErr I R (NewDemuxer r [DemuxerOptPacketSize 188]) = Some ((None, Some Panic), dmx)"
proof -
  let ?dmx = "NewDemuxer r [DemuxerOptPacketSize 188]"
  have len: "length emptyTableBytes = 188" by (simp add: emptyTableBytes_def)
  have dmx: "sized 188 ?dmx" "dmx_packetPool ?dmx = newPacketPool" "dmx_optPacketsParser ?dmx = None" "dmx_dataBuffer ?dmx = []" "dmx_r ?dmx = r"
    by (simp_all add: NewDemuxer_def DemuxerOptPacketSize_def sized_def)
  from emptyTable_pool obtain b b' where b: "pool_add newPacketPool emptyTable = Some ([], b)" "pool_dump b = ([emptyTable], b')" by blast
  from byte_reader.NextPacket_run[OF assms(2), of ctxErr ?dmx 188 I] assms(3,4) dmx len emptyTable_panics(1)[OF assms(1)] obtain r' where
    r': "left r' = []" "NextPacket ctxErr I R ?dmx = Some (Inr emptyTable, opened 188 r' ?dmx)" by auto
  let ?dmx1 = "(opened 188 r' ?dmx)\<lparr>dmx_packetPool := b\<rparr>"
  have 1: "nextDataTurn ctxErr I R ?dmx = Some (Continue ?dmx1)" using r'(2) b(1) dmx by (simp add: nextDataTurn_def Let_def)
  from byte_reader.NextPacket_run[OF assms(2), of ctxErr ?dmx1 188 I] assms(3) r'(1) obtain r'' where
    r'': "NextPacket ctxErr I R ?dmx1 = Some (Inl ErrNoMorePackets, opened 188 r'' ?dmx1)" by auto
  have "dumpData I (Some ErrNoMorePackets) (opened 188 r'' ?dmx1) = Some ((None, Some Panic), (opened 188 r'' ?dmx1)\<lparr>dmx_packetPool := b'\<rparr>)"
    unfolding dumpData_def by (rule goLoop_Return) (simp add: b(2) dmx emptyTable_panics(2)[OF assms(1)])
  then have "nextDataTurn ctxErr I R ?dmx1 = Some (Return ((None, Some Panic), (opened 188 r'' ?dmx1)\<lparr>dmx_packetPool := b'\<rparr>))"
    using r'' by (simp add: nextDataTurn_def)
  from goLoop_Return[of "nextDataTurn ctxErr I R" ?dmx1, OF this] goLoop_Continue[of "nextDataTurn ctxErr I R" ?dmx, OF 1]
  show ?thesis by (simp add: NextData_def dmx)
qed

section \<open>Witnesses\<close>

theorem NextData_returns_witness:
  "\<exists>rs dmx. nextDatas (\<lambda>_. None) refIterator fileReader 5
     (NewDemuxer (emptyTableBytes @ [0x47, 1, 2], 0) [DemuxerOptPacketSize (int 188)]) = Some (rs, dmx)"
  using NextData_returns[OF ref_iterator.bytes_iterator_axioms file_reader.byte_reader_axioms, of "(emptyTableBytes @ [0x47, 1, 2], 0)" 188
      "\<lambda>_. None" 5 None]
  by (simp add: emptyTableBytes_def DescriptorTagVBIData_def)

theorem empty_table_panics_witness:
  "\<exists>dmx. NextData (\<lambda>_. None) refIterator fileReader (NewDemuxer (emptyTableBytes, 0) [DemuxerOptPacketSize 188]) =
    Some ((None, Some Panic), dmx)"
  by (rule empty_table_panics[OF ref_iterator.bytes_iterator_axioms file_reader.byte_reader_axioms]) simp_all

end
