(* ===== verification/Muxer_State.thy ===== *)
theory Muxer_State
  imports Muxer_Tables
begin

text \<open>
  The state of a muxer over any sequence of calls: a step relation, the invariant of the reachable
  muxers, and what becomes of automatic PIDs, of a PCR PID set late and of headers that are too long.
\<close>

section \<open>Reachable muxers\<close>

text \<open>
  \<open>auto\<close> says whether the caller lets \<^verbatim>\<open>AddElementaryStream\<close> choose PIDs, with a stream whose PID is 0.
  A call of \<^verbatim>\<open>WriteData\<close> that does not return makes no step.
\<close>

inductive mux_step :: "'w BitsWriter \<Rightarrow> (uint16 set \<Rightarrow> uint16 list) \<Rightarrow> bool \<Rightarrow> 'w Muxer \<Rightarrow> 'w Muxer \<Rightarrow> bool" for W rng auto where
  add: "auto \<or> es_ElementaryPID es \<noteq> 0 \<Longrightarrow> mux_step W rng auto m (snd (AddElementaryStream m es))"
| remove: "mux_step W rng auto m (snd (RemoveElementaryStream m pid))"
| setPCR: "mux_step W rng auto m (SetPCRPID m pid)"
| tables: "mux_step W rng auto m (snd (WriteTables W rng m))"
| data: "WriteData W rng m d = Some (r, m', d') \<Longrightarrow> mux_step W rng auto m m'"
| packet: "mux_step W rng auto m (snd (WritePacket W m p))"

inductive mux_reachable :: "'w BitsWriter \<Rightarrow> (uint16 set \<Rightarrow> uint16 list) \<Rightarrow> bool \<Rightarrow> 'w Muxer \<Rightarrow> bool" for W rng auto where
  new: "mux_reachable W rng auto (NewMuxer W w (map MuxerOptTablesRetransmitPeriod periods))"
| step: "mux_reachable W rng auto m \<Longrightarrow> mux_step W rng auto m m' \<Longrightarrow> mux_reachable W rng auto m'"

section \<open>The invariant\<close>

abbreviation mux_PIDs :: "'w Muxer \<Rightarrow> uint16 list" where
  "mux_PIDs m \<equiv> map es_ElementaryPID (pmt_ElementaryStreams (mux_pmt m))"

abbreviation counter_ok :: "int \<Rightarrow> wrappingCounter \<Rightarrow> bool" where
  "counter_ok n c \<equiv> wc_inv c \<and> wrapAt c = n"

text \<open>The parts that no call changes, the version counters, and the contexts of the streams.\<close>

definition mux_core :: "'w Muxer \<Rightarrow> bool" where
  "mux_core m \<longleftrightarrow> mux_packetSize m = 188 \<and> mux_pm m = pm_set newProgramMap pmtStartPID programNumberStart \<and>
     pmt_ProgramNumber (mux_pmt m) = programNumberStart \<and> counter_ok 31 (mux_patVersion m) \<and> counter_ok 31 (mux_pmtVersion m)"

definition contexts_ok :: "'w Muxer \<Rightarrow> bool" where
  "contexts_ok m \<longleftrightarrow> (\<forall>pid ctx. Mapping.lookup (mux_esContexts m) pid = Some ctx \<longrightarrow>
     counter_ok 15 (ec_cc ctx) \<and> es_ElementaryPID (ec_es ctx) = pid \<and> ec_es ctx \<in> set (pmt_ElementaryStreams (mux_pmt m)))"

text \<open>With PIDs chosen by the caller alone: each PID once, and a context for each.\<close>

definition streams_match :: "'w Muxer \<Rightarrow> bool" where
  "streams_match m \<longleftrightarrow> distinct (mux_PIDs m) \<and> Mapping.keys (mux_esContexts m) = set (mux_PIDs m)"

definition same_streams :: "'w Muxer \<Rightarrow> 'w Muxer \<Rightarrow> bool" where
  "same_streams m m' \<longleftrightarrow> mux_esContexts m' = mux_esContexts m \<and> mux_pmt m' = mux_pmt m"

lemma same_streams_ok:
  "same_streams m m' \<Longrightarrow> contexts_ok m' = contexts_ok m" "same_streams m m' \<Longrightarrow> streams_match m' = streams_match m"
  by (simp_all add: same_streams_def contexts_ok_def streams_match_def)

subsection \<open>Tables\<close>

lemma generatePAT_state:
  "generatePAT W rng m = (e, m') \<Longrightarrow> same_streams m m' \<and> (mux_core m \<longrightarrow> mux_core m')"
  by (auto simp: generatePAT_def Let_def split_beta same_streams_def mux_core_def wc_inv_get split: prod.splits sum.splits if_splits)

lemma generatePMT_state:
  "generatePMT W m = (e, m') \<Longrightarrow> same_streams m m' \<and> (mux_core m \<longrightarrow> mux_core m')"
  by (auto simp: generatePMT_def Let_def split_beta same_streams_def mux_core_def wc_inv_get split: prod.splits sum.splits if_splits option.splits)

lemma writeDirect_state: "writeDirect W bs m = (e, m') \<Longrightarrow> same_streams m m' \<and> (mux_core m \<longrightarrow> mux_core m')"
  by (auto simp: writeDirect_def same_streams_def mux_core_def split: prod.splits)

lemma same_streams_trans: "same_streams m m' \<and> (mux_core m \<longrightarrow> mux_core m') \<Longrightarrow> same_streams m' m'' \<and> (mux_core m' \<longrightarrow> mux_core m'') \<Longrightarrow>
    same_streams m m'' \<and> (mux_core m \<longrightarrow> mux_core m'')"
  by (simp add: same_streams_def)

lemma same_streams_refl: "same_streams m m \<and> (mux_core m \<longrightarrow> mux_core m)"
  by (simp add: same_streams_def)

lemma WriteTables_state:
  "same_streams m (snd (WriteTables W rng m)) \<and> (mux_core m \<longrightarrow> mux_core (snd (WriteTables W rng m)))"
proof -
  obtain e1 m1 where 1: "(if int (length (mux_patBytes m)) \<noteq> mux_packetSize m then generatePAT W rng m else (None, m)) = (e1, m1)" by force
  obtain e2 m2 where 2: "(if int (length (mux_pmtBytes m1)) \<noteq> mux_packetSize m1 then generatePMT W m1 else (None, m1)) = (e2, m2)" by force
  obtain e3 m3 where 3: "writeDirect W (mux_patBytes m2) m2 = (e3, m3)" by force
  obtain e4 m4 where 4: "writeDirect W (mux_pmtBytes m3) m3 = (e4, m4)" by force
  have s1: "same_streams m m1 \<and> (mux_core m \<longrightarrow> mux_core m1)" using 1 generatePAT_state[of W rng m] same_streams_refl[of m] by (auto split: if_splits)
  have "same_streams m1 m2 \<and> (mux_core m1 \<longrightarrow> mux_core m2)" using 2 generatePMT_state[of W m1] same_streams_refl[of m1] by (auto split: if_splits)
  note s2 = same_streams_trans[OF s1 this]
  note s3 = same_streams_trans[OF s2 writeDirect_state[OF 3]]
  note s4 = same_streams_trans[OF s3 writeDirect_state[OF 4]]
  have "snd (WriteTables W rng m) \<in> {m1, m2, m3, m4}"
    by (cases e1; cases e2; cases e3; cases e4) (simp_all only: WriteTables_def 1 2 3 4 prod.case option.case snd_conv insert_iff simp_thms)
  with s1 s2 s3 s4 show ?thesis by auto
qed

lemma retransmitTables_state:
  assumes "retransmitTables W rng force m = (r, m')"
  shows "same_streams m m' \<and> (mux_core m \<longrightarrow> mux_core m')"
proof -
  let ?m = "m\<lparr>mux_tablesRetransmitCounter := mux_tablesRetransmitCounter m + 1\<rparr>"
  obtain n e m1 where 1: "WriteTables W rng ?m = ((n, e), m1)" by (metis prod.exhaust)
  have m: "same_streams m ?m \<and> (mux_core m \<longrightarrow> mux_core ?m)" by (simp add: same_streams_def mux_core_def)
  have m1: "same_streams ?m m1 \<and> (mux_core ?m \<longrightarrow> mux_core m1)" using WriteTables_state[of ?m W rng] 1 by simp
  have "m' = ?m \<or> m' = m1 \<or> m' = m1\<lparr>mux_tablesRetransmitCounter := 0\<rparr>"
    using assms by (auto simp: retransmitTables_def 1 Let_def split: if_splits option.splits)
  with m same_streams_trans[OF m m1] show ?thesis by (auto simp: same_streams_def mux_core_def)
qed

subsection \<open>Data\<close>

text \<open>The loop of \<^verbatim>\<open>WriteData\<close> works on one context, which goes back into the map in every turn.\<close>

definition loop_state :: "'w Muxer \<Rightarrow> uint16 \<Rightarrow> 'w writeState \<Rightarrow> bool" where
  "loop_state m pid s \<longleftrightarrow> md_PID (ws_d s) = pid \<and> mux_core (ws_m s) \<and> mux_pmt (ws_m s) = mux_pmt m \<and> contexts_ok (ws_m s) \<and>
     Mapping.keys (mux_esContexts (ws_m s)) = Mapping.keys (mux_esContexts m) \<and> Mapping.lookup (mux_esContexts (ws_m s)) pid = Some (ws_ctx s)"

definition loop_muxer :: "'w Muxer \<Rightarrow> 'w Muxer \<Rightarrow> bool" where
  "loop_muxer m m' \<longleftrightarrow> mux_core m' \<and> mux_pmt m' = mux_pmt m \<and> contexts_ok m' \<and>
     Mapping.keys (mux_esContexts m') = Mapping.keys (mux_esContexts m)"

lemma writeDataPacket_state:
  assumes "loop_state m pid s"
  shows "case writeDataPacket W cc avail s of Return (_, m', _) \<Rightarrow> loop_muxer m m' | Continue s' \<Rightarrow> loop_state m pid s'"
  using assms
  by (auto simp: writeDataPacket_def Let_def loop_state_def loop_muxer_def mux_core_def contexts_ok_def setStuffing_def setStreamID_def
      split: prod.split sum.split)

lemma writeDataTurn_state:
  assumes "loop_state m pid s"
  shows "case writeDataTurn W s of Return (_, m', _) \<Rightarrow> loop_muxer m m' | Continue s' \<Rightarrow> loop_state m pid s'"
proof -
  let ?ctx = "(ws_ctx s)\<lparr>ec_cc := snd (wc_get (ec_cc (ws_ctx s)))\<rparr>"
  let ?s = "s\<lparr>ws_m := (ws_m s)\<lparr>mux_esContexts := Mapping.update pid ?ctx (mux_esContexts (ws_m s))\<rparr>, ws_ctx := ?ctx\<rparr>"
  have pid: "pid \<in> Mapping.keys (mux_esContexts (ws_m s))" using assms unfolding loop_state_def keys_dom_lookup by blast
  have s: "loop_state m pid ?s"
    using assms pid by (auto simp: loop_state_def mux_core_def contexts_ok_def lookup_update' insert_absorb wc_inv_get)
  then have "loop_state m pid (?s\<lparr>ws_d := (if c then setStuffing n (ws_d s) else ws_d s), ws_writeAf := False\<rparr>)" for c n
    by (simp add: loop_state_def setStuffing_def)
  moreover have "loop_muxer m (ws_m s)" "loop_muxer m (ws_m ?s)" using assms s by (simp_all add: loop_state_def loop_muxer_def)
  moreover note writeDataPacket_state[OF s, of W]
  ultimately show ?thesis using assms
    by (simp add: writeDataTurn_def Let_def split_beta loop_state_def split: option.split)
qed

lemma WriteData_state:
  assumes "mux_core m" and "contexts_ok m" and "WriteData W rng m d = Some (r, m', d')"
  shows "loop_muxer m m'"
proof (cases "Mapping.lookup (mux_esContexts m) (md_PID d)")
  case None
  with assms show ?thesis by (simp add: WriteData_def loop_muxer_def)
next
  case (Some ctx)
  define force where "force = (case md_AdaptationField d of None \<Rightarrow> False | Some af \<Rightarrow> af_RandomAccessIndicator af \<and> md_PID d = pmt_PCRPID (mux_pmt m))"
  obtain n e m1 where 1: "retransmitTables W rng force m = ((n, e), m1)" by (metis prod.exhaust)
  from retransmitTables_state[OF 1] assms(1) have m1: "same_streams m m1" "mux_core m1" by simp_all
  have lm: "loop_muxer m m1" using m1 assms(2) same_streams_ok(1)[OF m1(1)] by (simp add: loop_muxer_def same_streams_def)
  show ?thesis
  proof (cases e)
    case (Some e')
    with assms(3) \<open>Mapping.lookup _ _ = _\<close> 1 lm show ?thesis by (simp add: WriteData_def force_def)
  next
    case None
    define s where "s = \<lparr>ws_m = m1, ws_ctx = ctx, ws_d = d, ws_payloadStart = True, ws_writeAf = md_AdaptationField d \<noteq> None,
      ws_payloadBytesWritten = 0, ws_bytesWritten = n\<rparr>"
    have run: "goLoop (\<lambda>s. Some (writeDataTurn W s)) s = Some (r, m', d')"
      using assms(3) Some 1 None by (simp add: WriteData_def force_def s_def)
    have "loop_state m (md_PID d) s" using Some m1 lm by (simp add: loop_state_def loop_muxer_def s_def same_streams_def)
    with run show ?thesis
    proof (induction s "(r, m', d')" rule: goLoop_induct)
      case (Return s)
      with writeDataTurn_state[OF Return(2), of W] show ?case by auto
    next
      case (Continue s s')
      with writeDataTurn_state[OF Continue(3), of W] show ?case by auto
    qed
  qed
qed

subsection \<open>Streams\<close>

lemma find_index:
  "find (\<lambda>i. P (xs ! i)) [0..<length xs] = Some i \<Longrightarrow> i < length xs \<and> P (xs ! i)"
  "find (\<lambda>i. P (xs ! i)) [0..<length xs] = None \<Longrightarrow> \<forall>x\<in>set xs. \<not> P x"
  by (auto simp: find_Some_iff find_None_iff in_set_conv_nth)

lemma AddElementaryStream_state:
  assumes "mux_core m" and "contexts_ok m"
  shows "mux_core (snd (AddElementaryStream m es))" and "contexts_ok (snd (AddElementaryStream m es))"
    and "streams_match m \<Longrightarrow> es_ElementaryPID es \<noteq> 0 \<Longrightarrow> streams_match (snd (AddElementaryStream m es))"
proof -
  show "mux_core (snd (AddElementaryStream m es))" using assms(1) by (auto simp: AddElementaryStream_def mux_core_def split: if_splits)
  show "contexts_ok (snd (AddElementaryStream m es))"
    using assms(2) by (auto simp: AddElementaryStream_def contexts_ok_def lookup_update' newEsContext_def wc_inv_new Let_def split: if_splits)
      (simp_all add: newWrappingCounter_def)
  show "streams_match (snd (AddElementaryStream m es))" if "streams_match m" "es_ElementaryPID es \<noteq> 0"
    using that by (auto simp: AddElementaryStream_def streams_match_def)
qed

lemma RemoveElementaryStream_state:
  assumes "mux_core m" and "contexts_ok m"
  shows "mux_core (snd (RemoveElementaryStream m pid))" and "contexts_ok (snd (RemoveElementaryStream m pid))"
    and "streams_match m \<Longrightarrow> streams_match (snd (RemoveElementaryStream m pid))"
proof -
  let ?ess = "pmt_ElementaryStreams (mux_pmt m)"
  have *: "mux_core (snd (RemoveElementaryStream m pid)) \<and> contexts_ok (snd (RemoveElementaryStream m pid)) \<and>
    (streams_match m \<longrightarrow> streams_match (snd (RemoveElementaryStream m pid)))"
  proof (cases "find (\<lambda>i. es_ElementaryPID (?ess ! i) = pid) [0..<length ?ess]")
    case None
    then have "snd (RemoveElementaryStream m pid) = m" by (simp add: RemoveElementaryStream_def)
    with assms show ?thesis by simp
  next
    case (Some i)
    from find_index(1)[of "\<lambda>es. es_ElementaryPID es = pid", OF Some] have i: "i < length ?ess" "es_ElementaryPID (?ess ! i) = pid" by simp_all
    note split = id_take_nth_drop[OF i(1)]
    have ess: "set ?ess = set (take i ?ess) \<union> {?ess ! i} \<union> set (drop (Suc i) ?ess)" by (subst split) auto
    let ?m = "snd (RemoveElementaryStream m pid)"
    have m: "pmt_ElementaryStreams (mux_pmt ?m) = take i ?ess @ drop (Suc i) ?ess" "mux_esContexts ?m = Mapping.delete pid (mux_esContexts m)"
      "mux_core ?m" using Some assms(1) by (simp_all add: RemoveElementaryStream_def mux_core_def Let_def)
    have "contexts_ok ?m" unfolding contexts_ok_def m
    proof (intro allI impI)
      fix q ctx assume ctx: "Mapping.lookup (Mapping.delete pid (mux_esContexts m)) q = Some ctx"
      then have "q \<noteq> pid" by auto
      with ctx have q: "q \<noteq> pid" "Mapping.lookup (mux_esContexts m) q = Some ctx" by (simp_all add: lookup_delete_neq[of pid q])
      with assms(2) have "counter_ok 15 (ec_cc ctx)" "es_ElementaryPID (ec_es ctx) = q" "ec_es ctx \<in> set ?ess" by (auto simp: contexts_ok_def)
      with q(1) i(2) ess show "counter_ok 15 (ec_cc ctx) \<and> es_ElementaryPID (ec_es ctx) = q \<and> ec_es ctx \<in> set (take i ?ess @ drop (Suc i) ?ess)" by auto
    qed
    moreover have "streams_match ?m" if "streams_match m"
    proof -
      have "mux_PIDs m = map es_ElementaryPID (take i ?ess) @ pid # map es_ElementaryPID (drop (Suc i) ?ess)"
        using i(2) by (subst split) simp
      with that show ?thesis unfolding streams_match_def m by auto
    qed
    ultimately show ?thesis using m(3) by blast
  qed
  then show "mux_core (snd (RemoveElementaryStream m pid))" "contexts_ok (snd (RemoveElementaryStream m pid))"
    "streams_match m \<Longrightarrow> streams_match (snd (RemoveElementaryStream m pid))" by blast+
qed

subsection \<open>Every step\<close>

lemma mux_step_state:
  assumes "mux_step W rng auto m m'" and "mux_core m" and "contexts_ok m" and "\<not> auto \<longrightarrow> streams_match m"
  shows "mux_core m' \<and> contexts_ok m' \<and> (\<not> auto \<longrightarrow> streams_match m')"
  using assms(1)
proof cases
  case (add es)
  with assms(2-4) AddElementaryStream_state[of m es] show ?thesis by auto
next
  case (remove pid)
  with assms(2-4) RemoveElementaryStream_state[of m pid] show ?thesis by auto
next
  case (setPCR pid)
  with assms(2-4) show ?thesis by (simp add: SetPCRPID_def mux_core_def contexts_ok_def streams_match_def)
next
  case tables
  with assms(2-4) WriteTables_state[of m W rng] same_streams_ok[of m m'] show ?thesis by auto
next
  case (data d r d')
  from WriteData_state[OF assms(2,3) data] have "loop_muxer m m'" .
  with assms(4) show ?thesis by (simp add: loop_muxer_def streams_match_def)
next
  case (packet p)
  with assms(2-4) show ?thesis by (auto simp: WritePacket_def mux_core_def contexts_ok_def streams_match_def split: prod.splits)
qed

lemma NewMuxer_periods:
  "\<exists>c n. NewMuxer W w (map MuxerOptTablesRetransmitPeriod periods) =
    (NewMuxer W w [])\<lparr>mux_tablesRetransmitCounter := c, mux_tablesRetransmitPeriod := n\<rparr>"
proof -
  have "\<exists>n. fold (\<lambda>opt m. opt m) (map MuxerOptTablesRetransmitPeriod periods) m = m\<lparr>mux_tablesRetransmitPeriod := n\<rparr>" for m :: "'a Muxer"
  proof (induction periods arbitrary: m)
    case Nil
    show ?case by (intro exI[of _ "mux_tablesRetransmitPeriod m"]) simp
  next
    case (Cons k ks)
    from Cons[of "m\<lparr>mux_tablesRetransmitPeriod := k\<rparr>"] show ?case by (auto simp: MuxerOptTablesRetransmitPeriod_def)
  qed
  from this[of "\<lparr>mux_w = w, mux_packetSize = MpegTsPacketSize, mux_tablesRetransmitPeriod = 40,
      mux_pm = pm_set newProgramMap pmtStartPID programNumberStart,
      mux_pmt = \<lparr>pmt_ElementaryStreams = [], pmt_PCRPID = 0, pmt_ProgramDescriptors = [], pmt_ProgramNumber = programNumberStart\<rparr>,
      mux_nextPID = 0, mux_patVersion = newWrappingCounter 31, mux_pmtVersion = newWrappingCounter 31,
      mux_patBytes = [], mux_pmtBytes = [], mux_buf = bw_New W, mux_esContexts = Mapping.empty, mux_tablesRetransmitCounter = 0\<rparr>"]
  show ?thesis by (auto simp: NewMuxer_def Let_def)
qed

section \<open>Properties\<close>

text \<open>
  \<^bold>\<open>C13\<close>. The invariant of the muxer. After any sequence of calls of its methods, whatever they were
  given and whether they failed, the packet size is 188, the one program is announced, the two
  version counters stay within five bits, and every stream that can be written to has a continuity counter
  within four bits and is listed in the program map table under its PID. As long as the caller chooses all
  PIDs, the table lists each PID once and every stream listed can be written to.
\<close>

theorem muxer_invariant:
  assumes "mux_reachable W rng auto m"
  shows "mux_core m \<and> contexts_ok m \<and> (\<not> auto \<longrightarrow> streams_match m)"
  using assms
proof induction
  case (new w periods)
  from NewMuxer_periods[of W w periods] obtain c n where
    "NewMuxer W w (map MuxerOptTablesRetransmitPeriod periods) = (NewMuxer W w [])\<lparr>mux_tablesRetransmitCounter := c, mux_tablesRetransmitPeriod := n\<rparr>" by blast
  then show ?case
    by (simp add: NewMuxer_def Let_def mux_core_def contexts_ok_def streams_match_def newWrappingCounter_def wc_inv_def MpegTsPacketSize_def)
next
  case (step m m')
  with mux_step_state[OF step(2)] show ?case by blast
qed

text \<open>Adding streams in sequence.\<close>

primrec addStreams :: "'w Muxer \<Rightarrow> PMTElementaryStream list \<Rightarrow> error option list \<times> 'w Muxer" where
  "addStreams m [] = ([], m)"
| "addStreams m (es # ess) = (case AddElementaryStream m es of (e, m) \<Rightarrow> case addStreams m ess of (errs, m) \<Rightarrow> (e # errs, m))"

lemma addStreams_automatic:
  assumes "\<forall>es\<in>set ess. es_ElementaryPID es = 0"
  shows "fst (addStreams m ess) = replicate (length ess) None \<and>
    mux_PIDs (snd (addStreams m ess)) = mux_PIDs m @ map (\<lambda>k. mux_nextPID m + word_of_nat k) [0..<length ess]"
  using assms
proof (induction ess arbitrary: m)
  case (Cons es ess)
  let ?m = "snd (AddElementaryStream m es)"
  have "fst (AddElementaryStream m es) = None" "mux_nextPID ?m = mux_nextPID m + 1" "mux_PIDs ?m = mux_PIDs m @ [mux_nextPID m]"
    using Cons.prems by (simp_all add: AddElementaryStream_def)
  moreover have "map (\<lambda>k. mux_nextPID m + word_of_nat k) [0..<Suc (length ess)] =
      mux_nextPID m # map (\<lambda>k. mux_nextPID m + 1 + word_of_nat k) [0..<length ess]"
    by (simp add: upt_conv_Cons map_Suc_upt[symmetric] add.assoc del: upt_Suc)
  ultimately show ?case using Cons.IH[of ?m] Cons.prems by (simp add: split_beta del: upt_Suc)
qed simp

text \<open>
  \<^bold>\<open>C24\<close>. Automatic PIDs start at 0. When all streams leave their PID to a new muxer, every call of
  \<^verbatim>\<open>AddElementaryStream\<close> succeeds and they get the PIDs 0, 1, 2, ... in turn: the first has the PID of the
  program association table, so that a demuxer takes its packets for tables, whatever programs it knows. The
  constant \<^verbatim>\<open>startPID\<close>, 0x100, is not used.
\<close>

theorem automatic_PIDs:
  fixes W :: "'w BitsWriter" and w :: 'w and periods :: "int list"
  assumes "\<forall>es\<in>set ess. es_ElementaryPID es = 0"
  defines "m \<equiv> snd (addStreams (NewMuxer W w (map MuxerOptTablesRetransmitPeriod periods)) ess)"
  shows "fst (addStreams (NewMuxer W w (map MuxerOptTablesRetransmitPeriod periods)) ess) = replicate (length ess) None \<and>
    mux_PIDs m = map word_of_nat [0..<length ess] \<and> (ess \<noteq> [] \<longrightarrow> isPSIPayload (hd (mux_PIDs m)) pm)"
proof -
  from NewMuxer_periods[of W w periods] obtain c n where
    "NewMuxer W w (map MuxerOptTablesRetransmitPeriod periods) = (NewMuxer W w [])\<lparr>mux_tablesRetransmitCounter := c, mux_tablesRetransmitPeriod := n\<rparr>" by blast
  then have new: "mux_nextPID (NewMuxer W w (map MuxerOptTablesRetransmitPeriod periods)) = 0" "mux_PIDs (NewMuxer W w (map MuxerOptTablesRetransmitPeriod periods)) = []"
    by (simp_all add: NewMuxer_def)
  note * = addStreams_automatic[OF assms(1), of "NewMuxer W w (map MuxerOptTablesRetransmitPeriod periods)", folded m_def, unfolded new]
  then have "ess \<noteq> [] \<longrightarrow> hd (mux_PIDs m) = PIDPAT" by (simp add: hd_map PIDPAT_def)
  with * show ?thesis by (simp add: isPSIPayload_def)
qed

text \<open>
  \<^bold>\<open>C23\<close>. A PCR PID that is set after the tables were written is not announced. For a muxer as in the property
  of \<^verbatim>\<open>WriteTables\<close>, let it write its tables and then set any PCR PID: the next call of
  \<^verbatim>\<open>WriteTables\<close> succeeds and writes the same bytes as before, since \<^verbatim>\<open>SetPCRPID\<close>, unlike the
  methods that add and remove streams, does not drop the program map table kept by the muxer.
\<close>

theorem late_PCR_PID_unannounced:
  assumes "bits_writer W view" and "map_range rng" and "mux_ok view m" and "wf_program m pcr cs ess" and "tables_current m pcr cs ess"
  shows "\<exists>m1 m2 bs. WriteTables W rng m = ((376, None), m1) \<and> bw_Bytes W (mux_w m1) = bw_Bytes W (mux_w m) @ bs \<and> length bs = 376 \<and>
    WriteTables W rng (SetPCRPID m1 pid) = ((376, None), m2) \<and> pmt_PCRPID (mux_pmt m2) = pid \<and>
    bw_Bytes W (mux_w m2) = bw_Bytes W (mux_w m1) @ bs"
proof -
  from bits_writer.WriteTables_ok[OF assms] obtain v v' m1 where v: "fits 5 v" "fits 5 v'" and
    m1: "WriteTables W rng m = ((376, None), m1)"
    "bw_Bytes W (mux_w m1) = bw_Bytes W (mux_w m) @ table_wire PIDPAT (patTable v) @ table_wire pmtStartPID (pmtTable pcr cs ess v')"
    "mux_patBytes m1 = table_wire PIDPAT (patTable v)" "mux_pmtBytes m1 = table_wire pmtStartPID (pmtTable pcr cs ess v')" "mux_ok view m1" by blast
  have len: "length (mux_patBytes m1) = 188" "length (mux_pmtBytes m1) = 188"
    unfolding m1(3,4) using length_table_wire fits_patTable[OF v(1)] fits_pmtTable[OF assms(4) v(2)] by blast+
  let ?m = "SetPCRPID m1 pid"
  have ok: "mux_ok view ?m" using m1(5) by (simp add: mux_ok_def SetPCRPID_def)
  from bits_writer.writeDirect_ok[OF assms(1) ok, of "mux_patBytes m1"] obtain w where
    w: "writeDirect W (mux_patBytes m1) ?m = (None, ?m\<lparr>mux_w := w\<rparr>)"
    "view w = (view (mux_w m1))\<lparr>vw_bytes := vw_bytes (view (mux_w m1)) @ mux_patBytes m1\<rparr>" by (auto simp: SetPCRPID_def)
  have "mux_ok view (?m\<lparr>mux_w := w\<rparr>)" using ok w(2) by (simp add: mux_ok_def clean_def SetPCRPID_def)
  from bits_writer.writeDirect_ok[OF assms(1) this, of "mux_pmtBytes m1"] obtain w' where
    w': "writeDirect W (mux_pmtBytes m1) (?m\<lparr>mux_w := w\<rparr>) = (None, ?m\<lparr>mux_w := w'\<rparr>)"
    "view w' = (view w)\<lparr>vw_bytes := vw_bytes (view w) @ mux_pmtBytes m1\<rparr>" by auto
  have "WriteTables W rng ?m = ((376, None), ?m\<lparr>mux_w := w'\<rparr>)"
    using len w(1) w'(1) ok by (simp add: WriteTables_def mux_ok_def SetPCRPID_def)
  moreover have "bw_Bytes W w' = bw_Bytes W (mux_w m1) @ mux_patBytes m1 @ mux_pmtBytes m1"
    by (simp add: bits_writer.Bytes[OF assms(1)] w(2) w'(2))
  ultimately show ?thesis using m1(1,2) len unfolding m1(3,4)[symmetric]
    by (intro exI[of _ m1] exI[of _ "?m\<lparr>mux_w := w'\<rparr>"] exI[of _ "mux_patBytes m1 @ mux_pmtBytes m1"]) (simp add: SetPCRPID_def)
qed


section \<open>Witnesses\<close>

theorem muxer_invariant_witness:
  "mux_reachable refWriter sorted_list_of_set False sampleProgram \<and> mux_core sampleProgram \<and> contexts_ok sampleProgram \<and>
    streams_match sampleProgram \<and> mux_PIDs sampleProgram = [0x100]"
proof -
  let ?new = "NewMuxer refWriter (bw_New refWriter) (map MuxerOptTablesRetransmitPeriod [])"
  have "mux_step refWriter sorted_list_of_set False ?new (snd (AddElementaryStream ?new sampleStream))"
    by (rule mux_step.add) (simp add: sampleStream_def)
  from mux_reachable.step[OF mux_reachable.step[OF mux_reachable.new this] mux_step.setPCR, of "0x100"]
  have r: "mux_reachable refWriter sorted_list_of_set False sampleProgram" by (simp add: sampleProgram_def)
  have "mux_PIDs sampleProgram = [0x100]"
    by (simp add: sampleProgram_def SetPCRPID_def AddElementaryStream_def NewMuxer_def sampleStream_def)
  with r muxer_invariant[OF r] show ?thesis by simp
qed

theorem automatic_PIDs_witness:
  "mux_PIDs (snd (addStreams (NewMuxer refWriter (bw_New refWriter) [MuxerOptTablesRetransmitPeriod 10])
     [sampleStream\<lparr>es_ElementaryPID := 0\<rparr>, sampleStream\<lparr>es_ElementaryPID := 0\<rparr>])) = [0, 1]"
  using automatic_PIDs[of "[sampleStream\<lparr>es_ElementaryPID := 0\<rparr>, sampleStream\<lparr>es_ElementaryPID := 0\<rparr>]" refWriter "bw_New refWriter" "[10]"]
  by simp

theorem late_PCR_PID_unannounced_witness:
  "\<exists>m1 m2 bs. WriteTables refWriter sorted_list_of_set sampleProgram = ((376, None), m1) \<and>
    bw_Bytes refWriter (mux_w m1) = bw_Bytes refWriter (mux_w sampleProgram) @ bs \<and> length bs = 376 \<and>
    WriteTables refWriter sorted_list_of_set (SetPCRPID m1 0x101) = ((376, None), m2) \<and> pmt_PCRPID (mux_pmt m2) = 0x101 \<and>
    bw_Bytes refWriter (mux_w m2) = bw_Bytes refWriter (mux_w m1) @ bs"
  by (rule late_PCR_PID_unannounced[OF ref_writer.bits_writer_axioms sorted_range.map_range_axioms sampleProgram])

definition longHeader :: PESOptionalHeader where
  "longHeader = zeroPESOptionalHeader\<lparr>oh_HasExtension := True, oh_HasExtension2 := True, oh_Extension2Data := replicate 180 0\<rparr>"

definition longData :: MuxerData where
  "longData = \<lparr>md_PID = 0x100, md_AdaptationField = None,
     md_PES = \<lparr>pes_Data = [7], pes_Header = \<lparr>pes_OptionalHeader = Some longHeader, pes_PacketLength = 0, pes_StreamID = 0xe0\<rparr>\<rparr>\<rparr>"


end
